theory Spec2Isabelle
  imports Main "HOL-Library.Word" "HOL-Library.AList" "HOL-Library.Char_ord"
    "HOL-Library.List_Lexorder"
begin

section \<open>Card notes in the client (\<open>notes.js\<close>)\<close>

text \<open>
  The part of \<open>globals\<close> that \<open>get\<close>, \<open>set\<close> and the key handler of \<open>openEditTooltip\<close> read
  or write. \<open>ourNotes\<close> and \<open>allNotes\<close> are arrays indexed by the order of a card; a missing
  element (\<open>undefined\<close>) is \<open>None\<close>. \<open>sent\<close> lists the \<open>note\<close> messages handed to
  \<open>globals.lobby.conn.send\<close>, oldest first, each with its \<open>order\<close> and its \<open>note\<close>. The objects
  that draw the tooltip and the card are not modelled.
\<close>

record noteObject =
  name' :: string
  note' :: string

record globals =
  replay :: bool
  spectating :: bool
  editingNote :: "int option"
  ourNotes :: "int \<rightharpoonup> string"
  allNotes :: "int \<rightharpoonup> noteObject list"
  lastNote :: "string option"
  actionOccured :: bool
  lobby_username :: string
  sent :: "(int \<times> string) list"

text \<open>
  \<open>stripHTMLtags\<close> asks the browser: \<open>textContent\<close> stands for
  \<open>new DOMParser().parseFromString(input, 'text/html').body.textContent\<close>, the text content
  of the input parsed as HTML. The empty string is falsy, so \<open>|| ''\<close> returns \<open>''\<close> for it.
\<close>

definition stripHTMLtags :: "(string \<Rightarrow> string) \<Rightarrow> string \<Rightarrow> string" where
  "stripHTMLtags textContent input =
     (let t = textContent input in if t = [] then [] else t)"

text \<open>
  \<open>get (order, our)\<close>. The result is \<open>Inr\<close> the value returned (\<open>None\<close> for \<open>undefined\<close>), or
  \<open>Inl ()\<close> when iterating \<open>globals.allNotes[order]\<close> throws because it is \<open>undefined\<close>.
\<close>

definition get :: "globals \<Rightarrow> int \<Rightarrow> bool \<Rightarrow> unit + string option" where
  "get g order our =
     (if our \<or> (\<not> replay g \<and> \<not> spectating g) then Inr (ourNotes g order)
      else
        (case allNotes g order of
           None \<Rightarrow> Inl ()
         | Some ns \<Rightarrow>
             let content =
                   concat (map (\<lambda>n. ''<strong>'' @ name' n @ '':</strong> '' @ note' n @ ''<br />'')
                             (filter (\<lambda>n. length (note' n) > 0) ns))
             in Inr (Some (if length content \<noteq> 0 then take (length content - 6) content
                           else content))))"

text \<open>
  \<open>set (order, note)\<close>, up to and including the message to the server. The second component
  says whether this part returned (\<open>True\<close>) or threw (\<open>False\<close>: the loop over an \<open>undefined\<close>
  \<open>globals.allNotes[order]\<close> of a spectator); assignments made before a throw stay. What
  follows in the source, \<open>checkSpecialNote (card)\<close>, reads \<open>globals.ourNotes\<close> and changes
  only the card's display.
\<close>

definition set' :: "int \<Rightarrow> string \<Rightarrow> globals \<Rightarrow> globals \<times> bool" where
  "set' order n g =
     (let oldNote = ourNotes g order;
          g1 = g\<lparr>ourNotes := (ourNotes g)(order \<mapsto> n)\<rparr>
      in
        if spectating g1 \<and> allNotes g1 order = None then (g1, False)
        else
          let g2 =
                (if spectating g1 then
                   g1\<lparr>allNotes := (allNotes g1)(order \<mapsto>
                         map (\<lambda>noteObject.
                                if name' noteObject = lobby_username g1
                                then noteObject\<lparr>note' := n\<rparr> else noteObject)
                             (the (allNotes g1 order)))\<rparr>
                 else g1);
              g3 = g2\<lparr>lastNote := Some n\<rparr>;
              g4 = (if \<not> replay g3 \<and> Some n \<noteq> oldNote
                    then g3\<lparr>sent := sent g3 @ [(order, n)]\<rparr> else g3)
          in (g4, True))"

text \<open>
  The \<open>keydown\<close> handler that \<open>openEditTooltip\<close> installs on the input box of the card with
  the given \<open>order\<close>: \<open>key\<close> is \<open>keyEvent.key\<close>, \<open>input\<close> the value of the input box, and
  \<open>display_returns\<close> says whether the display code called at the end of \<open>set\<close> returns
  (it can throw). After a throw the handler does not reach the test of
  \<open>globals.actionOccured\<close>. On Escape the handler only reads the existing note with
  \<open>get (card.order, true)\<close>; the value read is not used afterwards.
\<close>

definition keydown ::
  "(string \<Rightarrow> string) \<Rightarrow> bool \<Rightarrow> string \<Rightarrow> string \<Rightarrow> int \<Rightarrow> globals \<Rightarrow> globals" where
  "keydown textContent display_returns key input order g =
     (if key \<noteq> ''Enter'' \<and> key \<noteq> ''Escape'' then g
      else
        let g1 = g\<lparr>editingNote := None\<rparr>;
            (g2, returned) =
              (if key = ''Escape'' then (g1, True)
               else
                 let (g', returned') = set' order (stripHTMLtags textContent input) g1
                 in (g', returned' \<and> display_returns))
        in
          if returned \<and> actionOccured g2 then g2\<lparr>actionOccured := False\<rparr> else g2)"

section \<open>The return-to-lobby handler (\<open>step1\<close>)\<close>

text \<open>
  The handler runs on the Node server. It receives the session's socket and an empty
  \<open>data\<close> object, reads and writes \<open>globals.currentGames\<close>, and calls the \<open>notify\<close> and
  \<open>logger\<close> modules. The model threads three pieces of state: the socket, the \<open>data\<close>
  object and a \<open>world\<close> holding the games, the notifications sent so far (oldest first)
  and the log lines written so far. JavaScript numbers that hold identifiers and counts
  are modelled as \<open>int\<close>.
\<close>

text \<open>
  Modelled from the spec: the game object is built by code of the server that is not
  among the sources at hand. The record has the fields the handler touches (\<open>players\<close>,
  \<open>spectators\<close>, \<open>num_spec\<close>, \<open>running\<close>, and \<open>userID\<close> and \<open>present\<close> of a player) and the
  rule state the specification names for a table (hands, stacks, turn index, clue tokens).
  A spectator entry maps the user identifier to the spectator's session, represented here
  by its user name.
\<close>

record player =
  p_userID :: int
  present :: bool
  hand :: "nat list"

record game =
  players :: "player list"
  spectators :: "int \<rightharpoonup> string"
  num_spec :: int
  running :: bool
  stacks :: "nat list"
  turn :: nat
  clue_tokens :: int

record at_table =
  id' :: int
  spectating :: bool

record socket =
  userID :: int
  username :: string
  status :: string
  atTable :: at_table

record data =
  gameID :: "int option"

text \<open>
  Modelled from the spec: the \<open>notify\<close> and \<open>logger\<close> modules are not among the sources at
  hand. A call of a \<open>notify\<close> function is recorded as the notification it emits, with the
  arguments of the call: \<open>allUserChange\<close> is the user-status change, \<open>gameMemberChange\<close> the
  membership change of a table, \<open>gameNumSpec\<close> the spectator-count change, \<open>gameConnected\<close>
  the player-connection change, and \<open>playerTable\<close> the table message sent to one session.
  A call of the logger is recorded as the line it writes.
\<close>

datatype notification =
    allUserChange socket
  | gameMemberChange data
  | gameNumSpec data
  | gameConnected data
  | playerTable socket data

datatype logline =
    info_table_does_not_exist
  | error_not_in_spectators string int

record world =
  currentGames :: "int \<rightharpoonup> game"
  notifications :: "notification list"
  log :: "logline list"

definition notify :: "notification \<Rightarrow> world \<Rightarrow> world" where
  "notify n w = w\<lparr>notifications := notifications w @ [n]\<rparr>"

definition logger :: "logline \<Rightarrow> world \<Rightarrow> world" where
  "logger l w = w\<lparr>log := log w @ [l]\<rparr>"

text \<open>
  The loop over \<open>game.players\<close>: the first player whose \<open>userID\<close> equals the socket's gets
  \<open>present = false\<close>, and the loop breaks.
\<close>

fun set_absent :: "int \<Rightarrow> player list \<Rightarrow> player list" where
  "set_absent u [] = []"
| "set_absent u (p # ps) =
     (if p_userID p = u then p\<lparr>present := False\<rparr> # ps else p # set_absent u ps)"

definition step1 :: "socket \<Rightarrow> data \<Rightarrow> world \<Rightarrow> socket \<times> data \<times> world" where
  "step1 socket0 data0 w0 =
     (let gid = id' (atTable socket0);
          data = data0\<lparr>gameID := Some gid\<rparr>;
          game = currentGames w0 gid;
          socket = socket0\<lparr>status := ''Lobby''\<rparr>;
          w1 = notify (allUserChange socket) w0
      in case game of
           None \<Rightarrow> (socket, data, logger info_table_does_not_exist w1)
         | Some g \<Rightarrow>
             if spectating (atTable socket) then
               (if spectators g (userID socket) = None then
                  (socket, data, logger (error_not_in_spectators (username socket) gid) w1)
                else
                  let g' = g\<lparr>spectators := (spectators g)(userID socket := None),
                             num_spec := num_spec g - 1\<rparr>;
                      w2 = w1\<lparr>currentGames := (currentGames w1)(gid \<mapsto> g')\<rparr>
                  in (socket, data, notify (gameNumSpec data) (notify (gameMemberChange data) w2)))
             else
               let g' = g\<lparr>players := set_absent (userID socket) (players g)\<rparr>;
                   w2 = w1\<lparr>currentGames := (currentGames w1)(gid \<mapsto> g')\<rparr>;
                   w3 = (if running g' then notify (gameConnected data) w2
                         else notify (gameMemberChange data) w2)
               in (socket, data, notify (playerTable socket data) w3))"

section \<open>Persistence: \<open>serializeTables\<close> and \<open>restoreTables\<close>\<close>

subsection \<open>Data\<close>

text \<open>
  A decoded JSON value, as \<open>json.Unmarshal\<close> stores it in an \<open>interface{}\<close>: \<open>nil\<close>, a
  \<open>bool\<close>, a number, a \<open>string\<close>, a \<open>[]interface{}\<close> or a \<open>map[string]interface{}\<close>. A map is
  represented by the list of its entries; the order of the list carries no meaning and a
  key is looked up with \<open>map_of\<close>. Numbers are integers: every number the modelled records
  hold is a Go integer, and the generic decoder's \<open>float64\<close> holds the player indices,
  suits, ranks and card orders of an action exactly.
\<close>

datatype jvalue =
    JNull
  | JBool bool
  | JNum int
  | JStr string
  | JArr "jvalue list"
  | JObj "(string \<times> jvalue) list"

text \<open>
  Modelled from the spec: the action structs (\<open>ActionDraw\<close> and the structs of the other
  kinds) are declared in a file of the server that is not among the sources at hand. An
  action is "a discriminated record describing one state transition (who, what kind,
  target card/suit/rank as applicable)", and the kinds are draw, clue, play, discard,
  turn and game-over. A value of the action log (\<open>[]interface{}\<close>) is one of
  \<^item> \<open>Draw d\<close>: an \<open>ActionDraw\<close> struct,
  \<^item> \<open>Typed k fs\<close>: the struct of another kind \<open>k\<close>, with the fields \<open>fs\<close> it encodes to,
  \<^item> \<open>Generic v\<close>: a generic decoded value, not a struct of any action kind.
\<close>

record ActionDraw =
  Who :: int
  Rank :: int
  Suit :: int
  Order :: int

datatype kind = ActionClue | ActionPlay | ActionDiscard | ActionTurn | ActionGameOver

datatype action =
    Draw ActionDraw
  | Typed kind "(string \<times> jvalue) list"
  | Generic jvalue

text \<open>
  Modelled from the spec: the structs \<open>Table\<close>, \<open>Game\<close>, \<open>GamePlayer\<close>, \<open>Player\<close> and \<open>Options\<close>
  are declared elsewhere in the server. The records have the fields that \<open>serializeTables\<close>
  and \<open>restoreTables\<close> read or write, and the rule state the specification lists for a
  Game (stacks, discard pile, clue tokens, turn, action log).
  \<^item> \<open>ID\<close> is a \<open>uint64\<close> (the source formats it with \<open>strconv.FormatUint\<close>) and \<open>Time\<close> a
    \<open>time.Duration\<close> (the source adds \<open>20 * time.Second\<close> to it), an \<open>int64\<close> of
    nanoseconds: both are 64-bit words, and \<open>sint\<close> reads the duration. The other integers are Go \<open>int\<close>s, whose
    overflow no statement below depends on.
  \<^item> A pointer that may be \<open>nil\<close> is an \<open>option\<close>: \<open>Table.Game\<close>, \<open>Table.Options\<close>,
    \<open>Table.ExtraOptions\<close> and their copies in the Game.
  \<^item> The back-references \<open>Game.Table\<close> and \<open>GamePlayer.Game\<close> point to the owning table and
    game. A table owns exactly one game, so both are represented by the identifier of the
    owning table, \<open>None\<close> for \<open>nil\<close>.
  \<^item> The specification names no field of \<open>ExtraOptions\<close>; it is kept as the list of its
    encoded fields.
\<close>

record Options =
  Timed :: bool
  Variant :: string

record GamePlayer =
  Hand :: "int list"
  Time :: "64 word"
  Game :: "64 word option"

record Game =
  Table :: "64 word option"
  Options :: "Options option"
  ExtraOptions :: "(string \<times> jvalue) list option"
  Players :: "GamePlayer list"
  Stacks :: "int list"
  Discard :: "int list"
  ClueTokens :: int
  Turn :: int
  ActivePlayerIndex :: int
  PauseCount :: int
  Actions :: "action list"

record Player =
  Name :: string
  Present :: bool

record Table =
  ID :: "64 word"
  Running :: bool
  Replay :: bool
  Players :: "Player list"
  Options :: "Options option"
  ExtraOptions :: "(string \<times> jvalue) list option"
  Game :: "Game option"

subsection \<open>The tables directory\<close>

text \<open>
  The directory \<open>tablesPath\<close> is a list of named entries with distinct names, or \<open>None\<close>
  when the directory does not exist. An entry is a file with its content, or something
  \<open>ioutil.ReadFile\<close> fails on (a subdirectory, a file without read permission). The type
  \<open>'b\<close> is the type of file contents. \<open>path.Join (tablesPath, name)\<close> is the entry \<open>name\<close>
  of this directory. The two predicates say for which names the operating system refuses
  a write or a removal; a refused write leaves the directory as it was.
\<close>

type_synonym error = string

datatype 'b entry = File 'b | Unreadable

record 'b disk =
  files :: "(string \<times> 'b entry) list option"
  write_fails :: "string \<Rightarrow> bool"
  remove_fails :: "string \<Rightarrow> bool"

definition WriteFile :: "string \<Rightarrow> 'b \<Rightarrow> 'b disk \<Rightarrow> error + 'b disk" where
  "WriteFile name b d =
     (case files d of
        None \<Rightarrow> Inl ''no such file or directory''
      | Some es \<Rightarrow>
          if write_fails d name then Inl ''write failed''
          else Inr (d\<lparr>files := Some (AList.update name (File b) es)\<rparr>))"

text \<open>\<open>ioutil.ReadDir\<close> returns the entries sorted by file name.\<close>

definition ReadDir :: "'b disk \<Rightarrow> error + string list" where
  "ReadDir d =
     (case files d of
        None \<Rightarrow> Inl ''no such file or directory''
      | Some es \<Rightarrow> Inr (sort (map fst es)))"

definition ReadFile :: "string \<Rightarrow> 'b disk \<Rightarrow> error + 'b" where
  "ReadFile name d =
     (case files d of
        None \<Rightarrow> Inl ''no such file or directory''
      | Some es \<Rightarrow>
          (case map_of es name of
             Some (File b) \<Rightarrow> Inr b
           | _ \<Rightarrow> Inl ''read failed''))"

definition Remove :: "string \<Rightarrow> 'b disk \<Rightarrow> error + 'b disk" where
  "Remove name d =
     (case files d of
        None \<Rightarrow> Inl ''no such file or directory''
      | Some es \<Rightarrow>
          if map_of es name = None \<or> remove_fails d name then Inl ''remove failed''
          else Inr (d\<lparr>files := Some (AList.delete name es)\<rparr>))"

subsection \<open>\<open>strconv.FormatUint (n, 10)\<close>\<close>

definition digit :: "nat \<Rightarrow> char" where
  "digit n = char_of (48 + n mod 10)"

function FormatNat :: "nat \<Rightarrow> string" where
  "FormatNat n = (if n < 10 then [digit n] else FormatNat (n div 10) @ [digit (n mod 10)])"
  by pat_completeness auto
termination
  by (relation "measure id") auto

declare FormatNat.simps [simp del]

definition FormatUint :: "64 word \<Rightarrow> string" where
  "FormatUint w = FormatNat (unat w)"

definition tableFilename :: "Table \<Rightarrow> string" where
  "tableFilename t = FormatUint (ID t) @ ''.json''"

subsection \<open>\<open>serializeTables\<close>\<close>

text \<open>
  \<open>Marshal\<close> stands for \<open>json.Marshal\<close> on a table. The list \<open>ts\<close> holds the tables of the
  registry in the order in which \<open>range tables\<close> visits them (Go leaves that order open).
  The result is the returned boolean and the directory afterwards. The lines written to
  the log and the table mutex are not modelled.
\<close>

fun serializeTables ::
  "(Table \<Rightarrow> error + 'b) \<Rightarrow> Table list \<Rightarrow> 'b disk \<Rightarrow> bool \<times> 'b disk" where
  "serializeTables Marshal [] d = (True, d)"
| "serializeTables Marshal (t # ts) d =
     (if \<not> Running t \<or> Replay t then serializeTables Marshal ts d
      else
        (case Marshal t of
           Inl err \<Rightarrow> (False, d)
         | Inr tableJSON \<Rightarrow>
             (case WriteFile (tableFilename t) tableJSON d of
                Inl err \<Rightarrow> (False, d)
              | Inr d' \<Rightarrow> serializeTables Marshal ts d')))"

subsection \<open>\<open>restoreTables\<close>\<close>

text \<open>
  \<open>log.Fatal\<close> of the standard library prints and exits the process. A run of
  \<open>restoreTables\<close> that ends the process returns \<open>Inl\<close> with the failure; \<open>Panic\<close> is a Go
  run-time panic (a \<open>nil\<close> dereference, an index out of range).
\<close>

text \<open>
  Modelled from the spec: \<open>logger.Fatal\<close> belongs to the server's own logger, which is not
  among the sources at hand. Decode failures are "fatal to the process", so it ends the
  process as \<open>log.Fatal\<close> does. (After a failed \<open>json.Unmarshal\<close> and after a failed read the
  source returns from \<open>restoreTables\<close> in any case.)
\<close>

datatype fatal =
    Failed_to_get_the_files
  | Failed_to_read string
  | Failed_to_unmarshal string
  | Failed_to_convert_to_a_map nat "64 word"
  | Failed_to_convert_to_a_draw_action nat "64 word"
  | Failed_to_delete string
  | Panic

text \<open>
  A goroutine started with \<open>go\<close>: the turn-timer watcher \<open>g.CheckTimer (turn, pauseCount,
  player)\<close> of the game of a table, the player given by its index in \<open>g.Players\<close>, and the
  idle watcher \<open>t.CheckIdle ()\<close> of a table.
\<close>

datatype task =
    CheckTimer "64 word" int int nat
  | CheckIdle "64 word"

record 'b server =
  tables :: "64 word \<rightharpoonup> Table"
  disk :: "'b disk"
  spawned :: "task list"

text \<open>
  The loop that restores the types of the actions, from index \<open>i\<close> on. \<open>Decode\<close> stands for
  \<open>mapstructure.Decode\<close> into an \<open>ActionDraw\<close>. An entry that is not a string-keyed map is
  fatal; a map whose \<open>type\<close> is \<open>draw\<close> is replaced by the decoded \<open>ActionDraw\<close>; any other map
  stays.
\<close>

fun restoreActions ::
  "((string \<times> jvalue) list \<Rightarrow> error + ActionDraw) \<Rightarrow> 64 word \<Rightarrow> nat \<Rightarrow> action list
     \<Rightarrow> fatal + action list" where
  "restoreActions Decode tid i [] = Inr []"
| "restoreActions Decode tid i (a # as) =
     (case a of
        Generic (JObj m) \<Rightarrow>
          if map_of m ''type'' = Some (JStr ''draw'') then
            (case Decode m of
               Inl err \<Rightarrow> Inl (Failed_to_convert_to_a_draw_action i tid)
             | Inr actionDraw \<Rightarrow>
                 (case restoreActions Decode tid (Suc i) as of
                    Inl f \<Rightarrow> Inl f
                  | Inr as' \<Rightarrow> Inr (Draw actionDraw # as')))
          else
            (case restoreActions Decode tid (Suc i) as of
               Inl f \<Rightarrow> Inl f
             | Inr as' \<Rightarrow> Inr (a # as'))
      | _ \<Rightarrow> Inl (Failed_to_convert_to_a_map i tid))"

definition grace :: "64 word" where
  "grace = 20 * 1000000000"

text \<open>
  The body of the loop over the files, from the decoded table \<open>t\<close> to the table that is put
  into the registry, with the turn-timer watcher it starts (if any).
\<close>

definition restoreTable ::
  "((string \<times> jvalue) list \<Rightarrow> error + ActionDraw) \<Rightarrow> Table \<Rightarrow> fatal + Table \<times> task list" where
  "restoreTable Decode t =
     (case Table.Game t of
        None \<Rightarrow> Inl Panic
      | Some g0 \<Rightarrow>
          let g1 = g0\<lparr>Table := Some (ID t),
                      Game.Options := Table.Options t,
                      Game.ExtraOptions := Table.ExtraOptions t,
                      Game.Players := map (\<lambda>gp. gp\<lparr>GamePlayer.Game := Some (ID t)\<rparr>) (Game.Players g0)\<rparr>
          in
          (case restoreActions Decode (ID t) 0 (Actions g1) of
             Inl f \<Rightarrow> Inl f
           | Inr as \<Rightarrow>
               let g2 = g1\<lparr>Actions := as\<rparr>;
                   t1 = t\<lparr>Table.Players := map (\<lambda>p. p\<lparr>Present := False\<rparr>) (Table.Players t)\<rparr>
               in
               (case Game.Options g2 of
                  None \<Rightarrow> Inl Panic
                | Some opts \<Rightarrow>
                    if Timed opts then
                      (if 0 \<le> ActivePlayerIndex g2
                          \<and> nat (ActivePlayerIndex g2) < length (Game.Players g2) then
                         let i = nat (ActivePlayerIndex g2);
                             gp = Game.Players g2 ! i;
                             g3 = g2\<lparr>Game.Players :=
                                       (Game.Players g2)[i := gp\<lparr>Time := Time gp + grace\<rparr>]\<rparr>
                         in Inr (t1\<lparr>Table.Game := Some g3\<rparr>,
                                 [CheckTimer (ID t) (Turn g3) (PauseCount g3) i])
                       else Inl Panic)
                    else Inr (t1\<lparr>Table.Game := Some g2\<rparr>, []))))"

text \<open>
  The loop over the directory entries \<open>names\<close>. \<open>Unmarshal\<close> stands for \<open>json.Unmarshal\<close> into
  a fresh \<open>Table\<close>. The information lines written to the log, among them the final count of
  restored tables, are not modelled.
\<close>

fun restoreFiles ::
  "('b \<Rightarrow> error + Table) \<Rightarrow> ((string \<times> jvalue) list \<Rightarrow> error + ActionDraw) \<Rightarrow> string list
     \<Rightarrow> 'b server \<Rightarrow> fatal + 'b server" where
  "restoreFiles Unmarshal Decode [] s = Inr s"
| "restoreFiles Unmarshal Decode (name # names) s =
     (if name = ''.gitignore'' then restoreFiles Unmarshal Decode names s
      else
        (case ReadFile name (disk s) of
           Inl err \<Rightarrow> Inl (Failed_to_read name)
         | Inr tableJSON \<Rightarrow>
             (case Unmarshal tableJSON of
                Inl err \<Rightarrow> Inl (Failed_to_unmarshal name)
              | Inr t0 \<Rightarrow>
                  (case restoreTable Decode t0 of
                     Inl f \<Rightarrow> Inl f
                   | Inr (t, timer) \<Rightarrow>
                       (case Remove name (disk s) of
                          Inl err \<Rightarrow> Inl (Failed_to_delete name)
                        | Inr d \<Rightarrow>
                            restoreFiles Unmarshal Decode names
                              (s\<lparr>tables := (tables s)(ID t \<mapsto> t),
                                 disk := d,
                                 spawned := spawned s @ timer @ [CheckIdle (ID t)]\<rparr>))))))"

definition restoreTables ::
  "('b \<Rightarrow> error + Table) \<Rightarrow> ((string \<times> jvalue) list \<Rightarrow> error + ActionDraw)
     \<Rightarrow> 'b server \<Rightarrow> fatal + 'b server" where
  "restoreTables Unmarshal Decode s =
     (case ReadDir (disk s) of
        Inl err \<Rightarrow> Inl Failed_to_get_the_files
      | Inr names \<Rightarrow> restoreFiles Unmarshal Decode names s)"

subsection \<open>The two libraries on these records\<close>

text \<open>
  \<open>serializeTables\<close> and \<open>restoreTables\<close> above take the library functions as arguments.
  This section gives the functions they are called with: \<open>json.Marshal\<close> and
  \<open>json.Unmarshal\<close> of \<open>encoding/json\<close> on a \<open>Table\<close>, and \<open>mapstructure.Decode\<close> into
  an \<open>ActionDraw\<close>. A file holds a JSON document, represented by its value (type
  \<open>jvalue\<close>) rather than by its text.

  The encoder writes every exported field under its name and leaves out the fields
  tagged \<open>json:"-"\<close>: by the comments in \<open>serializeTables\<close> and \<open>restoreTables\<close> these are
  the back-references \<open>Game.Table\<close> and \<open>GamePlayer.Game\<close> and the Game's copies of
  \<open>Options\<close> and \<open>ExtraOptions\<close>. A \<open>nil\<close> pointer is written as \<open>null\<close>. An action is
  written as an object with its discriminator under the key \<open>type\<close>, which is the key
  \<open>restoreTables\<close> reads.

  The decoder reads a field from the key of the same name (Go also accepts a key that
  differs in letter case), leaves a field whose key is missing or \<open>null\<close> at its zero
  value, ignores unknown keys, and fails on a value of the wrong JSON type or a number
  out of the range of the field. An element of \<open>Actions\<close>, of type \<open>interface{}\<close>, is
  stored as the generic value.
\<close>

definition sum_bind :: "'e + 'a \<Rightarrow> ('a \<Rightarrow> 'e + 'b) \<Rightarrow> 'e + 'b" where
  "sum_bind x f = (case x of Inl e \<Rightarrow> Inl e | Inr v \<Rightarrow> f v)"

fun traverse :: "('a \<Rightarrow> 'e + 'b) \<Rightarrow> 'a list \<Rightarrow> 'e + 'b list" where
  "traverse f [] = Inr []"
| "traverse f (x # xs) =
     sum_bind (f x) (\<lambda>y. sum_bind (traverse f xs) (\<lambda>ys. Inr (y # ys)))"

definition getBool :: "(string \<times> jvalue) list \<Rightarrow> string \<Rightarrow> error + bool" where
  "getBool m k =
     (case map_of m k of
        None \<Rightarrow> Inr False
      | Some JNull \<Rightarrow> Inr False
      | Some (JBool b) \<Rightarrow> Inr b
      | Some _ \<Rightarrow> Inl ''cannot unmarshal into bool'')"

definition getString :: "(string \<times> jvalue) list \<Rightarrow> string \<Rightarrow> error + string" where
  "getString m k =
     (case map_of m k of
        None \<Rightarrow> Inr []
      | Some JNull \<Rightarrow> Inr []
      | Some (JStr s) \<Rightarrow> Inr s
      | Some _ \<Rightarrow> Inl ''cannot unmarshal into string'')"

definition decInt :: "jvalue \<Rightarrow> error + int" where
  "decInt v = (case v of JNum n \<Rightarrow> Inr n | _ \<Rightarrow> Inl ''cannot unmarshal into int'')"

definition getInt :: "(string \<times> jvalue) list \<Rightarrow> string \<Rightarrow> error + int" where
  "getInt m k =
     (case map_of m k of
        None \<Rightarrow> Inr 0
      | Some JNull \<Rightarrow> Inr 0
      | Some v \<Rightarrow> decInt v)"

definition getInt64 :: "(string \<times> jvalue) list \<Rightarrow> string \<Rightarrow> error + 64 word" where
  "getInt64 m k =
     (case map_of m k of
        None \<Rightarrow> Inr 0
      | Some JNull \<Rightarrow> Inr 0
      | Some (JNum n) \<Rightarrow>
          if - (2 ^ 63) \<le> n \<and> n < 2 ^ 63 then Inr (word_of_int n)
          else Inl ''cannot unmarshal number into int64''
      | Some _ \<Rightarrow> Inl ''cannot unmarshal into int64'')"

definition getUint64 :: "(string \<times> jvalue) list \<Rightarrow> string \<Rightarrow> error + 64 word" where
  "getUint64 m k =
     (case map_of m k of
        None \<Rightarrow> Inr 0
      | Some JNull \<Rightarrow> Inr 0
      | Some (JNum n) \<Rightarrow>
          if 0 \<le> n \<and> n < 2 ^ 64 then Inr (word_of_int n)
          else Inl ''cannot unmarshal number into uint64''
      | Some _ \<Rightarrow> Inl ''cannot unmarshal into uint64'')"

definition getList ::
  "(jvalue \<Rightarrow> error + 'a) \<Rightarrow> (string \<times> jvalue) list \<Rightarrow> string \<Rightarrow> error + 'a list" where
  "getList dec m k =
     (case map_of m k of
        None \<Rightarrow> Inr []
      | Some JNull \<Rightarrow> Inr []
      | Some (JArr vs) \<Rightarrow> traverse dec vs
      | Some _ \<Rightarrow> Inl ''cannot unmarshal into slice'')"

definition getPointer ::
  "(jvalue \<Rightarrow> error + 'a) \<Rightarrow> (string \<times> jvalue) list \<Rightarrow> string \<Rightarrow> error + 'a option" where
  "getPointer dec m k =
     (case map_of m k of
        None \<Rightarrow> Inr None
      | Some JNull \<Rightarrow> Inr None
      | Some v \<Rightarrow> sum_bind (dec v) (\<lambda>x. Inr (Some x)))"

definition encodePointer :: "('a \<Rightarrow> jvalue) \<Rightarrow> 'a option \<Rightarrow> jvalue" where
  "encodePointer enc p = (case p of None \<Rightarrow> JNull | Some x \<Rightarrow> enc x)"

fun kind_name :: "kind \<Rightarrow> string" where
  "kind_name ActionClue = ''clue''"
| "kind_name ActionPlay = ''play''"
| "kind_name ActionDiscard = ''discard''"
| "kind_name ActionTurn = ''turn''"
| "kind_name ActionGameOver = ''gameOver''"

fun encodeAction :: "action \<Rightarrow> jvalue" where
  "encodeAction (Draw d) =
     JObj [(''type'', JStr ''draw''), (''who'', JNum (Who d)), (''rank'', JNum (Rank d)),
           (''suit'', JNum (Suit d)), (''order'', JNum (Order d))]"
| "encodeAction (Typed k fs) = JObj ((''type'', JStr (kind_name k)) # fs)"
| "encodeAction (Generic v) = v"

definition encodeOptions :: "Options \<Rightarrow> jvalue" where
  "encodeOptions opts = JObj [(''Timed'', JBool (Timed opts)), (''Variant'', JStr (Variant opts))]"

definition decodeOptions :: "jvalue \<Rightarrow> error + Options" where
  "decodeOptions v =
     (case v of
        JObj m \<Rightarrow>
          sum_bind (getBool m ''Timed'') (\<lambda>timed.
          sum_bind (getString m ''Variant'') (\<lambda>variant.
          Inr \<lparr>Timed = timed, Variant = variant\<rparr>))
      | _ \<Rightarrow> Inl ''cannot unmarshal into Options'')"

definition decodeExtraOptions :: "jvalue \<Rightarrow> error + (string \<times> jvalue) list" where
  "decodeExtraOptions v =
     (case v of JObj m \<Rightarrow> Inr m | _ \<Rightarrow> Inl ''cannot unmarshal into ExtraOptions'')"

definition encodePlayer :: "Player \<Rightarrow> jvalue" where
  "encodePlayer p = JObj [(''Name'', JStr (Name p)), (''Present'', JBool (Present p))]"

definition decodePlayer :: "jvalue \<Rightarrow> error + Player" where
  "decodePlayer v =
     (case v of
        JObj m \<Rightarrow>
          sum_bind (getString m ''Name'') (\<lambda>name.
          sum_bind (getBool m ''Present'') (\<lambda>present.
          Inr \<lparr>Name = name, Present = present\<rparr>))
      | _ \<Rightarrow> Inl ''cannot unmarshal into Player'')"

definition encodeGamePlayer :: "GamePlayer \<Rightarrow> jvalue" where
  "encodeGamePlayer gp =
     JObj [(''Hand'', JArr (map JNum (Hand gp))), (''Time'', JNum (sint (Time gp)))]"

definition decodeGamePlayer :: "jvalue \<Rightarrow> error + GamePlayer" where
  "decodeGamePlayer v =
     (case v of
        JObj m \<Rightarrow>
          sum_bind (getList decInt m ''Hand'') (\<lambda>hand.
          sum_bind (getInt64 m ''Time'') (\<lambda>time.
          Inr \<lparr>Hand = hand, Time = time, Game = None\<rparr>))
      | _ \<Rightarrow> Inl ''cannot unmarshal into GamePlayer'')"

definition encodeGame :: "Game \<Rightarrow> jvalue" where
  "encodeGame g =
     JObj [(''Players'', JArr (map encodeGamePlayer (Game.Players g))),
           (''Stacks'', JArr (map JNum (Stacks g))),
           (''Discard'', JArr (map JNum (Discard g))),
           (''ClueTokens'', JNum (ClueTokens g)),
           (''Turn'', JNum (Turn g)),
           (''ActivePlayerIndex'', JNum (ActivePlayerIndex g)),
           (''PauseCount'', JNum (PauseCount g)),
           (''Actions'', JArr (map encodeAction (Actions g)))]"

definition decodeGame :: "jvalue \<Rightarrow> error + Game" where
  "decodeGame v =
     (case v of
        JObj m \<Rightarrow>
          sum_bind (getList decodeGamePlayer m ''Players'') (\<lambda>players.
          sum_bind (getList decInt m ''Stacks'') (\<lambda>stacks.
          sum_bind (getList decInt m ''Discard'') (\<lambda>discard.
          sum_bind (getInt m ''ClueTokens'') (\<lambda>clueTokens.
          sum_bind (getInt m ''Turn'') (\<lambda>turn.
          sum_bind (getInt m ''ActivePlayerIndex'') (\<lambda>activePlayerIndex.
          sum_bind (getInt m ''PauseCount'') (\<lambda>pauseCount.
          sum_bind (getList (\<lambda>a. Inr (Generic a)) m ''Actions'') (\<lambda>actions.
          Inr \<lparr>Table = None, Options = None, ExtraOptions = None, Players = players,
               Stacks = stacks, Discard = discard, ClueTokens = clueTokens, Turn = turn,
               ActivePlayerIndex = activePlayerIndex, PauseCount = pauseCount,
               Actions = actions\<rparr>))))))))
      | _ \<Rightarrow> Inl ''cannot unmarshal into Game'')"

definition encodeTable :: "Table \<Rightarrow> jvalue" where
  "encodeTable t =
     JObj [(''ID'', JNum (uint (ID t))),
           (''Running'', JBool (Running t)),
           (''Replay'', JBool (Replay t)),
           (''Players'', JArr (map encodePlayer (Table.Players t))),
           (''Options'', encodePointer encodeOptions (Table.Options t)),
           (''ExtraOptions'', encodePointer JObj (Table.ExtraOptions t)),
           (''Game'', encodePointer encodeGame (Table.Game t))]"

definition decodeTable :: "jvalue \<Rightarrow> error + Table" where
  "decodeTable v =
     (case v of
        JObj m \<Rightarrow>
          sum_bind (getUint64 m ''ID'') (\<lambda>id.
          sum_bind (getBool m ''Running'') (\<lambda>running.
          sum_bind (getBool m ''Replay'') (\<lambda>replay.
          sum_bind (getList decodePlayer m ''Players'') (\<lambda>players.
          sum_bind (getPointer decodeOptions m ''Options'') (\<lambda>options.
          sum_bind (getPointer decodeExtraOptions m ''ExtraOptions'') (\<lambda>extraOptions.
          sum_bind (getPointer decodeGame m ''Game'') (\<lambda>game.
          Inr \<lparr>ID = id, Running = running, Replay = replay, Players = players,
               Options = options, ExtraOptions = extraOptions, Game = game\<rparr>)))))))
      | _ \<Rightarrow> Inl ''cannot unmarshal into Table'')"

definition json_Marshal :: "Table \<Rightarrow> error + jvalue" where
  "json_Marshal t = Inr (encodeTable t)"

definition json_Unmarshal :: "jvalue \<Rightarrow> error + Table" where
  "json_Unmarshal v = decodeTable v"

text \<open>
  \<open>mapstructure.Decode\<close> of a map into an \<open>ActionDraw\<close>: each field is read from its key,
  a missing key leaves the zero value, a number is converted to the \<open>int\<close> field, and any
  other kind of value is an error.
\<close>

definition mapstructure_Decode :: "(string \<times> jvalue) list \<Rightarrow> error + ActionDraw" where
  "mapstructure_Decode m =
     sum_bind (getInt m ''who'') (\<lambda>who.
     sum_bind (getInt m ''rank'') (\<lambda>rank.
     sum_bind (getInt m ''suit'') (\<lambda>suit.
     sum_bind (getInt m ''order'') (\<lambda>order.
     Inr \<lparr>Who = who, Rank = rank, Suit = suit, Order = order\<rparr>))))"

text \<open>
  What the decoder makes of an encoded game: the fields that are not encoded are \<open>nil\<close>
  and every action is the generic value of its encoding.
\<close>

definition generic_Game :: "Game \<Rightarrow> Game" where
  "generic_Game g =
     g\<lparr>Table := None, Game.Options := None, Game.ExtraOptions := None,
       Game.Players := map (\<lambda>gp. gp\<lparr>GamePlayer.Game := None\<rparr>) (Game.Players g),
       Actions := map (\<lambda>a. Generic (encodeAction a)) (Actions g)\<rparr>"

subsection \<open>Notions used in the statements\<close>

text \<open>
  \<open>retyped Decode a a'\<close>: the entry \<open>a\<close> of a decoded action log is a string-keyed map, and
  \<open>a'\<close> is the typed draw action decoded from it when its \<open>type\<close> is \<open>draw\<close>, and \<open>a\<close> itself
  otherwise.
\<close>

definition retyped ::
  "((string \<times> jvalue) list \<Rightarrow> error + ActionDraw) \<Rightarrow> action \<Rightarrow> action \<Rightarrow> bool" where
  "retyped Decode a a' =
     (case a of
        Generic (JObj m) \<Rightarrow>
          if map_of m ''type'' = Some (JStr ''draw'') then
            (case Decode m of Inl err \<Rightarrow> False | Inr d \<Rightarrow> a' = Draw d)
          else a' = a
      | _ \<Rightarrow> False)"

text \<open>
  \<open>as_restored a\<close>: what an entry \<open>a\<close> of the action log of a table is after the table has
  been written and restored. A draw action is the same draw action; the struct of another
  kind is the generic string-keyed map of its encoding; a generic map is that map, or the
  draw action decoded from it if its \<open>type\<close> is \<open>draw\<close>.
\<close>

fun as_restored :: "action \<Rightarrow> action" where
  "as_restored (Draw d) = Draw d"
| "as_restored (Typed k fs) = Generic (encodeAction (Typed k fs))"
| "as_restored (Generic (JObj m)) =
     (if map_of m ''type'' = Some (JStr ''draw'') then
        (case mapstructure_Decode m of Inl err \<Rightarrow> Generic (JObj m) | Inr d \<Rightarrow> Draw d)
      else Generic (JObj m))"
| "as_restored (Generic v) = Generic v"

text \<open>
  \<open>restorable_action a\<close>: the entry \<open>a\<close> encodes to a JSON object, and if the \<open>type\<close> of the
  object is \<open>draw\<close> it decodes to a draw action. Every struct of an action kind is such
  an entry, and so is every generic map that \<open>restoreTables\<close> has left in a log.
\<close>

fun restorable_action :: "action \<Rightarrow> bool" where
  "restorable_action (Draw d) = True"
| "restorable_action (Typed k fs) = True"
| "restorable_action (Generic (JObj m)) =
     (map_of m ''type'' = Some (JStr ''draw'') \<longrightarrow> \<not> isl (mapstructure_Decode m))"
| "restorable_action (Generic v) = False"

text \<open>\<open>ongoing t\<close>: the table is running and is not a replay.\<close>

definition ongoing :: "Table \<Rightarrow> bool" where
  "ongoing t \<longleftrightarrow> Running t \<and> \<not> Replay t"

text \<open>Reading a decimal numeral, the inverse of \<open>FormatNat\<close>.\<close>

definition digit_val :: "char \<Rightarrow> nat" where
  "digit_val c = of_char c - 48"

definition ParseNat :: "string \<Rightarrow> nat" where
  "ParseNat s = foldl (\<lambda>a c. 10 * a + digit_val c) 0 s"

text \<open>
  \<open>restorable t\<close>: the table has a game and options, the active player index of a timed
  table is an index of the game's players, and every entry of the action log is
  restorable. These are the tables whose record \<open>restoreTables\<close> restores without ending
  the process.
\<close>

definition restorable :: "Table \<Rightarrow> bool" where
  "restorable t =
     (case Table.Game t of
        None \<Rightarrow> False
      | Some g \<Rightarrow>
          (case Table.Options t of
             None \<Rightarrow> False
           | Some opts \<Rightarrow>
               (Timed opts \<longrightarrow>
                  0 \<le> ActivePlayerIndex g \<and> nat (ActivePlayerIndex g) < length (Game.Players g))
               \<and> list_all restorable_action (Actions g)))"

subsection \<open>A concrete table for the closed examples\<close>

text \<open>
  Table 7 is running with players A (user 1) and B (user 2) and one spectator S (user 5).
  Table 8 has not started.
\<close>

definition table7 :: game where
  "table7 = \<lparr>players = [\<lparr>p_userID = 1, present = True, hand = [0, 1, 2]\<rparr>,
                         \<lparr>p_userID = 2, present = True, hand = [3, 4, 5]\<rparr>],
             spectators = [5 \<mapsto> ''S''], num_spec = 1, running = True,
             stacks = [1, 0, 2, 0, 0], turn = 4, clue_tokens = 6\<rparr>"

definition table8 :: game where
  "table8 = \<lparr>players = [\<lparr>p_userID = 3, present = True, hand = []\<rparr>],
             spectators = Map.empty, num_spec = 0, running = False,
             stacks = [], turn = 0, clue_tokens = 8\<rparr>"

definition world0 :: world where
  "world0 = \<lparr>currentGames = [7 \<mapsto> table7, 8 \<mapsto> table8], notifications = [], log = []\<rparr>"

definition spectator_S :: socket where
  "spectator_S = \<lparr>userID = 5, username = ''S'', status = ''Spectating'',
                  atTable = \<lparr>id' = 7, spectating = True\<rparr>\<rparr>"

definition player_A :: socket where
  "player_A = \<lparr>userID = 1, username = ''A'', status = ''Playing'',
               atTable = \<lparr>id' = 7, spectating = False\<rparr>\<rparr>"

definition stale_spectator :: socket where
  "stale_spectator = \<lparr>userID = 6, username = ''T'', status = ''Spectating'',
                      atTable = \<lparr>id' = 7, spectating = True\<rparr>\<rparr>"

definition orphan :: socket where
  "orphan = \<lparr>userID = 9, username = ''O'', status = ''Playing'',
             atTable = \<lparr>id' = 99, spectating = False\<rparr>\<rparr>"

definition no_data :: data where
  "no_data = \<lparr>gameID = None\<rparr>"

subsection \<open>Concrete tables and directories for the closed examples\<close>

text \<open>
  Table 5 is a running timed game of two players with player 1 active, table 6 a running
  untimed game, table 9 has not started and table 10 is a replay. The action log of
  table 5 holds a draw action, a clue action and a turn action.
\<close>

definition draw0 :: ActionDraw where
  "draw0 = \<lparr>Who = 0, Rank = 1, Suit = 2, Order = 0\<rparr>"

definition clue1 :: action where
  "clue1 = Typed ActionClue [(''giver'', JNum 0), (''target'', JNum 1), (''list'', JArr [JNum 3])]"

definition turn1 :: action where
  "turn1 = Typed ActionTurn [(''num'', JNum 1), (''who'', JNum 1)]"

definition game5 :: Game where
  "game5 = \<lparr>Table = Some 5, Options = Some \<lparr>Timed = True, Variant = ''No Variant''\<rparr>,
             ExtraOptions = None,
             Players = [\<lparr>Hand = [0, 1], Time = 60000000000, Game = Some 5\<rparr>,
                        \<lparr>Hand = [2, 3], Time = 45000000000, Game = Some 5\<rparr>],
             Stacks = [1, 0, 0, 0, 0], Discard = [7], ClueTokens = 3, Turn = 1,
             ActivePlayerIndex = 1, PauseCount = 0,
             Actions = [Draw draw0, clue1, turn1]\<rparr>"

definition gtable5 :: Table where
  "gtable5 = \<lparr>ID = 5, Running = True, Replay = False,
               Players = [\<lparr>Name = ''A'', Present = True\<rparr>, \<lparr>Name = ''B'', Present = True\<rparr>],
               Options = Some \<lparr>Timed = True, Variant = ''No Variant''\<rparr>,
               ExtraOptions = None, Game = Some game5\<rparr>"

definition game6 :: Game where
  "game6 = \<lparr>Table = Some 6, Options = Some \<lparr>Timed = False, Variant = ''No Variant''\<rparr>,
             ExtraOptions = None,
             Players = [\<lparr>Hand = [0], Time = 0, Game = Some 6\<rparr>],
             Stacks = [0, 0, 0, 0, 0], Discard = [], ClueTokens = 8, Turn = 0,
             ActivePlayerIndex = 0, PauseCount = 0,
             Actions = [Draw draw0]\<rparr>"

definition gtable6 :: Table where
  "gtable6 = \<lparr>ID = 6, Running = True, Replay = False,
               Players = [\<lparr>Name = ''C'', Present = True\<rparr>],
               Options = Some \<lparr>Timed = False, Variant = ''No Variant''\<rparr>,
               ExtraOptions = None, Game = Some game6\<rparr>"

definition gtable9 :: Table where
  "gtable9 = \<lparr>ID = 9, Running = False, Replay = False,
               Players = [\<lparr>Name = ''D'', Present = True\<rparr>],
               Options = Some \<lparr>Timed = False, Variant = ''No Variant''\<rparr>,
               ExtraOptions = None, Game = None\<rparr>"

definition gtable10 :: Table where
  "gtable10 = gtable6\<lparr>ID := 10, Replay := True\<rparr>"

text \<open>
  The directory before a shutdown: only the housekeeping file, whose content is not a
  table record. No write and no removal is refused.
\<close>

definition disk0 :: "jvalue disk" where
  "disk0 = \<lparr>files = Some [(''.gitignore'', File (JStr ''*.json''))],
             write_fails = (\<lambda>name. False), remove_fails = (\<lambda>name. False)\<rparr>"

definition server0 :: "jvalue server" where
  "server0 = \<lparr>tables = Map.empty, disk = disk0, spawned = []\<rparr>"

text \<open>
  The directory after table 5 alone has been written, and the server that starts on it.
\<close>

definition disk5 :: "jvalue disk" where
  "disk5 = snd (serializeTables json_Marshal [gtable5] disk0)"

definition server5 :: "jvalue server" where
  "server5 = \<lparr>tables = Map.empty, disk = disk5, spawned = []\<rparr>"

definition game5_restored :: Game where
  "game5_restored =
     game5\<lparr>Game.Players := [\<lparr>Hand = [0, 1], Time = 60000000000, Game = Some 5\<rparr>,
                       \<lparr>Hand = [2, 3], Time = 65000000000, Game = Some 5\<rparr>],
            Actions := [Draw draw0,
                        Generic (JObj [(''type'', JStr ''clue''), (''giver'', JNum 0),
                                       (''target'', JNum 1), (''list'', JArr [JNum 3])]),
                        Generic (JObj [(''type'', JStr ''turn''), (''num'', JNum 1),
                                       (''who'', JNum 1)])]\<rparr>"

definition gtable5_restored :: Table where
  "gtable5_restored =
     gtable5\<lparr>Table.Players := [\<lparr>Name = ''A'', Present = False\<rparr>, \<lparr>Name = ''B'', Present = False\<rparr>],
              Table.Game := Some game5_restored\<rparr>"

definition server5_restored :: "jvalue server" where
  "server5_restored = \<lparr>tables = [5 \<mapsto> gtable5_restored], disk = disk0,
                         spawned = [CheckTimer 5 1 0 1, CheckIdle 5]\<rparr>"

text \<open>
  Table 11 is a running timed game whose only player has the largest remaining time an
  \<open>int64\<close> holds; the directory with its record, and the server that starts on it.
\<close>

definition game11 :: Game where
  "game11 = \<lparr>Table = Some 11, Options = Some \<lparr>Timed = True, Variant = ''No Variant''\<rparr>,
              ExtraOptions = None,
              Players = [\<lparr>Hand = [0], Time = 9223372036854775807, Game = Some 11\<rparr>],
              Stacks = [0, 0, 0, 0, 0], Discard = [], ClueTokens = 8, Turn = 0,
              ActivePlayerIndex = 0, PauseCount = 0, Actions = []\<rparr>"

definition gtable11 :: Table where
  "gtable11 = \<lparr>ID = 11, Running = True, Replay = False,
                Players = [\<lparr>Name = ''E'', Present = True\<rparr>],
                Options = Some \<lparr>Timed = True, Variant = ''No Variant''\<rparr>,
                ExtraOptions = None, Game = Some game11\<rparr>"

definition disk11 :: "jvalue disk" where
  "disk11 = disk0\<lparr>files := Some [(''11.json'', File (encodeTable gtable11))]\<rparr>"

definition server11 :: "jvalue server" where
  "server11 = \<lparr>tables = Map.empty, disk = disk11, spawned = []\<rparr>"

definition game11_restored :: Game where
  "game11_restored =
     game11\<lparr>Game.Players := [\<lparr>Hand = [0], Time = 9223372056854775807, Game = Some 11\<rparr>]\<rparr>"

definition gtable11_restored :: Table where
  "gtable11_restored =
     gtable11\<lparr>Table.Players := [\<lparr>Name = ''E'', Present = False\<rparr>],
               Table.Game := Some game11_restored\<rparr>"

definition server11_restored :: "jvalue server" where
  "server11_restored = \<lparr>tables = [11 \<mapsto> gtable11_restored], disk = disk0\<lparr>files := Some []\<rparr>,
                          spawned = [CheckTimer 11 0 0 0, CheckIdle 11]\<rparr>"

text \<open>
  The directory after a shutdown with tables 5, 9, 6 and 10 in the registry (visited in
  this order), the server that starts on it, and the state in which the start ends.
\<close>

definition registry0 :: "Table list" where
  "registry0 = [gtable5, gtable9, gtable6, gtable10]"

definition disk56 :: "jvalue disk" where
  "disk56 = snd (serializeTables json_Marshal registry0 disk0)"

definition server56 :: "jvalue server" where
  "server56 = \<lparr>tables = Map.empty, disk = disk56, spawned = []\<rparr>"

definition game6_restored :: Game where
  "game6_restored = game6"

definition gtable6_restored :: Table where
  "gtable6_restored = gtable6\<lparr>Table.Players := [\<lparr>Name = ''C'', Present = False\<rparr>]\<rparr>"

definition server56_restored :: "jvalue server" where
  "server56_restored =
     \<lparr>tables = [5 \<mapsto> gtable5_restored, 6 \<mapsto> gtable6_restored], disk = disk0,
      spawned = [CheckTimer 5 1 0 1, CheckIdle 5, CheckIdle 6]\<rparr>"

text \<open>
  Failures: an encoder that rejects table 6, a directory that refuses the write of
  \<open>6.json\<close>, a missing directory, a directory with an unreadable record, and a directory
  with a record that is not a table.
\<close>

definition Marshal_rejecting_6 :: "Table \<Rightarrow> error + jvalue" where
  "Marshal_rejecting_6 t = (if ID t = 6 then Inl ''json: unsupported value'' else json_Marshal t)"

definition disk_refusing_6 :: "jvalue disk" where
  "disk_refusing_6 = disk0\<lparr>write_fails := (\<lambda>name. name = ''6.json'')\<rparr>"

definition server_no_directory :: "jvalue server" where
  "server_no_directory = \<lparr>tables = Map.empty, disk = disk0\<lparr>files := None\<rparr>, spawned = []\<rparr>"

definition server_unreadable :: "jvalue server" where
  "server_unreadable =
     \<lparr>tables = Map.empty,
      disk = disk0\<lparr>files := Some [(''.gitignore'', File (JStr ''*.json'')),
                                  (''5.json'', File (encodeTable gtable5)),
                                  (''6.json'', Unreadable)]\<rparr>,
      spawned = []\<rparr>"

definition server_undecodable :: "jvalue server" where
  "server_undecodable =
     \<lparr>tables = Map.empty,
      disk = disk0\<lparr>files := Some [(''.gitignore'', File (JStr ''*.json'')),
                                  (''5.json'', File (encodeTable gtable5)),
                                  (''6.json'', File (JArr []))]\<rparr>,
      spawned = []\<rparr>"

subsection \<open>A note edit for the closed examples\<close>

text \<open>
  A player in an ongoing game edits the note of card 3, which reads \<open>old\<close>. The browser's
  parser is represented by a function that gives the text \<open>b1\<close> for the input
  \<open><b>b1</b>\<close> and returns any other input as it is.
\<close>

definition browser_textContent :: "string \<Rightarrow> string" where
  "browser_textContent input = (if input = ''<b>b1</b>'' then ''b1'' else input)"

definition globals0 :: globals where
  "globals0 = \<lparr>replay = False, spectating = False, editingNote = Some 3,
                ourNotes = [3 \<mapsto> ''old''], allNotes = Map.empty, lastNote = None,
                actionOccured = False, lobby_username = ''A'', sent = []\<rparr>"

text \<open>
  A directory whose housekeeping file holds the record of table 6, beside the record of
  table 5; the server that starts on it, and the state in which the start ends.
\<close>

definition server_housekeeping_record :: "jvalue server" where
  "server_housekeeping_record =
     \<lparr>tables = Map.empty,
      disk = disk0\<lparr>files := Some [(''.gitignore'', File (encodeTable gtable6)),
                                  (''5.json'', File (encodeTable gtable5))]\<rparr>,
      spawned = []\<rparr>"

definition server_housekeeping_record_restored :: "jvalue server" where
  "server_housekeeping_record_restored =
     \<lparr>tables = [5 \<mapsto> gtable5_restored],
      disk = disk0\<lparr>files := Some [(''.gitignore'', File (encodeTable gtable6))]\<rparr>,
      spawned = [CheckTimer 5 1 0 1, CheckIdle 5]\<rparr>"

section \<open>Properties of the return-to-lobby handler\<close>

lemmas example_defs =
  table7_def table8_def world0_def spectator_S_def player_A_def stale_spectator_def
  orphan_def no_data_def

lemma set_absent_length: "length (set_absent u ps) = length ps"
  by (induction ps) auto

lemma set_absent_hand: "map hand (set_absent u ps) = map hand ps"
  by (induction ps) auto

lemma set_absent_userID: "map p_userID (set_absent u ps) = map p_userID ps"
  by (induction ps) auto

lemma set_absent_present:
  "i < length ps \<Longrightarrow>
   present (set_absent u ps ! i) =
     (present (ps ! i) \<and> \<not> (p_userID (ps ! i) = u \<and> (\<forall>j<i. p_userID (ps ! j) \<noteq> u)))"
proof (induction ps arbitrary: i)
  case Nil
  then show ?case by simp
next
  case (Cons p ps)
  show ?case
  proof (cases i)
    case 0
    then show ?thesis by simp
  next
    case (Suc k)
    with Cons.prems have k: "k < length ps" by simp
    show ?thesis
    proof (cases "p_userID p = u")
      case True
      then show ?thesis using Suc by auto
    next
      case False
      have "(\<forall>j<Suc k. p_userID ((p # ps) ! j) \<noteq> u) = (\<forall>j<k. p_userID (ps ! j) \<noteq> u)"
        using False by (auto simp: less_Suc_eq_0_disj)
      then show ?thesis using Suc False Cons.IH [OF k] by simp
    qed
  qed
qed

text \<open>
  Claim C4. A session whose role is spectator, on an existing game that has it in the
  spectator mapping: the handler returns the state in which exactly the user's entry is
  deleted from \<open>spectators\<close> and \<open>num_spec\<close> is one less; every other field of the game
  (players, hands, stacks, turn, clue tokens, running) and every other game is as before.
  The notifications emitted are the user-status change, then the membership change, then
  the spectator-count change. Nothing is logged.
\<close>

theorem step1_spectator_leaves:
  assumes "currentGames w (id' (atTable s)) = Some g"
    and "spectating (atTable s)"
    and "spectators g (userID s) = Some v"
  shows "step1 s d w =
      (s\<lparr>status := ''Lobby''\<rparr>, d\<lparr>gameID := Some (id' (atTable s))\<rparr>,
       w\<lparr>currentGames := (currentGames w)(id' (atTable s) \<mapsto>
              g\<lparr>spectators := (spectators g)(userID s := None), num_spec := num_spec g - 1\<rparr>),
          notifications := notifications w @
            [allUserChange (s\<lparr>status := ''Lobby''\<rparr>),
             gameMemberChange (d\<lparr>gameID := Some (id' (atTable s))\<rparr>),
             gameNumSpec (d\<lparr>gameID := Some (id' (atTable s))\<rparr>)]\<rparr>)"
  using assms by (simp add: step1_def Let_def notify_def logger_def)

theorem step1_spectator_leaves_witness:
  "currentGames world0 (id' (atTable spectator_S)) = Some table7 \<and>
   spectating (atTable spectator_S) \<and>
   spectators table7 (userID spectator_S) = Some ''S'' \<and>
   step1 spectator_S no_data world0 =
     (spectator_S\<lparr>status := ''Lobby''\<rparr>, \<lparr>gameID = Some 7\<rparr>,
      \<lparr>currentGames = [7 \<mapsto> table7\<lparr>spectators := Map.empty, num_spec := 0\<rparr>, 8 \<mapsto> table8],
       notifications = [allUserChange (spectator_S\<lparr>status := ''Lobby''\<rparr>),
                        gameMemberChange \<lparr>gameID = Some 7\<rparr>, gameNumSpec \<lparr>gameID = Some 7\<rparr>],
       log = []\<rparr>)"
proof -
  have h1: "currentGames world0 (id' (atTable spectator_S)) = Some table7"
    by (simp add: example_defs)
  have h2: "spectating (atTable spectator_S)"
    by (simp add: example_defs)
  have h3: "spectators table7 (userID spectator_S) = Some ''S''"
    by (simp add: example_defs)
  show ?thesis
    using h1 h2 h3 step1_spectator_leaves [OF h1 h2 h3, of no_data]
    by (simp add: example_defs fun_upd_twist)
qed


text \<open>
  Claim C5, as stated, says that exactly one notification fires for a player. The handler
  emits three: on table 7 with player A the list of notifications is not a single one.
\<close>

theorem step1_player_one_notification_counterexample:
  "currentGames world0 (id' (atTable player_A)) = Some table7 \<and>
   \<not> spectating (atTable player_A) \<and>
   notifications world0 = [] \<and>
   notifications (snd (snd (step1 player_A no_data world0))) =
     [allUserChange (player_A\<lparr>status := ''Lobby''\<rparr>),
      gameConnected \<lparr>gameID = Some 7\<rparr>,
      playerTable (player_A\<lparr>status := ''Lobby''\<rparr>) \<lparr>gameID = Some 7\<rparr>] \<and>
   length (notifications (snd (snd (step1 player_A no_data world0)))) \<noteq> 1"
  by (simp add: example_defs step1_def Let_def notify_def logger_def)

text \<open>
  Claim C5, amended. A session whose role is player, on an existing game: the only field
  of the game that changes is \<open>players\<close>, where the first player with the session's user
  identifier gets \<open>present = False\<close> and every other player and every other field of a
  player (identifier, hand) is as before; stacks, turn, clue tokens, the spectator mapping
  and its count are unchanged. Three notifications are emitted, in this order: the
  user-status change, then the player-connection change if the game is running and the
  membership change otherwise, then the table message to the session itself.
\<close>

theorem step1_player_leaves:
  assumes "currentGames w (id' (atTable s)) = Some g"
    and "\<not> spectating (atTable s)"
  shows "step1 s d w =
      (s\<lparr>status := ''Lobby''\<rparr>, d\<lparr>gameID := Some (id' (atTable s))\<rparr>,
       w\<lparr>currentGames := (currentGames w)(id' (atTable s) \<mapsto>
              g\<lparr>players := set_absent (userID s) (players g)\<rparr>),
          notifications := notifications w @
            [allUserChange (s\<lparr>status := ''Lobby''\<rparr>),
             (if running g then gameConnected (d\<lparr>gameID := Some (id' (atTable s))\<rparr>)
              else gameMemberChange (d\<lparr>gameID := Some (id' (atTable s))\<rparr>)),
             playerTable (s\<lparr>status := ''Lobby''\<rparr>) (d\<lparr>gameID := Some (id' (atTable s))\<rparr>)]\<rparr>)
     \<and> length (set_absent (userID s) (players g)) = length (players g)
     \<and> map hand (set_absent (userID s) (players g)) = map hand (players g)
     \<and> map p_userID (set_absent (userID s) (players g)) = map p_userID (players g)
     \<and> (\<forall>i<length (players g).
           present (set_absent (userID s) (players g) ! i) =
             (present (players g ! i) \<and>
              \<not> (p_userID (players g ! i) = userID s \<and>
                 (\<forall>j<i. p_userID (players g ! j) \<noteq> userID s))))"
proof -
  have "step1 s d w =
      (s\<lparr>status := ''Lobby''\<rparr>, d\<lparr>gameID := Some (id' (atTable s))\<rparr>,
       w\<lparr>currentGames := (currentGames w)(id' (atTable s) \<mapsto>
              g\<lparr>players := set_absent (userID s) (players g)\<rparr>),
          notifications := notifications w @
            [allUserChange (s\<lparr>status := ''Lobby''\<rparr>),
             (if running g then gameConnected (d\<lparr>gameID := Some (id' (atTable s))\<rparr>)
              else gameMemberChange (d\<lparr>gameID := Some (id' (atTable s))\<rparr>)),
             playerTable (s\<lparr>status := ''Lobby''\<rparr>) (d\<lparr>gameID := Some (id' (atTable s))\<rparr>)]\<rparr>)"
    using assms by (simp add: step1_def Let_def notify_def logger_def)
  then show ?thesis
    by (simp add: set_absent_length set_absent_hand set_absent_userID set_absent_present)
qed

theorem step1_player_leaves_witness:
  "currentGames world0 (id' (atTable player_A)) = Some table7 \<and>
   \<not> spectating (atTable player_A) \<and>
   step1 player_A no_data world0 =
     (player_A\<lparr>status := ''Lobby''\<rparr>, \<lparr>gameID = Some 7\<rparr>,
      \<lparr>currentGames =
         [7 \<mapsto> table7\<lparr>players := [\<lparr>p_userID = 1, present = False, hand = [0, 1, 2]\<rparr>,
                                     \<lparr>p_userID = 2, present = True, hand = [3, 4, 5]\<rparr>]\<rparr>,
          8 \<mapsto> table8],
       notifications = [allUserChange (player_A\<lparr>status := ''Lobby''\<rparr>),
                        gameConnected \<lparr>gameID = Some 7\<rparr>,
                        playerTable (player_A\<lparr>status := ''Lobby''\<rparr>) \<lparr>gameID = Some 7\<rparr>],
       log = []\<rparr>)"
proof -
  have h1: "currentGames world0 (id' (atTable player_A)) = Some table7"
    by (simp add: example_defs)
  have h2: "\<not> spectating (atTable player_A)"
    by (simp add: example_defs)
  show ?thesis
    using h1 h2 step1_player_leaves [OF h1 h2, of no_data, THEN conjunct1]
    by (simp add: example_defs fun_upd_twist)
qed

text \<open>
  Claim C6. The session's role says spectator, the game exists, and the user identifier is
  not a key of the spectator mapping: the handler writes one error line and returns. The
  games are exactly as before (no spectator entry removed, \<open>num_spec\<close> not decremented, no
  game removed), and the only notification is the user-status change emitted before the
  check: no membership and no spectator-count notification.
\<close>

theorem step1_spectator_not_in_mapping:
  assumes "currentGames w (id' (atTable s)) = Some g"
    and "spectating (atTable s)"
    and "spectators g (userID s) = None"
  shows "step1 s d w =
      (s\<lparr>status := ''Lobby''\<rparr>, d\<lparr>gameID := Some (id' (atTable s))\<rparr>,
       w\<lparr>notifications := notifications w @ [allUserChange (s\<lparr>status := ''Lobby''\<rparr>)],
          log := log w @ [error_not_in_spectators (username s) (id' (atTable s))]\<rparr>)"
  using assms by (simp add: step1_def Let_def notify_def logger_def)

theorem step1_spectator_not_in_mapping_witness:
  "currentGames world0 (id' (atTable stale_spectator)) = Some table7 \<and>
   spectating (atTable stale_spectator) \<and>
   spectators table7 (userID stale_spectator) = None \<and>
   step1 stale_spectator no_data world0 =
     (stale_spectator\<lparr>status := ''Lobby''\<rparr>, \<lparr>gameID = Some 7\<rparr>,
      \<lparr>currentGames = [7 \<mapsto> table7, 8 \<mapsto> table8],
       notifications = [allUserChange (stale_spectator\<lparr>status := ''Lobby''\<rparr>)],
       log = [error_not_in_spectators ''T'' 7]\<rparr>)"
proof -
  have h1: "currentGames world0 (id' (atTable stale_spectator)) = Some table7"
    by (simp add: example_defs)
  have h2: "spectating (atTable stale_spectator)"
    by (simp add: example_defs)
  have h3: "spectators table7 (userID stale_spectator) = None"
    by (simp add: example_defs)
  show ?thesis
    using h1 h2 h3 step1_spectator_not_in_mapping [OF h1 h2 h3, of no_data]
    by (simp add: example_defs)
qed

text \<open>
  Claim C10. For every request the returned socket has status \<open>Lobby\<close> and the first
  notification emitted is the user-status change, whatever the table lookup gives. When
  the table does not exist, these are the only effects besides one information line in
  the log: the games are untouched.
\<close>

theorem step1_status_before_validation:
  "fst (step1 s d w) = s\<lparr>status := ''Lobby''\<rparr> \<and>
   take (Suc (length (notifications w))) (notifications (snd (snd (step1 s d w)))) =
     notifications w @ [allUserChange (s\<lparr>status := ''Lobby''\<rparr>)] \<and>
   (currentGames w (id' (atTable s)) = None \<longrightarrow>
      step1 s d w =
        (s\<lparr>status := ''Lobby''\<rparr>, d\<lparr>gameID := Some (id' (atTable s))\<rparr>,
         w\<lparr>notifications := notifications w @ [allUserChange (s\<lparr>status := ''Lobby''\<rparr>)],
            log := log w @ [info_table_does_not_exist]\<rparr>))"
  by (simp add: step1_def Let_def notify_def logger_def split: option.split)

theorem step1_status_before_validation_witness:
  "currentGames world0 (id' (atTable orphan)) = None \<and>
   step1 orphan no_data world0 =
     (orphan\<lparr>status := ''Lobby''\<rparr>, \<lparr>gameID = Some 99\<rparr>,
      \<lparr>currentGames = [7 \<mapsto> table7, 8 \<mapsto> table8],
       notifications = [allUserChange (orphan\<lparr>status := ''Lobby''\<rparr>)],
       log = [info_table_does_not_exist]\<rparr>)"
proof -
  have h: "currentGames world0 (id' (atTable orphan)) = None"
    by (simp add: example_defs)
  show ?thesis
    using h step1_status_before_validation [of orphan no_data world0]
    by (simp add: example_defs)
qed

section \<open>Properties of the persistence layer\<close>

subsection \<open>Decoding an encoded table\<close>

lemma sum_bind_Inr [simp]: "sum_bind (Inr v) f = f v"
  by (simp add: sum_bind_def)

lemma sum_bind_Inl [simp]: "sum_bind (Inl e) f = Inl e"
  by (simp add: sum_bind_def)

lemma traverse_map:
  "(\<And>x. x \<in> set xs \<Longrightarrow> dec (enc x) = Inr (h x)) \<Longrightarrow> traverse dec (map enc xs) = Inr (map h xs)"
  by (induction xs) auto

lemma traverse_decInt: "traverse decInt (map JNum ns) = Inr ns"
  using traverse_map [of ns decInt JNum id] by (simp add: decInt_def)

lemma traverse_Generic: "traverse (\<lambda>a. Inr (Generic a)) vs = Inr (map Generic vs)"
  by (induction vs) auto

lemma decodeGamePlayer_encode:
  "decodeGamePlayer (encodeGamePlayer gp) = Inr (gp\<lparr>GamePlayer.Game := None\<rparr>)"
proof -
  have "- (2 ^ 63) \<le> sint (Time gp)" "sint (Time gp) < 2 ^ 63"
    using sint_ge [of "Time gp"] sint_lt [of "Time gp"] by simp_all
  then show ?thesis
    by (simp add: decodeGamePlayer_def encodeGamePlayer_def getList_def getInt64_def
        traverse_decInt)
qed

lemma decodePlayer_encode: "decodePlayer (encodePlayer p) = Inr p"
  by (simp add: decodePlayer_def encodePlayer_def getString_def getBool_def)

lemma decodeOptions_encode: "decodeOptions (encodeOptions opts) = Inr opts"
  by (simp add: decodeOptions_def encodeOptions_def getString_def getBool_def)

lemma decodeGame_encode: "decodeGame (encodeGame g) = Inr (generic_Game g)"
proof -
  have players: "traverse decodeGamePlayer (map encodeGamePlayer (Game.Players g)) =
      Inr (map (\<lambda>gp. gp\<lparr>GamePlayer.Game := None\<rparr>) (Game.Players g))"
    by (rule traverse_map) (rule decodeGamePlayer_encode)
  have actions: "traverse (\<lambda>a. Inr (Generic a)) (map encodeAction (Actions g)) =
      Inr (map (\<lambda>a. Generic (encodeAction a)) (Actions g))"
    by (simp add: traverse_Generic)
  show ?thesis
    by (simp add: decodeGame_def encodeGame_def getList_def getInt_def decInt_def
        traverse_decInt players actions generic_Game_def)
qed

lemma encodeGame_not_null: "encodeGame g \<noteq> JNull" "encodeOptions opts \<noteq> JNull"
  by (simp_all add: encodeGame_def encodeOptions_def)

lemma getPointer_encode:
  assumes "\<And>x. dec (enc x) = Inr (h x)" "\<And>x. enc x \<noteq> JNull" "map_of m k = Some (encodePointer enc p)"
  shows "getPointer dec m k = Inr (map_option h p)"
proof (cases p)
  case None
  with assms(3) show ?thesis
    by (simp add: getPointer_def encodePointer_def)
next
  case (Some a)
  have "getPointer dec m k = sum_bind (dec (enc a)) (\<lambda>x. Inr (Some x))"
    using assms(2) [of a] assms(3) Some
    by (cases "enc a") (simp_all add: getPointer_def encodePointer_def)
  with assms(1) [of a] Some show ?thesis
    by simp
qed

lemma decodeTable_encode:
  "decodeTable (encodeTable t) = Inr (t\<lparr>Table.Game := map_option generic_Game (Table.Game t)\<rparr>)"
proof -
  have players: "traverse decodePlayer (map encodePlayer (Table.Players t)) = Inr (Table.Players t)"
    using traverse_map [of "Table.Players t" decodePlayer encodePlayer id]
    by (simp add: decodePlayer_encode)
  have "uint (ID t) < 2 ^ 64"
    by (rule order_less_le_trans [OF uint_lt2p]) simp
  then have id: "0 \<le> uint (ID t)" "uint (ID t) < 18446744073709551616"
    by simp_all
  let ?m = "[(''ID'', JNum (uint (ID t))),
           (''Running'', JBool (Running t)),
           (''Replay'', JBool (Replay t)),
           (''Players'', JArr (map encodePlayer (Table.Players t))),
           (''Options'', encodePointer encodeOptions (Table.Options t)),
           (''ExtraOptions'', encodePointer JObj (Table.ExtraOptions t)),
           (''Game'', encodePointer encodeGame (Table.Game t))]"
  have options: "getPointer decodeOptions ?m ''Options'' = Inr (Table.Options t)"
    using getPointer_encode [of decodeOptions encodeOptions id ?m "''Options''" "Table.Options t"]
    by (simp add: decodeOptions_encode encodeGame_not_null option.map_id0)
  have extra: "getPointer decodeExtraOptions ?m ''ExtraOptions'' = Inr (Table.ExtraOptions t)"
    using getPointer_encode [of decodeExtraOptions JObj id ?m "''ExtraOptions''" "Table.ExtraOptions t"]
    by (simp add: decodeExtraOptions_def option.map_id0)
  have game: "getPointer decodeGame ?m ''Game'' = Inr (map_option generic_Game (Table.Game t))"
    using getPointer_encode [of decodeGame encodeGame generic_Game ?m "''Game''" "Table.Game t"]
    by (simp add: decodeGame_encode encodeGame_not_null)
  show ?thesis
    unfolding decodeTable_def encodeTable_def
    by (simp only: jvalue.case options extra game sum_bind_Inr)
       (simp add: getUint64_def getBool_def getList_def players id)
qed

subsection \<open>Restoring the action log\<close>

lemma restoreActions_retyped:
  "restoreActions D tid i as = Inr as' \<Longrightarrow> list_all2 (retyped D) as as'"
proof (induction as arbitrary: i as')
  case Nil
  then show ?case by simp
next
  case (Cons a as)
  from Cons.prems obtain b bs where
    "as' = b # bs" "retyped D a b" "restoreActions D tid (Suc i) as = Inr bs"
    by (auto simp: retyped_def split: action.splits jvalue.splits if_splits sum.splits)
  with Cons.IH show ?case by simp
qed

lemma kind_name_not_draw: "kind_name k \<noteq> ''draw''"
  by (cases k) simp_all

lemma mapstructure_Decode_draw:
  "mapstructure_Decode [(''type'', JStr ''draw''), (''who'', JNum (Who d)), (''rank'', JNum (Rank d)),
           (''suit'', JNum (Suit d)), (''order'', JNum (Order d))] = Inr d"
  by (simp add: mapstructure_Decode_def getInt_def decInt_def)

lemma restoreActions_encoded_step:
  assumes "restorable_action a"
  shows "restoreActions mapstructure_Decode tid i (Generic (encodeAction a) # rest) =
     (case restoreActions mapstructure_Decode tid (Suc i) rest of
        Inl f \<Rightarrow> Inl f
      | Inr bs \<Rightarrow> Inr (as_restored a # bs))"
proof (cases a)
  case (Draw d)
  then show ?thesis by (simp add: mapstructure_Decode_draw split: sum.split)
next
  case (Typed k fs)
  then show ?thesis by (simp add: kind_name_not_draw split: sum.split)
next
  case (Generic v)
  with assms obtain m where m: "v = JObj m"
    by (cases v) simp_all
  show ?thesis
  proof (cases "map_of m ''type'' = Some (JStr ''draw'')")
    case True
    with assms Generic m obtain d where "mapstructure_Decode m = Inr d"
      by (cases "mapstructure_Decode m") simp_all
    with True Generic m show ?thesis by (simp split: sum.split)
  next
    case False
    with Generic m show ?thesis by (simp split: sum.split)
  qed
qed

lemma restoreActions_encoded_fails:
  assumes "\<not> restorable_action a"
  shows "isl (restoreActions mapstructure_Decode tid i (Generic (encodeAction a) # rest))"
proof (cases a)
  case (Draw d)
  with assms show ?thesis by simp
next
  case (Typed k fs)
  with assms show ?thesis by simp
next
  case (Generic v)
  show ?thesis
  proof (cases v)
    case (JObj m)
    with assms Generic have "map_of m ''type'' = Some (JStr ''draw'')"
      "isl (mapstructure_Decode m)"
      by simp_all
    with Generic JObj show ?thesis
      by (cases "mapstructure_Decode m") simp_all
  qed (simp_all add: Generic)
qed

lemma restoreActions_encoded:
  "list_all restorable_action as \<Longrightarrow>
   restoreActions mapstructure_Decode tid i (map (\<lambda>a. Generic (encodeAction a)) as) =
     Inr (map as_restored as)"
proof (induction as arbitrary: i)
  case Nil
  then show ?case by simp
next
  case (Cons a as)
  then have IH: "restoreActions mapstructure_Decode tid (Suc i)
      (map (\<lambda>a. Generic (encodeAction a)) as) = Inr (map as_restored as)"
    and a: "restorable_action a"
    by simp_all
  have "restoreActions mapstructure_Decode tid i
      (Generic (encodeAction a) # map (\<lambda>a. Generic (encodeAction a)) as) =
      Inr (as_restored a # map as_restored as)"
    by (simp only: restoreActions_encoded_step [OF a] IH sum.case)
  then show ?case by simp
qed

lemma restoreActions_encoded_Inr:
  "restoreActions mapstructure_Decode tid i (map (\<lambda>a. Generic (encodeAction a)) as) = Inr bs \<Longrightarrow>
   list_all restorable_action as"
proof (induction as arbitrary: i bs)
  case Nil
  then show ?case by simp
next
  case (Cons a as)
  from Cons.prems have run:
    "restoreActions mapstructure_Decode tid i
      (Generic (encodeAction a) # map (\<lambda>a. Generic (encodeAction a)) as) = Inr bs"
    by simp
  have a: "restorable_action a"
  proof (rule ccontr)
    assume "\<not> restorable_action a"
    from restoreActions_encoded_fails [OF this, of tid i
        "map (\<lambda>a. Generic (encodeAction a)) as"] run
    show False by simp
  qed
  from run obtain cs where
    "restoreActions mapstructure_Decode tid (Suc i) (map (\<lambda>a. Generic (encodeAction a)) as) = Inr cs"
    by (simp only: restoreActions_encoded_step [OF a] split: sum.splits)
  from Cons.IH [OF this] a show ?case by simp
qed

subsection \<open>One record, and the loop over the files\<close>

lemma restoreTable_Inr:
  assumes "restoreTable D t0 = Inr (t, tm)"
  obtains g0 as opts where
    "Table.Game t0 = Some g0"
    "restoreActions D (ID t0) 0 (Actions g0) = Inr as"
    "Table.Options t0 = Some opts"
    "Timed opts \<Longrightarrow> 0 \<le> ActivePlayerIndex g0 \<and> nat (ActivePlayerIndex g0) < length (Game.Players g0)"
    "Table.Players t = map (\<lambda>p. p\<lparr>Present := False\<rparr>) (Table.Players t0)"
    "ID t = ID t0" "Running t = Running t0" "Replay t = Replay t0"
    "Table.Game t = Some (g0\<lparr>Table := Some (ID t0),
        Game.Options := Table.Options t0,
        Game.ExtraOptions := Table.ExtraOptions t0,
        Game.Players :=
          (if Timed opts then
             (map (\<lambda>gp. gp\<lparr>GamePlayer.Game := Some (ID t0)\<rparr>) (Game.Players g0))
               [nat (ActivePlayerIndex g0) :=
                  (Game.Players g0 ! nat (ActivePlayerIndex g0))
                    \<lparr>GamePlayer.Game := Some (ID t0),
                     Time := Time (Game.Players g0 ! nat (ActivePlayerIndex g0)) + grace\<rparr>]
           else map (\<lambda>gp. gp\<lparr>GamePlayer.Game := Some (ID t0)\<rparr>) (Game.Players g0)),
        Actions := as\<rparr>)"
    "tm = (if Timed opts
           then [CheckTimer (ID t0) (Turn g0) (PauseCount g0) (nat (ActivePlayerIndex g0))]
           else [])"
proof -
  from assms obtain g0 where g0: "Table.Game t0 = Some g0"
    by (auto simp: restoreTable_def split: option.splits)
  from assms g0 obtain as where as: "restoreActions D (ID t0) 0 (Actions g0) = Inr as"
    by (auto simp: restoreTable_def Let_def split: sum.splits)
  from assms g0 as obtain opts where opts: "Table.Options t0 = Some opts"
    by (auto simp: restoreTable_def Let_def split: option.splits)
  show thesis
  proof (cases "Timed opts")
    case True
    with assms g0 as opts
    have range: "0 \<le> ActivePlayerIndex g0 \<and> nat (ActivePlayerIndex g0) < length (Game.Players g0)"
      by (auto simp: restoreTable_def Let_def split: if_splits)
    with assms g0 as opts True show thesis
      by (intro that [of g0 as opts]) (auto simp: restoreTable_def Let_def)
  next
    case False
    with assms g0 as opts show thesis
      by (intro that [of g0 as opts]) (auto simp: restoreTable_def Let_def)
  qed
qed

lemma restoreTable_ID: "restoreTable D t0 = Inr (t, tm) \<Longrightarrow> ID t = ID t0"
  by (erule restoreTable_Inr)

lemma ReadFile_Inr:
  "files d = Some es \<Longrightarrow> ReadFile n d = Inr b \<longleftrightarrow> map_of es n = Some (File b)"
  by (auto simp: ReadFile_def split: option.splits entry.splits)

lemma restoreFiles_Cons_Inr:
  assumes "restoreFiles U D (n # names) s = Inr s'"
    and "n \<noteq> ''.gitignore''"
    and "files (disk s) = Some es"
  obtains b t0 t tm where
    "map_of es n = Some (File b)" "U b = Inr t0" "restoreTable D t0 = Inr (t, tm)"
    "\<not> remove_fails (disk s) n"
    "restoreFiles U D names
       (s\<lparr>tables := (tables s)(ID t \<mapsto> t),
          disk := (disk s)\<lparr>files := Some (AList.delete n es)\<rparr>,
          spawned := spawned s @ tm @ [CheckIdle (ID t)]\<rparr>) = Inr s'"
proof -
  from assms obtain b where b: "ReadFile n (disk s) = Inr b"
    by (auto split: sum.splits)
  with assms(3) have e: "map_of es n = Some (File b)"
    by (simp add: ReadFile_Inr)
  from assms b obtain t0 where t0: "U b = Inr t0"
    by (auto split: sum.splits)
  from assms b t0 obtain t tm where t: "restoreTable D t0 = Inr (t, tm)"
    by (auto split: sum.splits)
  from assms b t0 t obtain d where d: "Remove n (disk s) = Inr d"
    by (auto split: sum.splits)
  with assms(3) have r: "\<not> remove_fails (disk s) n"
    and d': "d = (disk s)\<lparr>files := Some (AList.delete n es)\<rparr>"
    by (auto simp: Remove_def split: if_splits)
  from assms b t0 t d d' have
    "restoreFiles U D names
       (s\<lparr>tables := (tables s)(ID t \<mapsto> t),
          disk := (disk s)\<lparr>files := Some (AList.delete n es)\<rparr>,
          spawned := spawned s @ tm @ [CheckIdle (ID t)]\<rparr>) = Inr s'"
    by simp
  with e t0 t r show thesis by (rule that)
qed

lemma map_of_delete_Some:
  "map_of (AList.delete n es) n' = Some x \<Longrightarrow> n' \<noteq> n \<and> map_of es n' = Some x"
  by (auto simp: delete_conv' split: if_splits)

lemma restoreFiles_tables_other:
  assumes "restoreFiles U D names s = Inr s'"
    and "files (disk s) = Some es"
    and "\<And>n b t0. n \<in> set names \<Longrightarrow> n \<noteq> ''.gitignore'' \<Longrightarrow> map_of es n = Some (File b) \<Longrightarrow>
           U b = Inr t0 \<Longrightarrow> ID t0 \<noteq> k"
  shows "tables s' k = tables s k"
  using assms
proof (induction names arbitrary: s es)
  case Nil
  then show ?case by simp
next
  case (Cons n names)
  show ?case
  proof (cases "n = ''.gitignore''")
    case True
    with Cons.prems(1) have "restoreFiles U D names s = Inr s'" by simp
    then show ?thesis
      using Cons.prems(2)
    proof (rule Cons.IH)
      fix n' b t0
      assume "n' \<in> set names" "n' \<noteq> ''.gitignore''" "map_of es n' = Some (File b)" "U b = Inr t0"
      then show "ID t0 \<noteq> k" using Cons.prems(3) [of n' b t0] by simp
    qed
  next
    case False
    from Cons.prems(1) False Cons.prems(2) obtain b t0 t tm where
      e: "map_of es n = Some (File b)" and u: "U b = Inr t0"
      and r: "restoreTable D t0 = Inr (t, tm)"
      and rest: "restoreFiles U D names
         (s\<lparr>tables := (tables s)(ID t \<mapsto> t),
            disk := (disk s)\<lparr>files := Some (AList.delete n es)\<rparr>,
            spawned := spawned s @ tm @ [CheckIdle (ID t)]\<rparr>) = Inr s'"
      by (rule restoreFiles_Cons_Inr)
    have "ID t0 \<noteq> k" using Cons.prems(3) [of n b t0] False e u by simp
    with r have k: "ID t \<noteq> k" by (simp add: restoreTable_ID)
    have "tables s' k = tables (s\<lparr>tables := (tables s)(ID t \<mapsto> t),
            disk := (disk s)\<lparr>files := Some (AList.delete n es)\<rparr>,
            spawned := spawned s @ tm @ [CheckIdle (ID t)]\<rparr>) k"
    proof (rule Cons.IH [OF rest])
      show "files (disk (s\<lparr>tables := (tables s)(ID t \<mapsto> t),
            disk := (disk s)\<lparr>files := Some (AList.delete n es)\<rparr>,
            spawned := spawned s @ tm @ [CheckIdle (ID t)]\<rparr>)) = Some (AList.delete n es)"
        by simp
    next
      fix n' b' t1
      assume "n' \<in> set names" "n' \<noteq> ''.gitignore''"
        "map_of (AList.delete n es) n' = Some (File b')" "U b' = Inr t1"
      then show "ID t1 \<noteq> k"
        using Cons.prems(3) [of n' b' t1] by (auto dest: map_of_delete_Some)
    qed
    with k show ?thesis by simp
  qed
qed

lemma restoreFiles_table:
  assumes "restoreFiles U D names s = Inr s'"
    and "files (disk s) = Some es"
    and "distinct names"
    and "n \<in> set names" and "n \<noteq> ''.gitignore''"
    and "map_of es n = Some (File b)" and "U b = Inr t0"
    and "\<And>n' b' t1. n' \<in> set names \<Longrightarrow> n' \<noteq> n \<Longrightarrow> n' \<noteq> ''.gitignore'' \<Longrightarrow>
           map_of es n' = Some (File b') \<Longrightarrow> U b' = Inr t1 \<Longrightarrow> ID t1 \<noteq> ID t0"
  shows "\<exists>t tm. restoreTable D t0 = Inr (t, tm) \<and> tables s' (ID t0) = Some t"
  using assms
proof (induction names arbitrary: s es)
  case Nil
  then show ?case by simp
next
  case (Cons h names)
  show ?case
  proof (cases "h = ''.gitignore''")
    case True
    with Cons.prems have "restoreFiles U D names s = Inr s'" "n \<in> set names" "distinct names"
      by auto
    then show ?thesis
      using Cons.prems(2,5,6,7) Cons.prems(8)
      by (intro Cons.IH [of s es]) auto
  next
    case False
    from Cons.prems(1) False Cons.prems(2) obtain b1 t1 t tm where
      e: "map_of es h = Some (File b1)" and u: "U b1 = Inr t1"
      and r: "restoreTable D t1 = Inr (t, tm)"
      and rest: "restoreFiles U D names
         (s\<lparr>tables := (tables s)(ID t \<mapsto> t),
            disk := (disk s)\<lparr>files := Some (AList.delete h es)\<rparr>,
            spawned := spawned s @ tm @ [CheckIdle (ID t)]\<rparr>) = Inr s'"
      by (rule restoreFiles_Cons_Inr)
    let ?s1 = "s\<lparr>tables := (tables s)(ID t \<mapsto> t),
            disk := (disk s)\<lparr>files := Some (AList.delete h es)\<rparr>,
            spawned := spawned s @ tm @ [CheckIdle (ID t)]\<rparr>"
    have f1: "files (disk ?s1) = Some (AList.delete h es)" by simp
    show ?thesis
    proof (cases "h = n")
      case True
      with e u Cons.prems(6,7) have eq: "b1 = b" "t1 = t0" by simp_all
      from Cons.prems(3) True have notin: "n \<notin> set names" by simp
      have "tables s' (ID t0) = tables ?s1 (ID t0)"
      proof (rule restoreFiles_tables_other [OF rest f1])
        fix n' b' t2
        assume a: "n' \<in> set names" "n' \<noteq> ''.gitignore''"
          "map_of (AList.delete h es) n' = Some (File b')" "U b' = Inr t2"
        then have "n' \<noteq> n" using notin by auto
        with a show "ID t2 \<noteq> ID t0"
          using Cons.prems(8) [of n' b' t2] by (auto dest: map_of_delete_Some)
      qed
      with r eq show ?thesis by (simp add: restoreTable_ID)
    next
      case False
      with Cons.prems have n: "n \<in> set names" "distinct names" by auto
      have en: "map_of (AList.delete h es) n = Some (File b)"
        using False Cons.prems(6) by (simp add: delete_conv')
      show ?thesis
      proof (rule Cons.IH [OF rest f1 n(2) n(1) Cons.prems(5) en Cons.prems(7)])
        fix n' b' t2
        assume a: "n' \<in> set names" "n' \<noteq> n" "n' \<noteq> ''.gitignore''"
          "map_of (AList.delete h es) n' = Some (File b')" "U b' = Inr t2"
        then show "ID t2 \<noteq> ID t0"
          using Cons.prems(8) [of n' b' t2] by (auto dest: map_of_delete_Some)
      qed
    qed
  qed
qed

lemma restoreFiles_succeeds:
  assumes "files (disk s) = Some es"
    and "distinct names"
    and "\<And>n. n \<in> set names \<Longrightarrow> n \<noteq> ''.gitignore'' \<Longrightarrow>
           \<not> remove_fails (disk s) n \<and>
           (\<exists>b t0 t tm. map_of es n = Some (File b) \<and> U b = Inr t0 \<and>
                        restoreTable D t0 = Inr (t, tm))"
  shows "\<exists>s'. restoreFiles U D names s = Inr s'"
  using assms
proof (induction names arbitrary: s es)
  case Nil
  then show ?case by simp
next
  case (Cons h names)
  show ?case
  proof (cases "h = ''.gitignore''")
    case True
    have "\<exists>s'. restoreFiles U D names s = Inr s'"
      using Cons.prems by (intro Cons.IH [of s es]) auto
    with True show ?thesis by simp
  next
    case False
    from Cons.prems(3) [of h] False obtain b t0 t tm where
      h: "\<not> remove_fails (disk s) h" "map_of es h = Some (File b)" "U b = Inr t0"
        "restoreTable D t0 = Inr (t, tm)"
      by auto
    let ?s1 = "s\<lparr>tables := (tables s)(ID t \<mapsto> t),
            disk := (disk s)\<lparr>files := Some (AList.delete h es)\<rparr>,
            spawned := spawned s @ tm @ [CheckIdle (ID t)]\<rparr>"
    have step: "restoreFiles U D (h # names) s = restoreFiles U D names ?s1"
      using False h Cons.prems(1) by (simp add: ReadFile_def Remove_def)
    have "\<exists>s'. restoreFiles U D names ?s1 = Inr s'"
    proof (rule Cons.IH)
      show "files (disk ?s1) = Some (AList.delete h es)" by simp
      show "distinct names" using Cons.prems(2) by simp
      fix n assume n: "n \<in> set names" "n \<noteq> ''.gitignore''"
      with Cons.prems(2) have "n \<noteq> h" by auto
      then show "\<not> remove_fails (disk ?s1) n \<and>
           (\<exists>b t0 t tm. map_of (AList.delete h es) n = Some (File b) \<and> U b = Inr t0 \<and>
                        restoreTable D t0 = Inr (t, tm))"
        using Cons.prems(3) [of n] n by (simp add: delete_conv')
    qed
    with step show ?thesis by simp
  qed
qed

lemma restoreFiles_disk:
  assumes "restoreFiles U D names s = Inr s'"
    and "files (disk s) = Some es"
  shows "files (disk s') =
      Some (filter (\<lambda>e. fst e \<notin> set names \<or> fst e = ''.gitignore'') es)"
  using assms
proof (induction names arbitrary: s es)
  case Nil
  then show ?case by simp
next
  case (Cons h names)
  show ?case
  proof (cases "h = ''.gitignore''")
    case True
    with Cons.prems have "restoreFiles U D names s = Inr s'" by simp
    from Cons.IH [OF this Cons.prems(2)] True show ?thesis
      by (auto intro: filter_cong)
  next
    case False
    from Cons.prems(1) False Cons.prems(2) obtain b1 t1 t tm where
      rest: "restoreFiles U D names
         (s\<lparr>tables := (tables s)(ID t \<mapsto> t),
            disk := (disk s)\<lparr>files := Some (AList.delete h es)\<rparr>,
            spawned := spawned s @ tm @ [CheckIdle (ID t)]\<rparr>) = Inr s'"
      by (rule restoreFiles_Cons_Inr)
    have "files (disk s') =
      Some (filter (\<lambda>e. fst e \<notin> set names \<or> fst e = ''.gitignore'') (AList.delete h es))"
      by (rule Cons.IH [OF rest]) simp
    also have "filter (\<lambda>e. fst e \<notin> set names \<or> fst e = ''.gitignore'') (AList.delete h es) =
      filter (\<lambda>e. fst e \<notin> set (h # names) \<or> fst e = ''.gitignore'') es"
      using False by (auto simp: AList.delete_eq intro: filter_cong)
    finally show ?thesis .
  qed
qed

subsection \<open>File names\<close>

lemma of_char_digit: "of_char (digit n) = 48 + n mod 10"
proof -
  have "48 + n mod 10 < 256" by (rule less_trans [of _ 58]) simp_all
  then show ?thesis by (simp add: digit_def)
qed

lemma digit_val_digit: "digit_val (digit n) = n mod 10"
  by (simp add: digit_val_def of_char_digit)

lemma ParseNat_snoc: "ParseNat (s @ [c]) = 10 * ParseNat s + digit_val c"
  by (simp add: ParseNat_def)

lemma ParseNat_FormatNat: "ParseNat (FormatNat n) = n"
proof (induction n rule: FormatNat.induct)
  case (1 n)
  show ?case
  proof (cases "n < 10")
    case True
    then show ?thesis
      by (subst FormatNat.simps) (simp add: ParseNat_def digit_val_digit)
  next
    case False
    with "1.IH" have "ParseNat (FormatNat (n div 10)) = n div 10" by simp
    with False show ?thesis
      by (subst FormatNat.simps) (simp add: ParseNat_snoc digit_val_digit)
  qed
qed

lemma FormatUint_inj: "FormatUint v = FormatUint w \<Longrightarrow> v = w"
proof -
  assume "FormatUint v = FormatUint w"
  then have "ParseNat (FormatNat (unat v)) = ParseNat (FormatNat (unat w))"
    by (simp add: FormatUint_def)
  then have "unat v = unat w" by (simp add: ParseNat_FormatNat)
  then show "v = w" by (rule word_unat_eq_iff [THEN iffD2])
qed

lemma tableFilename_inj: "tableFilename t = tableFilename t' \<Longrightarrow> ID t = ID t'"
  by (simp add: tableFilename_def FormatUint_inj)

lemma FormatNat_digits: "c \<in> set (FormatNat n) \<Longrightarrow> c \<in> digit ` {..<10}"
proof (induction n rule: FormatNat.induct)
  case (1 n)
  show ?case
  proof (cases "n < 10")
    case True
    with "1.prems" show ?thesis by (subst (asm) FormatNat.simps) auto
  next
    case False
    with "1.prems" have "c \<in> set (FormatNat (n div 10)) \<or> c = digit (n mod 10)"
      by (subst (asm) FormatNat.simps) auto
    with False "1.IH" show ?thesis by auto
  qed
qed

lemma tableFilename_not_gitignore: "tableFilename t \<noteq> ''.gitignore''"
proof
  assume a: "tableFilename t = ''.gitignore''"
  have "FormatNat (unat (ID t)) \<noteq> []"
    by (subst FormatNat.simps) simp
  then obtain c cs where cs: "FormatNat (unat (ID t)) = c # cs"
    by (cases "FormatNat (unat (ID t))") auto
  with a have "c = CHR ''.''" by (simp add: tableFilename_def FormatUint_def)
  then have "of_char c = (46::nat)" by simp
  moreover have "c \<in> digit ` {..<10}" using FormatNat_digits [of c "unat (ID t)"] cs by simp
  then obtain k where "c = digit k" by auto
  then have "of_char c = 48 + k mod 10" by (simp add: of_char_digit)
  ultimately show False by simp
qed

subsection \<open>The loop over the tables\<close>

lemma serializeTables_append:
  "serializeTables M (xs @ ys) d =
     (if fst (serializeTables M xs d) then serializeTables M ys (snd (serializeTables M xs d))
      else serializeTables M xs d)"
  by (induction xs arbitrary: d) (auto split: sum.splits)

lemma serializeTables_flags:
  "write_fails (snd (serializeTables M ts d)) = write_fails d \<and>
   remove_fails (snd (serializeTables M ts d)) = remove_fails d"
  by (induction ts arbitrary: d) (auto simp: WriteFile_def split: sum.splits option.splits if_splits)

lemma WriteFile_Inr:
  "WriteFile n b d = Inr d' \<longleftrightarrow>
     (\<exists>es. files d = Some es \<and> \<not> write_fails d n \<and>
           d' = d\<lparr>files := Some (AList.update n (File b) es)\<rparr>)"
  by (auto simp: WriteFile_def split: option.splits)

lemma serializeTables_other:
  assumes "files d = Some es"
    and "\<And>t. t \<in> set ts \<Longrightarrow> ongoing t \<Longrightarrow> tableFilename t \<noteq> n"
  shows "\<exists>es'. files (snd (serializeTables M ts d)) = Some es' \<and> map_of es' n = map_of es n"
  using assms
proof (induction ts arbitrary: d es)
  case Nil
  then show ?case by simp
next
  case (Cons t ts)
  show ?case
  proof (cases "ongoing t")
    case False
    then have "serializeTables M (t # ts) d = serializeTables M ts d"
      by (auto simp: ongoing_def)
    with Cons show ?thesis by simp
  next
    case True
    then have run: "Running t" "\<not> Replay t" by (simp_all add: ongoing_def)
    show ?thesis
    proof (cases "M t")
      case (Inl e)
      with run Cons.prems show ?thesis by simp
    next
      case (Inr b)
      show ?thesis
      proof (cases "WriteFile (tableFilename t) b d")
        case (Inl e)
        with run Inr Cons.prems show ?thesis by simp
      next
        case inr: (Inr d')
        with Cons.prems(1) have d': "files d' = Some (AList.update (tableFilename t) (File b) es)"
          by (auto simp: WriteFile_Inr)
        have "tableFilename t \<noteq> n" using Cons.prems(2) [of t] True by simp
        then have same: "map_of (AList.update (tableFilename t) (File b) es) n = map_of es n"
          by (simp add: update_conv')
        have "\<exists>es'. files (snd (serializeTables M ts d')) = Some es' \<and>
            map_of es' n = map_of (AList.update (tableFilename t) (File b) es) n"
          using d' Cons.prems(2) by (intro Cons.IH) auto
        with same run Inr inr show ?thesis by simp
      qed
    qed
  qed
qed

lemma serializeTables_written:
  assumes "files d = Some es"
    and "fst (serializeTables M ts d)"
    and "distinct (map ID ts)"
    and "t \<in> set ts" and "ongoing t"
  shows "\<exists>es' b. files (snd (serializeTables M ts d)) = Some es' \<and> M t = Inr b \<and>
           map_of es' (tableFilename t) = Some (File b)"
  using assms
proof (induction ts arbitrary: d es)
  case Nil
  then show ?case by simp
next
  case (Cons h ts)
  show ?case
  proof (cases "ongoing h")
    case False
    then have eq: "serializeTables M (h # ts) d = serializeTables M ts d"
      by (auto simp: ongoing_def)
    from False Cons.prems have "t \<in> set ts" by auto
    with Cons.prems eq show ?thesis by (intro Cons.IH [of d es, unfolded eq [symmetric]]) auto
  next
    case True
    then have run: "Running h" "\<not> Replay h" by (simp_all add: ongoing_def)
    from Cons.prems(2) run obtain b where b: "M h = Inr b"
      by (cases "M h") auto
    from Cons.prems(2) run b obtain d' where w: "WriteFile (tableFilename h) b d = Inr d'"
      by (cases "WriteFile (tableFilename h) b d") auto
    with Cons.prems(1) have d': "files d' = Some (AList.update (tableFilename h) (File b) es)"
      by (auto simp: WriteFile_Inr)
    from run b w have eq: "serializeTables M (h # ts) d = serializeTables M ts d'" by simp
    show ?thesis
    proof (cases "t = h")
      case True
      have "\<exists>es'. files (snd (serializeTables M ts d')) = Some es' \<and>
          map_of es' (tableFilename h) = map_of (AList.update (tableFilename h) (File b) es) (tableFilename h)"
      proof (rule serializeTables_other [OF d'])
        fix t' assume "t' \<in> set ts" "ongoing t'"
        then have "ID t' \<in> ID ` set ts" by simp
        with Cons.prems(3) have "ID t' \<noteq> ID h" by auto
        then show "tableFilename t' \<noteq> tableFilename h" by (auto dest: tableFilename_inj)
      qed
      with True b eq show ?thesis by (auto simp: update_conv')
    next
      case False
      with Cons.prems have "t \<in> set ts" "distinct (map ID ts)" "fst (serializeTables M ts d')"
        using eq by auto
      with d' Cons.prems(5) have
        "\<exists>es' b. files (snd (serializeTables M ts d')) = Some es' \<and> M t = Inr b \<and>
           map_of es' (tableFilename t) = Some (File b)"
        by (intro Cons.IH [of d'])
      then show ?thesis by (simp only: eq)
    qed
  qed
qed

lemma restoreFiles_mono:
  assumes "restoreFiles U D names s = Inr s'"
    and "files (disk s) = Some es"
  shows "(tables s k \<noteq> None \<longrightarrow> tables s' k \<noteq> None) \<and> set (spawned s) \<subseteq> set (spawned s')"
  using assms
proof (induction names arbitrary: s es)
  case Nil
  then show ?case by simp
next
  case (Cons h names)
  show ?case
  proof (cases "h = ''.gitignore''")
    case True
    with Cons.prems have "restoreFiles U D names s = Inr s'" by simp
    from Cons.IH [OF this Cons.prems(2)] show ?thesis .
  next
    case False
    from Cons.prems(1) False Cons.prems(2) obtain b1 t1 t tm where
      rest: "restoreFiles U D names
         (s\<lparr>tables := (tables s)(ID t \<mapsto> t),
            disk := (disk s)\<lparr>files := Some (AList.delete h es)\<rparr>,
            spawned := spawned s @ tm @ [CheckIdle (ID t)]\<rparr>) = Inr s'"
      by (rule restoreFiles_Cons_Inr)
    have "files (disk (s\<lparr>tables := (tables s)(ID t \<mapsto> t),
            disk := (disk s)\<lparr>files := Some (AList.delete h es)\<rparr>,
            spawned := spawned s @ tm @ [CheckIdle (ID t)]\<rparr>)) = Some (AList.delete h es)"
      by simp
    from Cons.IH [OF rest this] show ?thesis by auto
  qed
qed

lemma restoreFiles_Inr_all:
  assumes "restoreFiles U D names s = Inr s'"
    and "files (disk s) = Some es"
    and "n \<in> set names" and "n \<noteq> ''.gitignore''"
  shows "\<exists>b t0 t tm. map_of es n = Some (File b) \<and> U b = Inr t0 \<and>
           restoreTable D t0 = Inr (t, tm) \<and> tables s' (ID t0) \<noteq> None \<and>
           set tm \<subseteq> set (spawned s') \<and> CheckIdle (ID t0) \<in> set (spawned s')"
  using assms
proof (induction names arbitrary: s es)
  case Nil
  then show ?case by simp
next
  case (Cons h names)
  show ?case
  proof (cases "h = ''.gitignore''")
    case True
    with Cons.prems have "restoreFiles U D names s = Inr s'" "n \<in> set names" by auto
    from Cons.IH [OF this(1) Cons.prems(2) this(2) Cons.prems(4)] show ?thesis .
  next
    case False
    from Cons.prems(1) False Cons.prems(2) obtain b1 t1 t tm where
      e: "map_of es h = Some (File b1)" and u: "U b1 = Inr t1"
      and r: "restoreTable D t1 = Inr (t, tm)"
      and rest: "restoreFiles U D names
         (s\<lparr>tables := (tables s)(ID t \<mapsto> t),
            disk := (disk s)\<lparr>files := Some (AList.delete h es)\<rparr>,
            spawned := spawned s @ tm @ [CheckIdle (ID t)]\<rparr>) = Inr s'"
      by (rule restoreFiles_Cons_Inr)
    let ?s1 = "s\<lparr>tables := (tables s)(ID t \<mapsto> t),
            disk := (disk s)\<lparr>files := Some (AList.delete h es)\<rparr>,
            spawned := spawned s @ tm @ [CheckIdle (ID t)]\<rparr>"
    have f1: "files (disk ?s1) = Some (AList.delete h es)" by simp
    show ?thesis
    proof (cases "n = h")
      case True
      have id: "ID t = ID t1" using r by (rule restoreTable_ID)
      have "tables ?s1 (ID t1) \<noteq> None" "set (spawned ?s1) \<subseteq> set (spawned s')"
        using restoreFiles_mono [OF rest f1, of "ID t1"] id by auto
      then have "tables s' (ID t1) \<noteq> None" "set tm \<subseteq> set (spawned s')"
        "CheckIdle (ID t1) \<in> set (spawned s')"
        using restoreFiles_mono [OF rest f1, of "ID t1"] id by auto
      with True e u r show ?thesis by blast
    next
      case False
      with Cons.prems have "n \<in> set names" by simp
      from Cons.IH [OF rest f1 this Cons.prems(4)] obtain b t0 t' tm' where
        "map_of (AList.delete h es) n = Some (File b)" "U b = Inr t0"
        "restoreTable D t0 = Inr (t', tm')" "tables s' (ID t0) \<noteq> None"
        "set tm' \<subseteq> set (spawned s')" "CheckIdle (ID t0) \<in> set (spawned s')"
        by blast
      then show ?thesis by (blast dest: map_of_delete_Some)
    qed
  qed
qed

lemma restoreFiles_spawned_from:
  assumes "restoreFiles U D names s = Inr s'"
    and "files (disk s) = Some es"
    and "task \<in> set (spawned s')"
  shows "task \<in> set (spawned s) \<or>
     (\<exists>n b t0 t tm. n \<in> set names \<and> n \<noteq> ''.gitignore'' \<and> map_of es n = Some (File b) \<and>
        U b = Inr t0 \<and> restoreTable D t0 = Inr (t, tm) \<and>
        (task \<in> set tm \<or> task = CheckIdle (ID t0)))"
  using assms
proof (induction names arbitrary: s es)
  case Nil
  then show ?case by simp
next
  case (Cons h names)
  show ?case
  proof (cases "h = ''.gitignore''")
    case True
    with Cons.prems have "restoreFiles U D names s = Inr s'" by simp
    from Cons.IH [OF this Cons.prems(2,3)] show ?thesis by auto
  next
    case False
    from Cons.prems(1) False Cons.prems(2) obtain b1 t1 t tm where
      e: "map_of es h = Some (File b1)" and u: "U b1 = Inr t1"
      and r: "restoreTable D t1 = Inr (t, tm)"
      and rest: "restoreFiles U D names
         (s\<lparr>tables := (tables s)(ID t \<mapsto> t),
            disk := (disk s)\<lparr>files := Some (AList.delete h es)\<rparr>,
            spawned := spawned s @ tm @ [CheckIdle (ID t)]\<rparr>) = Inr s'"
      by (rule restoreFiles_Cons_Inr)
    let ?s1 = "s\<lparr>tables := (tables s)(ID t \<mapsto> t),
            disk := (disk s)\<lparr>files := Some (AList.delete h es)\<rparr>,
            spawned := spawned s @ tm @ [CheckIdle (ID t)]\<rparr>"
    have f1: "files (disk ?s1) = Some (AList.delete h es)" by simp
    have id: "ID t = ID t1" using r by (rule restoreTable_ID)
    from Cons.IH [OF rest f1 Cons.prems(3)]
    consider "task \<in> set (spawned ?s1)"
      | n b t0 t' tm' where "n \<in> set names" "n \<noteq> ''.gitignore''"
        "map_of (AList.delete h es) n = Some (File b)" "U b = Inr t0"
        "restoreTable D t0 = Inr (t', tm')" "task \<in> set tm' \<or> task = CheckIdle (ID t0)"
      by blast
    then show ?thesis
    proof cases
      case 1
      then have "task \<in> set (spawned s) \<or> task \<in> set tm \<or> task = CheckIdle (ID t1)"
        using id by auto
      with False e u r show ?thesis by (metis list.set_intros(1))
    next
      case 2
      then have "map_of es n = Some (File b)" by (blast dest: map_of_delete_Some)
      with 2 show ?thesis by (metis list.set_intros(2))
    qed
  qed
qed

lemma serializeTables_succeeds:
  assumes "files d \<noteq> None"
    and "\<And>n. \<not> write_fails d n"
    and "\<And>t. t \<in> set ts \<Longrightarrow> ongoing t \<Longrightarrow> \<not> isl (M t)"
  shows "fst (serializeTables M ts d)"
  using assms
proof (induction ts arbitrary: d)
  case Nil
  then show ?case by simp
next
  case (Cons t ts)
  show ?case
  proof (cases "ongoing t")
    case False
    then have "serializeTables M (t # ts) d = serializeTables M ts d"
      by (auto simp: ongoing_def)
    with Cons show ?thesis by simp
  next
    case True
    then have run: "Running t" "\<not> Replay t" by (simp_all add: ongoing_def)
    from Cons.prems(3) [of t] True obtain b where b: "M t = Inr b"
      by (cases "M t") auto
    from Cons.prems(1) obtain es where es: "files d = Some es" by auto
    let ?d' = "d\<lparr>files := Some (AList.update (tableFilename t) (File b) es)\<rparr>"
    have w: "WriteFile (tableFilename t) b d = Inr ?d'"
      using es Cons.prems(2) by (simp add: WriteFile_def)
    have "fst (serializeTables M ts ?d')"
      using Cons.prems(2,3) by (intro Cons.IH) auto
    with run b w show ?thesis by simp
  qed
qed

lemma serializeTables_distinct:
  assumes "files d = Some es" and "distinct (map fst es)"
  shows "\<exists>es'. files (snd (serializeTables M ts d)) = Some es' \<and> distinct (map fst es')"
  using assms
proof (induction ts arbitrary: d es)
  case Nil
  then show ?case by simp
next
  case (Cons t ts)
  show ?case
  proof (cases "\<not> Running t \<or> Replay t")
    case True
    then have "serializeTables M (t # ts) d = serializeTables M ts d" by auto
    with Cons show ?thesis by simp
  next
    case False
    show ?thesis
    proof (cases "M t")
      case (Inl e)
      with False Cons.prems show ?thesis by simp
    next
      case (Inr b)
      show ?thesis
      proof (cases "WriteFile (tableFilename t) b d")
        case (Inl e)
        with False Inr Cons.prems show ?thesis by simp
      next
        case inr: (Inr d')
        with Cons.prems(1) have d': "files d' = Some (AList.update (tableFilename t) (File b) es)"
          by (auto simp: WriteFile_Inr)
        have "distinct (map fst (AList.update (tableFilename t) (File b) es))"
          using Cons.prems(2) by (rule distinct_update)
        from Cons.IH [OF d' this] False Inr inr show ?thesis by simp
      qed
    qed
  qed
qed

lemma restoreTables_table:
  assumes ok: "restoreTables U D s = Inr s'"
    and es: "files (disk s) = Some es"
    and dist: "distinct (map fst es)"
    and n: "(n, File b) \<in> set es" "n \<noteq> ''.gitignore''"
    and u: "U b = Inr t0"
    and uniq: "\<And>n' b' t1. (n', File b') \<in> set es \<Longrightarrow> n' \<noteq> n \<Longrightarrow> n' \<noteq> ''.gitignore'' \<Longrightarrow>
           U b' = Inr t1 \<Longrightarrow> ID t1 \<noteq> ID t0"
  shows "\<exists>t tm. restoreTable D t0 = Inr (t, tm) \<and> tables s' (ID t0) = Some t \<and>
           set tm \<subseteq> set (spawned s') \<and>
           (\<forall>a b c. CheckTimer (ID t0) a b c \<in> set (spawned s') \<longrightarrow>
              CheckTimer (ID t0) a b c \<in> set (spawned s) \<or> CheckTimer (ID t0) a b c \<in> set tm)"
proof -
  let ?names = "sort (map fst es)"
  from ok es have rf: "restoreFiles U D ?names s = Inr s'"
    by (simp add: restoreTables_def ReadDir_def)
  have dn: "distinct ?names" using dist by simp
  have nn: "n \<in> set ?names" using n(1) by force
  have e: "map_of es n = Some (File b)" using dist n(1) by simp
  have uniq': "ID t1 \<noteq> ID t0"
    if "n' \<in> set ?names" "n' \<noteq> n" "n' \<noteq> ''.gitignore''" "map_of es n' = Some (File b')"
      "U b' = Inr t1" for n' b' t1
    using that uniq [of n' b' t1] by (auto dest: map_of_SomeD)
  have "\<exists>t tm. restoreTable D t0 = Inr (t, tm) \<and> tables s' (ID t0) = Some t"
    using rf es dn nn n(2) e u
  proof (rule restoreFiles_table)
    fix n' b' t1
    assume "n' \<in> set ?names" "n' \<noteq> n" "n' \<noteq> ''.gitignore''"
      "map_of es n' = Some (File b')" "U b' = Inr t1"
    then show "ID t1 \<noteq> ID t0" by (rule uniq')
  qed
  then obtain t tm where t: "restoreTable D t0 = Inr (t, tm)" "tables s' (ID t0) = Some t"
    by blast
  from restoreFiles_Inr_all [OF rf es nn n(2)] e u t(1)
  have sub: "set tm \<subseteq> set (spawned s')" by auto
  have timers: "CheckTimer (ID t0) x y z \<in> set (spawned s) \<or> CheckTimer (ID t0) x y z \<in> set tm"
    if "CheckTimer (ID t0) x y z \<in> set (spawned s')" for x y z
  proof -
    from restoreFiles_spawned_from [OF rf es that]
    consider "CheckTimer (ID t0) x y z \<in> set (spawned s)"
      | n' b' t1 t' tm' where "n' \<in> set ?names" "n' \<noteq> ''.gitignore''"
        "map_of es n' = Some (File b')" "U b' = Inr t1" "restoreTable D t1 = Inr (t', tm')"
        "CheckTimer (ID t0) x y z \<in> set tm'"
      by blast
    then show ?thesis
    proof cases
      case 1
      then show ?thesis by simp
    next
      case 2
      from 2(5,6) have "ID t1 = ID t0"
        by (elim restoreTable_Inr) (auto split: if_splits)
      with uniq' [OF 2(1) _ 2(2,3,4)] have "n' = n" by auto
      with 2 e u t(1) show ?thesis by simp
    qed
  qed
  from t sub timers show ?thesis by blast
qed

subsection \<open>The grace allowance\<close>

lemma sint_grace: "sint grace = 20000000000"
  by (simp add: grace_def)

lemma sint_add_grace:
  assumes "sint (w :: 64 word) \<le> 9223372036854775807 - 20000000000"
  shows "sint (w + grace) = sint w + 20000000000"
proof -
  have lo: "- (2 ^ 63) \<le> sint w" using sint_ge [of w] by simp
  have "sint (w + grace) = signed_take_bit 63 (sint w + sint grace)"
    by (simp add: sint_word_ariths)
  also have "\<dots> = sint w + sint grace"
    using lo assms by (intro signed_take_bit_int_eq_self) (simp_all add: sint_grace)
  finally show ?thesis by (simp add: sint_grace)
qed

subsection \<open>A record that cannot be read or decoded\<close>

lemma restoreTables_bad_entry:
  assumes "files (disk s) = Some es" and "distinct (map fst es)"
    and "(n, e) \<in> set es" and "n \<noteq> ''.gitignore''"
    and "e = Unreadable \<or> (\<exists>b. e = File b \<and> isl (U b))"
  shows "isl (restoreTables U D s)"
proof (rule ccontr)
  assume "\<not> isl (restoreTables U D s)"
  then obtain s' where "restoreTables U D s = Inr s'"
    by (cases "restoreTables U D s") auto
  with assms(1) have rf: "restoreFiles U D (sort (map fst es)) s = Inr s'"
    by (simp add: restoreTables_def ReadDir_def)
  have "n \<in> set (sort (map fst es))" using assms(3) by force
  from restoreFiles_Inr_all [OF rf assms(1) this assms(4)]
  obtain b t0 where "map_of es n = Some (File b)" "U b = Inr t0" by blast
  moreover have "map_of es n = Some e" using assms(2,3) by simp
  ultimately show False using assms(5) by auto
qed

subsection \<open>What a completed start leaves\<close>

lemma restoreTables_disk:
  assumes "restoreTables U D s = Inr s'" and "files (disk s) = Some es"
  shows "files (disk s') = Some (filter (\<lambda>e. fst e = ''.gitignore'') es)"
proof -
  from assms have rf: "restoreFiles U D (sort (map fst es)) s = Inr s'"
    by (simp add: restoreTables_def ReadDir_def)
  have "filter (\<lambda>e. fst e \<notin> set (sort (map fst es)) \<or> fst e = ''.gitignore'') es =
      filter (\<lambda>e. fst e = ''.gitignore'') es"
    by (rule filter_cong) auto
  with restoreFiles_disk [OF rf assms(2)] show ?thesis by simp
qed

lemma restoreTables_scanned:
  assumes "restoreTables U D s = Inr s'" and "files (disk s) = Some es"
    and "distinct (map fst es)" and "(n, e) \<in> set es" and "n \<noteq> ''.gitignore''"
  shows "\<exists>b t0. e = File b \<and> U b = Inr t0 \<and> tables s' (ID t0) \<noteq> None \<and>
           CheckIdle (ID t0) \<in> set (spawned s')"
proof -
  from assms have rf: "restoreFiles U D (sort (map fst es)) s = Inr s'"
    by (simp add: restoreTables_def ReadDir_def)
  have "n \<in> set (sort (map fst es))" using assms(4) by force
  from restoreFiles_Inr_all [OF rf assms(2) this assms(5)]
  obtain b t0 where "map_of es n = Some (File b)" "U b = Inr t0" "tables s' (ID t0) \<noteq> None"
    "CheckIdle (ID t0) \<in> set (spawned s')"
    by blast
  moreover have "map_of es n = Some e" using assms(3,4) by simp
  ultimately show ?thesis by auto
qed

lemma restoreTables_tables_changed:
  assumes "restoreTables U D s = Inr s'" and "files (disk s) = Some fs"
    and "tables s' k \<noteq> tables s k"
  shows "\<exists>name b t0. (name, File b) \<in> set fs \<and> name \<noteq> ''.gitignore'' \<and>
           U b = Inr t0 \<and> ID t0 = k"
proof (rule ccontr)
  assume no: "\<not> (\<exists>name b t0. (name, File b) \<in> set fs \<and> name \<noteq> ''.gitignore'' \<and>
           U b = Inr t0 \<and> ID t0 = k)"
  from assms(1,2) have rf: "restoreFiles U D (sort (map fst fs)) s = Inr s'"
    by (simp add: restoreTables_def ReadDir_def)
  have "tables s' k = tables s k"
    using rf assms(2)
  proof (rule restoreFiles_tables_other)
    fix n b t0
    assume "n \<noteq> ''.gitignore''" "map_of fs n = Some (File b)" "U b = Inr t0"
    with no show "ID t0 \<noteq> k" by (auto dest: map_of_SomeD)
  qed
  with assms(3) show False by simp
qed

lemma restoreTables_spawned_from:
  assumes "restoreTables U D s = Inr s'" and "files (disk s) = Some fs"
    and "task \<in> set (spawned s')"
  shows "task \<in> set (spawned s) \<or>
     (\<exists>name b t0 t tm. (name, File b) \<in> set fs \<and> name \<noteq> ''.gitignore'' \<and>
        U b = Inr t0 \<and> restoreTable D t0 = Inr (t, tm) \<and>
        (task \<in> set tm \<or> task = CheckIdle (ID t0)))"
proof -
  from assms(1,2) have rf: "restoreFiles U D (sort (map fst fs)) s = Inr s'"
    by (simp add: restoreTables_def ReadDir_def)
  from restoreFiles_spawned_from [OF rf assms(2,3)] show ?thesis
    by (blast dest: map_of_SomeD)
qed

subsection \<open>The housekeeping file\<close>

lemma map_fst_delete: "map fst (AList.delete k al) = filter (\<lambda>n. n \<noteq> k) (map fst al)"
  by (induction al) auto

lemma restoreFiles_without_gitignore:
  assumes "files (disk s) = Some es"
  shows "restoreFiles U D (filter (\<lambda>n. n \<noteq> ''.gitignore'') names)
           (s\<lparr>disk := (disk s)\<lparr>files := Some (AList.delete ''.gitignore'' es)\<rparr>\<rparr>) =
         (case restoreFiles U D names s of
            Inl f \<Rightarrow> Inl f
          | Inr s' \<Rightarrow>
              Inr (s'\<lparr>disk := (disk s')\<lparr>files :=
                     map_option (AList.delete ''.gitignore'') (files (disk s'))\<rparr>\<rparr>))"
  using assms
proof (induction names arbitrary: s es)
  case Nil
  then show ?case by simp
next
  case (Cons h names)
  let ?gi = "''.gitignore''"
  let ?s0 = "s\<lparr>disk := (disk s)\<lparr>files := Some (AList.delete ?gi es)\<rparr>\<rparr>"
  show ?case
  proof (cases "h = ?gi")
    case True
    with Cons.IH [OF Cons.prems] show ?thesis by simp
  next
    case False
    have rd: "ReadFile h (disk ?s0) = ReadFile h (disk s)"
      using False Cons.prems by (simp add: ReadFile_def delete_conv')
    show ?thesis
    proof (cases "ReadFile h (disk s)")
      case (Inl e)
      with rd False show ?thesis by simp
    next
      case b: (Inr b)
      show ?thesis
      proof (cases "U b")
        case (Inl e)
        with rd b False show ?thesis by simp
      next
        case t0: (Inr t0)
        show ?thesis
        proof (cases "restoreTable D t0")
          case (Inl f)
          with rd b t0 False show ?thesis by simp
        next
          case (Inr p)
          obtain t tm where p: "p = (t, tm)" by (cases p)
          show ?thesis
          proof (cases "map_of es h = None \<or> remove_fails (disk s) h")
            case True
            then have "Remove h (disk s) = Inl ''remove failed''"
              "Remove h (disk ?s0) = Inl ''remove failed''"
              using False Cons.prems by (auto simp: Remove_def delete_conv')
            with rd b t0 Inr p False show ?thesis by simp
          next
            case ok: False
            let ?s1 = "s\<lparr>tables := (tables s)(ID t \<mapsto> t),
                disk := (disk s)\<lparr>files := Some (AList.delete h es)\<rparr>,
                spawned := spawned s @ tm @ [CheckIdle (ID t)]\<rparr>"
            have r1: "Remove h (disk s) = Inr ((disk s)\<lparr>files := Some (AList.delete h es)\<rparr>)"
              using ok Cons.prems by (simp add: Remove_def)
            have r0: "Remove h (disk ?s0) =
                Inr ((disk s)\<lparr>files := Some (AList.delete ?gi (AList.delete h es))\<rparr>)"
              using ok False Cons.prems
              by (simp add: Remove_def delete_conv' delete_twist [of h])
            have full: "restoreFiles U D (h # names) s = restoreFiles U D names ?s1"
              using False b t0 Inr p r1 by simp
            have without: "restoreFiles U D (filter (\<lambda>n. n \<noteq> ?gi) (h # names)) ?s0 =
                restoreFiles U D (filter (\<lambda>n. n \<noteq> ?gi) names)
                  (?s1\<lparr>disk := (disk ?s1)\<lparr>files := Some (AList.delete ?gi (AList.delete h es))\<rparr>\<rparr>)"
              using False rd b t0 Inr p r0 by (cases s) simp
            have "files (disk ?s1) = Some (AList.delete h es)" by simp
            from Cons.IH [OF this] full without show ?thesis by simp
          qed
        qed
      qed
    qed
  qed
qed

lemma restoreTables_without_gitignore:
  assumes "files (disk s) = Some es"
  shows "restoreTables U D (s\<lparr>disk := (disk s)\<lparr>files := Some (AList.delete ''.gitignore'' es)\<rparr>\<rparr>) =
         (case restoreTables U D s of
            Inl f \<Rightarrow> Inl f
          | Inr s' \<Rightarrow>
              Inr (s'\<lparr>disk := (disk s')\<lparr>files :=
                     map_option (AList.delete ''.gitignore'') (files (disk s'))\<rparr>\<rparr>))"
proof -
  have "sort (map fst (AList.delete ''.gitignore'' es)) =
      filter (\<lambda>n. n \<noteq> ''.gitignore'') (sort (map fst es))"
    by (simp add: map_fst_delete filter_sort)
  with assms restoreFiles_without_gitignore [OF assms, of U D "sort (map fst es)"]
  show ?thesis by (simp add: restoreTables_def ReadDir_def)
qed

subsection \<open>Writing and then restoring\<close>

lemma restoreTable_decoded:
  assumes "restorable t"
  shows "\<exists>t' tm g g'.
      restoreTable mapstructure_Decode (t\<lparr>Table.Game := map_option generic_Game (Table.Game t)\<rparr>)
        = Inr (t', tm) \<and>
      Table.Game t = Some g \<and> Table.Game t' = Some g' \<and>
      Stacks g' = Stacks g \<and> Discard g' = Discard g \<and> ClueTokens g' = ClueTokens g \<and>
      Actions g' = map as_restored (Actions g) \<and>
      (\<forall>p\<in>set (Table.Players t'). \<not> Present p)"
proof -
  from assms obtain g opts where g: "Table.Game t = Some g"
    and opts: "Table.Options t = Some opts"
    and range: "Timed opts \<longrightarrow>
        0 \<le> ActivePlayerIndex g \<and> nat (ActivePlayerIndex g) < length (Game.Players g)"
    and entries: "list_all restorable_action (Actions g)"
    by (auto simp: restorable_def split: option.splits)
  have acts: "restoreActions mapstructure_Decode (ID t) 0
      (map (\<lambda>a. Generic (encodeAction a)) (Actions g)) = Inr (map as_restored (Actions g))"
    using entries by (rule restoreActions_encoded)
  show ?thesis
  proof (cases "Timed opts")
    case True
    with range have "0 \<le> ActivePlayerIndex g" "nat (ActivePlayerIndex g) < length (Game.Players g)"
      by simp_all
    with g opts True acts show ?thesis
      by (simp add: restoreTable_def generic_Game_def Let_def)
  next
    case False
    with g opts acts show ?thesis
      by (simp add: restoreTable_def generic_Game_def Let_def)
  qed
qed

lemma restoreTable_decoded_Inr:
  assumes "restoreTable mapstructure_Decode
      (t\<lparr>Table.Game := map_option generic_Game (Table.Game t)\<rparr>) = Inr (t', tm)"
  shows "restorable t"
proof -
  let ?t0 = "t\<lparr>Table.Game := map_option generic_Game (Table.Game t)\<rparr>"
  from assms obtain g0 as opts where
    g0: "Table.Game ?t0 = Some g0"
    and as: "restoreActions mapstructure_Decode (ID ?t0) 0 (Actions g0) = Inr as"
    and opts: "Table.Options ?t0 = Some opts"
    and range: "Timed opts \<Longrightarrow>
        0 \<le> ActivePlayerIndex g0 \<and> nat (ActivePlayerIndex g0) < length (Game.Players g0)"
    by (rule restoreTable_Inr) (rule that)
  from g0 obtain g where g: "Table.Game t = Some g" "g0 = generic_Game g"
    by auto
  from as g(2) have "list_all restorable_action (Actions g)"
    by (auto simp: generic_Game_def dest: restoreActions_encoded_Inr)
  moreover from range g(2) have "Timed opts \<longrightarrow>
      0 \<le> ActivePlayerIndex g \<and> nat (ActivePlayerIndex g) < length (Game.Players g)"
    by (simp add: generic_Game_def)
  ultimately show ?thesis using g(1) opts by (simp add: restorable_def)
qed

lemma unmarshal_encoded:
  "json_Unmarshal (encodeTable t) =
     Inr (t\<lparr>Table.Game := map_option generic_Game (Table.Game t)\<rparr>)"
  by (simp add: json_Unmarshal_def decodeTable_encode)

subsection \<open>The concrete runs\<close>

lemmas go_example_defs = draw0_def clue1_def turn1_def game5_def gtable5_def game6_def gtable6_def
  gtable9_def gtable10_def disk0_def server0_def

lemma tableFilename_gtable5: "tableFilename gtable5 = ''5.json''"
  by code_simp

lemma disk5_files:
  "disk5 = disk0\<lparr>files := Some [(''.gitignore'', File (JStr ''*.json'')),
                                    (''5.json'', File (encodeTable gtable5))]\<rparr>"
proof -
  have "Running gtable5" "\<not> Replay gtable5" by (simp_all add: gtable5_def)
  then show ?thesis
    by (simp add: disk5_def disk0_def json_Marshal_def WriteFile_def tableFilename_gtable5)
qed

lemma sort_names5: "sort [''.gitignore'', ''5.json''] = [''.gitignore'', ''5.json'']"
  by code_simp

lemma restore5: "restoreTables json_Unmarshal mapstructure_Decode server5 = Inr server5_restored"
  apply (simp add: restoreTables_def ReadDir_def server5_def disk5_files disk0_def sort_names5)
  apply (simp add: ReadFile_def json_Unmarshal_def decodeTable_encode)
  apply (simp add: restoreTable_def gtable5_def game5_def generic_Game_def draw0_def clue1_def turn1_def
     mapstructure_Decode_def getInt_def decInt_def Let_def grace_def Remove_def
     server5_restored_def gtable5_restored_def game5_restored_def disk0_def)
  done

lemma restore11:
  "restoreTables json_Unmarshal mapstructure_Decode server11 = Inr server11_restored"
  apply (simp add: restoreTables_def ReadDir_def server11_def disk11_def disk0_def)
  apply (simp add: ReadFile_def json_Unmarshal_def decodeTable_encode)
  apply (simp add: restoreTable_def gtable11_def game11_def generic_Game_def
     Let_def grace_def Remove_def
     server11_restored_def gtable11_restored_def game11_restored_def disk11_def disk0_def)
  done

lemma tableFilename_gtable6: "tableFilename gtable6 = ''6.json''"
  by code_simp

lemma serialize56:
  "serializeTables json_Marshal registry0 disk0 =
     (True, disk0\<lparr>files := Some [(''.gitignore'', File (JStr ''*.json'')),
                                 (''5.json'', File (encodeTable gtable5)),
                                 (''6.json'', File (encodeTable gtable6))]\<rparr>)"
proof -
  have "Running gtable5" "\<not> Replay gtable5" "\<not> Running gtable9" "Running gtable6"
    "\<not> Replay gtable6" "Replay gtable10"
    by (simp_all add: gtable5_def gtable6_def gtable9_def gtable10_def)
  then show ?thesis
    by (simp add: registry0_def disk0_def json_Marshal_def WriteFile_def
        tableFilename_gtable5 tableFilename_gtable6)
qed

lemma sort_names56:
  "sort [''.gitignore'', ''5.json'', ''6.json''] = [''.gitignore'', ''5.json'', ''6.json'']"
  by code_simp

lemma disk56_files:
  "disk56 = disk0\<lparr>files := Some [(''.gitignore'', File (JStr ''*.json'')),
                                 (''5.json'', File (encodeTable gtable5)),
                                 (''6.json'', File (encodeTable gtable6))]\<rparr>"
  by (simp add: disk56_def serialize56)

lemma restoreFiles_step:
  assumes "n \<noteq> ''.gitignore''" and "files (disk s) = Some es"
    and "map_of es n = Some (File b)" and "U b = Inr t0"
    and "restoreTable D t0 = Inr (t, tm)" and "\<not> remove_fails (disk s) n"
  shows "restoreFiles U D (n # names) s =
     restoreFiles U D names
       (s\<lparr>tables := (tables s)(ID t \<mapsto> t),
          disk := (disk s)\<lparr>files := Some (AList.delete n es)\<rparr>,
          spawned := spawned s @ tm @ [CheckIdle (ID t)]\<rparr>)"
  using assms by (simp add: ReadFile_def Remove_def)

lemma unmarshal5:
  "json_Unmarshal (encodeTable gtable5) = Inr (gtable5\<lparr>Table.Game := Some (generic_Game game5)\<rparr>)"
  by (simp add: json_Unmarshal_def decodeTable_encode gtable5_def)

lemma unmarshal6:
  "json_Unmarshal (encodeTable gtable6) = Inr (gtable6\<lparr>Table.Game := Some (generic_Game game6)\<rparr>)"
  by (simp add: json_Unmarshal_def decodeTable_encode gtable6_def)

lemma restoreTable5:
  "restoreTable mapstructure_Decode (gtable5\<lparr>Table.Game := Some (generic_Game game5)\<rparr>) =
     Inr (gtable5_restored, [CheckTimer 5 1 0 1])"
  by (simp add: restoreTable_def gtable5_def game5_def generic_Game_def
     draw0_def clue1_def turn1_def mapstructure_Decode_def getInt_def decInt_def Let_def grace_def
     gtable5_restored_def game5_restored_def)

lemma restoreTable6:
  "restoreTable mapstructure_Decode (gtable6\<lparr>Table.Game := Some (generic_Game game6)\<rparr>) =
     Inr (gtable6_restored, [])"
  by (simp add: restoreTable_def gtable6_def game6_def generic_Game_def
     draw0_def mapstructure_Decode_def getInt_def decInt_def Let_def
     gtable6_restored_def)

lemma restore56:
  "restoreTables json_Unmarshal mapstructure_Decode server56 = Inr server56_restored"
proof -
  let ?es = "[(''.gitignore'', File (JStr ''*.json'')), (''5.json'', File (encodeTable gtable5)),
              (''6.json'', File (encodeTable gtable6))]"
  let ?s0 = "\<lparr>tables = Map.empty, disk = disk0\<lparr>files := Some ?es\<rparr>, spawned = []\<rparr>"
  let ?s1 = "\<lparr>tables = [5 \<mapsto> gtable5_restored],
      disk = disk0\<lparr>files := Some [(''.gitignore'', File (JStr ''*.json'')),
                                     (''6.json'', File (encodeTable gtable6))]\<rparr>,
      spawned = [CheckTimer 5 1 0 1, CheckIdle 5]\<rparr>"
  have id5: "ID gtable5_restored = 5" and id6: "ID gtable6_restored = 6"
    by (simp_all add: gtable5_restored_def gtable6_restored_def gtable5_def gtable6_def)
  have "restoreTables json_Unmarshal mapstructure_Decode server56 =
      restoreFiles json_Unmarshal mapstructure_Decode [''.gitignore'', ''5.json'', ''6.json''] ?s0"
    by (simp add: restoreTables_def ReadDir_def server56_def disk56_files sort_names56)
  also have "\<dots> = restoreFiles json_Unmarshal mapstructure_Decode [''5.json'', ''6.json''] ?s0"
    by simp
  also have "\<dots> = restoreFiles json_Unmarshal mapstructure_Decode [''6.json'']
      (?s0\<lparr>tables := (tables ?s0)(ID gtable5_restored \<mapsto> gtable5_restored),
           disk := (disk ?s0)\<lparr>files := Some (AList.delete ''5.json'' ?es)\<rparr>,
           spawned := spawned ?s0 @ [CheckTimer 5 1 0 1] @ [CheckIdle (ID gtable5_restored)]\<rparr>)"
  proof (rule restoreFiles_step)
    show "''5.json'' \<noteq> ''.gitignore''" by simp
    show "files (disk ?s0) = Some ?es" by simp
    show "map_of ?es ''5.json'' = Some (File (encodeTable gtable5))" by simp
    show "json_Unmarshal (encodeTable gtable5) =
        Inr (gtable5\<lparr>Table.Game := Some (generic_Game game5)\<rparr>)"
      by (rule unmarshal5)
    show "restoreTable mapstructure_Decode (gtable5\<lparr>Table.Game := Some (generic_Game game5)\<rparr>) =
        Inr (gtable5_restored, [CheckTimer 5 1 0 1])"
      by (rule restoreTable5)
    show "\<not> remove_fails (disk ?s0) ''5.json''" by (simp add: disk0_def)
  qed
  also have "\<dots> = restoreFiles json_Unmarshal mapstructure_Decode [''6.json''] ?s1"
    by (simp add: id5 disk0_def)
  also have "\<dots> = restoreFiles json_Unmarshal mapstructure_Decode []
      (?s1\<lparr>tables := (tables ?s1)(ID gtable6_restored \<mapsto> gtable6_restored),
           disk := (disk ?s1)\<lparr>files := Some (AList.delete ''6.json''
              [(''.gitignore'', File (JStr ''*.json'')), (''6.json'', File (encodeTable gtable6))])\<rparr>,
           spawned := spawned ?s1 @ [] @ [CheckIdle (ID gtable6_restored)]\<rparr>)"
  proof (rule restoreFiles_step)
    show "''6.json'' \<noteq> ''.gitignore''" by simp
    show "files (disk ?s1) = Some [(''.gitignore'', File (JStr ''*.json'')),
        (''6.json'', File (encodeTable gtable6))]"
      by simp
    show "map_of [(''.gitignore'', File (JStr ''*.json'')),
        (''6.json'', File (encodeTable gtable6))] ''6.json'' = Some (File (encodeTable gtable6))"
      by simp
    show "json_Unmarshal (encodeTable gtable6) =
        Inr (gtable6\<lparr>Table.Game := Some (generic_Game game6)\<rparr>)"
      by (rule unmarshal6)
    show "restoreTable mapstructure_Decode (gtable6\<lparr>Table.Game := Some (generic_Game game6)\<rparr>) =
        Inr (gtable6_restored, [])"
      by (rule restoreTable6)
    show "\<not> remove_fails (disk ?s1) ''6.json''" by (simp add: disk0_def)
  qed
  also have "\<dots> = restoreFiles json_Unmarshal mapstructure_Decode [] server56_restored"
    by (simp add: id6 disk0_def server56_restored_def)
  finally show ?thesis by simp
qed

lemma files56:
  "files (disk server56) = Some [(''.gitignore'', File (JStr ''*.json'')),
     (''5.json'', File (encodeTable gtable5)), (''6.json'', File (encodeTable gtable6))]"
  by (simp add: server56_def disk56_files disk0_def)

lemma others56:
  "\<forall>n' b' t1. (n', File b') \<in> set [(''.gitignore'', File (JStr ''*.json'')),
     (''5.json'', File (encodeTable gtable5)), (''6.json'', File (encodeTable gtable6))] \<and>
     n' \<noteq> ''5.json'' \<and> n' \<noteq> ''.gitignore'' \<and> json_Unmarshal b' = Inr t1 \<longrightarrow>
     ID t1 \<noteq> ID (gtable5\<lparr>Table.Game := Some (generic_Game game5)\<rparr>)"
  "\<forall>n' b' t1. (n', File b') \<in> set [(''.gitignore'', File (JStr ''*.json'')),
     (''5.json'', File (encodeTable gtable5)), (''6.json'', File (encodeTable gtable6))] \<and>
     n' \<noteq> ''6.json'' \<and> n' \<noteq> ''.gitignore'' \<and> json_Unmarshal b' = Inr t1 \<longrightarrow>
     ID t1 \<noteq> ID (gtable6\<lparr>Table.Game := Some (generic_Game game6)\<rparr>)"
proof -
  have ids: "ID gtable5 = 5" "ID gtable6 = 6" by (simp_all add: gtable5_def gtable6_def)
  show "\<forall>n' b' t1. (n', File b') \<in> set [(''.gitignore'', File (JStr ''*.json'')),
     (''5.json'', File (encodeTable gtable5)), (''6.json'', File (encodeTable gtable6))] \<and>
     n' \<noteq> ''5.json'' \<and> n' \<noteq> ''.gitignore'' \<and> json_Unmarshal b' = Inr t1 \<longrightarrow>
     ID t1 \<noteq> ID (gtable5\<lparr>Table.Game := Some (generic_Game game5)\<rparr>)"
    using ids by (auto simp: unmarshal6)
  show "\<forall>n' b' t1. (n', File b') \<in> set [(''.gitignore'', File (JStr ''*.json'')),
     (''5.json'', File (encodeTable gtable5)), (''6.json'', File (encodeTable gtable6))] \<and>
     n' \<noteq> ''6.json'' \<and> n' \<noteq> ''.gitignore'' \<and> json_Unmarshal b' = Inr t1 \<longrightarrow>
     ID t1 \<noteq> ID (gtable6\<lparr>Table.Game := Some (generic_Game game6)\<rparr>)"
    using ids by (auto simp: unmarshal5)
qed

lemma flags56:
  "Running gtable5" "\<not> Replay gtable5" "\<not> Running gtable9" "Running gtable6"
  "\<not> Replay gtable6" "Replay gtable10" "ID gtable5 = 5" "ID gtable6 = 6"
  by (simp_all add: gtable5_def gtable6_def gtable9_def gtable10_def)

lemma serialize_before_rejected:
  "serializeTables Marshal_rejecting_6 [gtable5, gtable9] disk0 =
     (True, disk0\<lparr>files := Some [(''.gitignore'', File (JStr ''*.json'')),
                                 (''5.json'', File (encodeTable gtable5))]\<rparr>)"
  using flags56
  by (simp add: Marshal_rejecting_6_def disk0_def json_Marshal_def WriteFile_def
      tableFilename_gtable5)

lemma serialize_before_refused:
  "serializeTables json_Marshal [gtable5, gtable9] disk_refusing_6 =
     (True, disk_refusing_6\<lparr>files := Some [(''.gitignore'', File (JStr ''*.json'')),
                                 (''5.json'', File (encodeTable gtable5))]\<rparr>)"
  using flags56
  by (simp add: disk_refusing_6_def disk0_def json_Marshal_def WriteFile_def
      tableFilename_gtable5)

lemma ongoing56: "{t \<in> set registry0. ongoing t} = {gtable5, gtable6}"
  using flags56 by (auto simp: registry0_def ongoing_def)

lemma restorable56_each:
  "restorable gtable5" "restorable gtable6" "\<not> ongoing gtable9" "\<not> ongoing gtable10"
  "restorable gtable5_restored"
proof -
  show "restorable gtable5"
    by (simp add: restorable_def gtable5_def game5_def clue1_def turn1_def)
  show "restorable gtable6"
    by (simp add: restorable_def gtable6_def game6_def)
  show "\<not> ongoing gtable9" "\<not> ongoing gtable10"
    using flags56 by (simp_all add: ongoing_def)
  show "restorable gtable5_restored"
    by (simp add: restorable_def gtable5_restored_def gtable5_def game5_restored_def game5_def)
qed

lemma restore_housekeeping_record:
  "restoreTables json_Unmarshal mapstructure_Decode server_housekeeping_record =
     Inr server_housekeeping_record_restored"
proof -
  let ?es = "[(''.gitignore'', File (encodeTable gtable6)), (''5.json'', File (encodeTable gtable5))]"
  let ?s0 = "server_housekeeping_record"
  have id5: "ID gtable5_restored = 5"
    by (simp add: gtable5_restored_def gtable5_def)
  have f: "files (disk ?s0) = Some ?es" by (simp add: server_housekeeping_record_def)
  have "restoreTables json_Unmarshal mapstructure_Decode ?s0 =
      restoreFiles json_Unmarshal mapstructure_Decode [''.gitignore'', ''5.json''] ?s0"
    by (simp add: restoreTables_def ReadDir_def f sort_names5)
  also have "\<dots> = restoreFiles json_Unmarshal mapstructure_Decode [''5.json''] ?s0"
    by simp
  also have "\<dots> = restoreFiles json_Unmarshal mapstructure_Decode []
      (?s0\<lparr>tables := (tables ?s0)(ID gtable5_restored \<mapsto> gtable5_restored),
           disk := (disk ?s0)\<lparr>files := Some (AList.delete ''5.json'' ?es)\<rparr>,
           spawned := spawned ?s0 @ [CheckTimer 5 1 0 1] @ [CheckIdle (ID gtable5_restored)]\<rparr>)"
  proof (rule restoreFiles_step)
    show "''5.json'' \<noteq> ''.gitignore''" by simp
    show "files (disk ?s0) = Some ?es" by (rule f)
    show "map_of ?es ''5.json'' = Some (File (encodeTable gtable5))" by simp
    show "json_Unmarshal (encodeTable gtable5) =
        Inr (gtable5\<lparr>Table.Game := Some (generic_Game game5)\<rparr>)"
      by (rule unmarshal5)
    show "restoreTable mapstructure_Decode (gtable5\<lparr>Table.Game := Some (generic_Game game5)\<rparr>) =
        Inr (gtable5_restored, [CheckTimer 5 1 0 1])"
      by (rule restoreTable5)
    show "\<not> remove_fails (disk ?s0) ''5.json''"
      by (simp add: server_housekeeping_record_def disk0_def)
  qed
  also have "\<dots> = Inr server_housekeeping_record_restored"
    by (simp add: id5 server_housekeeping_record_def server_housekeeping_record_restored_def
        disk0_def)
  finally show ?thesis .
qed

section \<open>The claims about the persistence layer\<close>

text \<open>
  Claim C2, as stated, says that every entry of the recovered action log has been re-typed
  into its action kind. The record of table 5 holds a draw, a clue and a turn action;
  after \<open>restoreTables\<close> has completed on it, the second entry of the log is still the
  generic string-keyed map of the clue, not a clue action.
\<close>

theorem restoreTables_clue_stays_generic_counterexample:
  "files (disk server5) = Some [(''.gitignore'', File (JStr ''*.json'')),
                               (''5.json'', File (encodeTable gtable5))] \<and>
   restoreTables json_Unmarshal mapstructure_Decode server5 = Inr server5_restored \<and>
   tables server5_restored 5 = Some gtable5_restored \<and>
   Table.Game gtable5_restored = Some game5_restored \<and>
   Actions game5 ! 1 = Typed ActionClue [(''giver'', JNum 0), (''target'', JNum 1),
                                         (''list'', JArr [JNum 3])] \<and>
   Actions game5_restored ! 1 =
     Generic (JObj [(''type'', JStr ''clue''), (''giver'', JNum 0), (''target'', JNum 1),
                    (''list'', JArr [JNum 3])])"
proof -
  have "files (disk server5) = Some [(''.gitignore'', File (JStr ''*.json'')),
                               (''5.json'', File (encodeTable gtable5))]"
    by (simp add: server5_def disk5_files disk0_def)
  moreover have "tables server5_restored 5 = Some gtable5_restored"
    by (simp add: server5_restored_def)
  moreover have "Table.Game gtable5_restored = Some game5_restored"
    by (simp add: gtable5_restored_def)
  moreover have "Actions game5 ! 1 = Typed ActionClue [(''giver'', JNum 0), (''target'', JNum 1),
                                         (''list'', JArr [JNum 3])]"
    by (simp add: game5_def clue1_def)
  moreover have "Actions game5_restored ! 1 =
     Generic (JObj [(''type'', JStr ''clue''), (''giver'', JNum 0), (''target'', JNum 1),
                    (''list'', JArr [JNum 3])])"
    by (simp add: game5_restored_def)
  ultimately show ?thesis using restore5 by simp
qed

text \<open>
  Claim C2, amended. When \<open>restoreTables\<close> completes, the table restored from a record
  (of a directory with distinct file names, no other record of which decodes to the same
  table identifier) is in the registry, and its action log is the decoded log entry by
  entry: every decoded entry is a string-keyed map; an entry whose \<open>type\<close> is \<open>draw\<close> has
  been replaced by the draw action that \<open>mapstructure.Decode\<close> makes of it, and every other
  entry is left as the generic map it was decoded to.
\<close>

theorem restoreTables_retypes_draw_only:
  assumes "restoreTables U D s = Inr s'"
    and "files (disk s) = Some es"
    and "distinct (map fst es)"
    and "(n, File b) \<in> set es" and "n \<noteq> ''.gitignore''"
    and "U b = Inr t0"
    and "\<forall>n' b' t1. (n', File b') \<in> set es \<and> n' \<noteq> n \<and> n' \<noteq> ''.gitignore'' \<and> U b' = Inr t1
           \<longrightarrow> ID t1 \<noteq> ID t0"
  shows "\<exists>t g0 g. tables s' (ID t0) = Some t \<and> Table.Game t0 = Some g0 \<and>
           Table.Game t = Some g \<and> list_all2 (retyped D) (Actions g0) (Actions g)"
proof -
  have "\<exists>t tm. restoreTable D t0 = Inr (t, tm) \<and> tables s' (ID t0) = Some t \<and>
           set tm \<subseteq> set (spawned s') \<and>
           (\<forall>a b c. CheckTimer (ID t0) a b c \<in> set (spawned s') \<longrightarrow>
              CheckTimer (ID t0) a b c \<in> set (spawned s) \<or> CheckTimer (ID t0) a b c \<in> set tm)"
    using assms(1-6)
  proof (rule restoreTables_table)
    fix n' b' t1
    assume "(n', File b') \<in> set es" "n' \<noteq> n" "n' \<noteq> ''.gitignore''" "U b' = Inr t1"
    with assms(7) show "ID t1 \<noteq> ID t0" by blast
  qed
  then obtain t tm where t: "restoreTable D t0 = Inr (t, tm)" "tables s' (ID t0) = Some t"
    by blast
  from t(1) obtain g0 as where
    "Table.Game t0 = Some g0" "restoreActions D (ID t0) 0 (Actions g0) = Inr as"
    "\<exists>g. Table.Game t = Some g \<and> Actions g = as"
    by (rule restoreTable_Inr) simp
  with t(2) show ?thesis
    by (auto dest: restoreActions_retyped)
qed

theorem restoreTables_retypes_draw_only_witness:
  "restoreTables json_Unmarshal mapstructure_Decode server5 = Inr server5_restored \<and>
   files (disk server5) = Some [(''.gitignore'', File (JStr ''*.json'')),
                               (''5.json'', File (encodeTable gtable5))] \<and>
   distinct (map fst [(''.gitignore'', File (JStr ''*.json'')),
                      (''5.json'', File (encodeTable gtable5))]) \<and>
   json_Unmarshal (encodeTable gtable5) =
     Inr (gtable5\<lparr>Table.Game := Some (generic_Game game5)\<rparr>) \<and>
   tables server5_restored 5 = Some gtable5_restored \<and>
   list_all2 (retyped mapstructure_Decode) (Actions (generic_Game game5))
     (Actions game5_restored)"
proof -
  let ?es = "[(''.gitignore'', File (JStr ''*.json'')), (''5.json'', File (encodeTable gtable5))]"
  let ?t0 = "gtable5\<lparr>Table.Game := Some (generic_Game game5)\<rparr>"
  have h1: "restoreTables json_Unmarshal mapstructure_Decode server5 = Inr server5_restored"
    by (rule restore5)
  have h2: "files (disk server5) = Some ?es"
    by (simp add: server5_def disk5_files disk0_def)
  have h3: "distinct (map fst ?es)" by simp
  have h4: "(''5.json'', File (encodeTable gtable5)) \<in> set ?es" by simp
  have h5: "''5.json'' \<noteq> ''.gitignore''" by simp
  have h6: "json_Unmarshal (encodeTable gtable5) = Inr ?t0"
    by (simp add: json_Unmarshal_def decodeTable_encode gtable5_def)
  have h7: "\<forall>n' b' t1. (n', File b') \<in> set ?es \<and> n' \<noteq> ''5.json'' \<and> n' \<noteq> ''.gitignore'' \<and>
      json_Unmarshal b' = Inr t1 \<longrightarrow> ID t1 \<noteq> ID ?t0"
    by auto
  have r: "tables server5_restored 5 = Some gtable5_restored"
    by (simp add: server5_restored_def)
  have id: "ID ?t0 = 5" by (simp add: gtable5_def)
  from restoreTables_retypes_draw_only [OF h1 h2 h3 h4 h5 h6 h7]
  have "list_all2 (retyped mapstructure_Decode) (Actions (generic_Game game5))
     (Actions game5_restored)"
    by (simp add: id r gtable5_restored_def)
  with h1 h2 h3 h6 r show ?thesis by simp
qed

text \<open>
  Claim C7, as stated, says that the restored time of the active player of a timed table
  is strictly greater than the time before the shutdown. The time is an \<open>int64\<close> of
  nanoseconds and the addition wraps around: the record of table 11 holds the largest
  \<open>int64\<close>, and the restored time is negative.
\<close>

theorem restoreTables_grace_wraps_counterexample:
  "files (disk server11) = Some [(''11.json'', File (encodeTable gtable11))] \<and>
   Table.Options gtable11 = Some \<lparr>Timed = True, Variant = ''No Variant''\<rparr> \<and>
   restoreTables json_Unmarshal mapstructure_Decode server11 = Inr server11_restored \<and>
   tables server11_restored 11 = Some gtable11_restored \<and>
   Table.Game gtable11_restored = Some game11_restored \<and>
   ActivePlayerIndex game11 = 0 \<and>
   sint (Time (Game.Players game11 ! 0)) = 9223372036854775807 \<and>
   sint (Time (Game.Players game11_restored ! 0)) = - 9223372016854775809 \<and>
   \<not> sint (Time (Game.Players game11 ! 0)) < sint (Time (Game.Players game11_restored ! 0))"
proof -
  have "files (disk server11) = Some [(''11.json'', File (encodeTable gtable11))]"
    by (simp add: server11_def disk11_def)
  moreover have "Table.Options gtable11 = Some \<lparr>Timed = True, Variant = ''No Variant''\<rparr>"
    by (simp add: gtable11_def)
  moreover have "tables server11_restored 11 = Some gtable11_restored"
    by (simp add: server11_restored_def)
  moreover have "Table.Game gtable11_restored = Some game11_restored"
    by (simp add: gtable11_restored_def)
  moreover have "ActivePlayerIndex game11 = 0"
    by (simp add: game11_def)
  moreover have "sint (Time (Game.Players game11 ! 0)) = 9223372036854775807"
    by (simp add: game11_def)
  moreover have "sint (Time (Game.Players game11_restored ! 0)) = - 9223372016854775809"
    by (simp add: game11_restored_def)
  ultimately show ?thesis using restore11 by simp
qed

text \<open>
  Claim C7, amended. When \<open>restoreTables\<close> completes, the table restored from a record
  (of a directory with distinct file names, no other record of which decodes to the same
  table identifier) is in the registry. If its options say timed, the active player index
  is an index of the players, the time of the active player is the decoded time plus
  20 seconds in 64-bit arithmetic, which is exactly 20 seconds more (so strictly greater)
  whenever the decoded time is at most the largest \<open>int64\<close> minus 20 seconds, the times of
  the other players are as decoded, and a turn-timer watcher for the table's turn, pause
  count and active player has been started. If its options say untimed, every time is as
  decoded and the run has started no turn-timer watcher for the table.
\<close>

theorem restoreTables_timed_grace:
  assumes "restoreTables U D s = Inr s'"
    and "files (disk s) = Some es"
    and "distinct (map fst es)"
    and "(n, File b) \<in> set es" and "n \<noteq> ''.gitignore''"
    and "U b = Inr t0"
    and "\<forall>n' b' t1. (n', File b') \<in> set es \<and> n' \<noteq> n \<and> n' \<noteq> ''.gitignore'' \<and> U b' = Inr t1
           \<longrightarrow> ID t1 \<noteq> ID t0"
  shows "\<exists>t g0 g opts.
      tables s' (ID t0) = Some t \<and> Table.Game t0 = Some g0 \<and> Table.Game t = Some g \<and>
      Table.Options t0 = Some opts \<and> length (Game.Players g) = length (Game.Players g0) \<and>
      (Timed opts \<longrightarrow>
         0 \<le> ActivePlayerIndex g0 \<and> nat (ActivePlayerIndex g0) < length (Game.Players g0) \<and>
         Time (Game.Players g ! nat (ActivePlayerIndex g0)) =
           Time (Game.Players g0 ! nat (ActivePlayerIndex g0)) + grace \<and>
         (sint (Time (Game.Players g0 ! nat (ActivePlayerIndex g0)))
             \<le> 9223372036854775807 - 20000000000 \<longrightarrow>
          sint (Time (Game.Players g ! nat (ActivePlayerIndex g0))) =
            sint (Time (Game.Players g0 ! nat (ActivePlayerIndex g0))) + 20000000000) \<and>
         (\<forall>j<length (Game.Players g0). j \<noteq> nat (ActivePlayerIndex g0) \<longrightarrow>
            Time (Game.Players g ! j) = Time (Game.Players g0 ! j)) \<and>
         CheckTimer (ID t0) (Turn g0) (PauseCount g0) (nat (ActivePlayerIndex g0))
           \<in> set (spawned s')) \<and>
      (\<not> Timed opts \<longrightarrow>
         map Time (Game.Players g) = map Time (Game.Players g0) \<and>
         (\<forall>x y z. CheckTimer (ID t0) x y z \<in> set (spawned s') \<longrightarrow>
                  CheckTimer (ID t0) x y z \<in> set (spawned s)))"
proof -
  have "\<exists>t tm. restoreTable D t0 = Inr (t, tm) \<and> tables s' (ID t0) = Some t \<and>
           set tm \<subseteq> set (spawned s') \<and>
           (\<forall>a b c. CheckTimer (ID t0) a b c \<in> set (spawned s') \<longrightarrow>
              CheckTimer (ID t0) a b c \<in> set (spawned s) \<or> CheckTimer (ID t0) a b c \<in> set tm)"
    using assms(1-6)
  proof (rule restoreTables_table)
    fix n' b' t1
    assume "(n', File b') \<in> set es" "n' \<noteq> n" "n' \<noteq> ''.gitignore''" "U b' = Inr t1"
    with assms(7) show "ID t1 \<noteq> ID t0" by blast
  qed
  then obtain t tm where t: "restoreTable D t0 = Inr (t, tm)" "tables s' (ID t0) = Some t"
    and sub: "set tm \<subseteq> set (spawned s')"
    and timers: "\<And>a b c. CheckTimer (ID t0) a b c \<in> set (spawned s') \<Longrightarrow>
              CheckTimer (ID t0) a b c \<in> set (spawned s) \<or> CheckTimer (ID t0) a b c \<in> set tm"
    by blast
  let ?link = "\<lambda>gp. gp\<lparr>GamePlayer.Game := Some (ID t0)\<rparr>"
  from t(1) obtain g0 as opts where
    g0: "Table.Game t0 = Some g0" and opts: "Table.Options t0 = Some opts"
    and range: "Timed opts \<Longrightarrow>
        0 \<le> ActivePlayerIndex g0 \<and> nat (ActivePlayerIndex g0) < length (Game.Players g0)"
    and g: "Table.Game t = Some (g0\<lparr>Table := Some (ID t0),
        Game.Options := Table.Options t0,
        Game.ExtraOptions := Table.ExtraOptions t0,
        Game.Players :=
          (if Timed opts then
             (map ?link (Game.Players g0))
               [nat (ActivePlayerIndex g0) :=
                  (Game.Players g0 ! nat (ActivePlayerIndex g0))
                    \<lparr>GamePlayer.Game := Some (ID t0),
                     Time := Time (Game.Players g0 ! nat (ActivePlayerIndex g0)) + grace\<rparr>]
           else map ?link (Game.Players g0)),
        Actions := as\<rparr>)"
    and tm: "tm = (if Timed opts
           then [CheckTimer (ID t0) (Turn g0) (PauseCount g0) (nat (ActivePlayerIndex g0))]
           else [])"
    by (rule restoreTable_Inr) (rule that)
  show ?thesis
  proof (cases "Timed opts")
    case True
    let ?i = "nat (ActivePlayerIndex g0)"
    let ?ps = "(map ?link (Game.Players g0))
               [?i := (Game.Players g0 ! ?i)
                    \<lparr>GamePlayer.Game := Some (ID t0),
                     Time := Time (Game.Players g0 ! ?i) + grace\<rparr>]"
    from range True have r: "0 \<le> ActivePlayerIndex g0" "?i < length (Game.Players g0)"
      by simp_all
    have len: "length ?ps = length (Game.Players g0)" by simp
    have ti: "Time (?ps ! ?i) = Time (Game.Players g0 ! ?i) + grace"
      using r(2) by simp
    have tj: "Time (?ps ! j) = Time (Game.Players g0 ! j)"
      if "j < length (Game.Players g0)" "j \<noteq> ?i" for j
      using that by simp
    have spawn: "CheckTimer (ID t0) (Turn g0) (PauseCount g0) ?i \<in> set (spawned s')"
      using sub tm True by simp
    have si: "sint (Time (?ps ! ?i)) = sint (Time (Game.Players g0 ! ?i)) + 20000000000"
      if "sint (Time (Game.Players g0 ! ?i)) \<le> 9223372036854775807 - 20000000000"
      using that ti by (simp only: sint_add_grace)
    from t(2) g0 g opts True r len ti tj spawn si show ?thesis
      by (intro exI [of _ t] exI [of _ g0] exI [of _ opts]
          exI [of _ "g0\<lparr>Table := Some (ID t0),
        Game.Options := Table.Options t0,
        Game.ExtraOptions := Table.ExtraOptions t0,
        Game.Players := ?ps, Actions := as\<rparr>"]) simp
  next
    case False
    have times: "map Time (map ?link (Game.Players g0)) = map Time (Game.Players g0)"
      by (simp add: comp_def)
    have none: "CheckTimer (ID t0) x y z \<in> set (spawned s)"
      if "CheckTimer (ID t0) x y z \<in> set (spawned s')" for x y z
      using timers [OF that] tm False by simp
    from t(2) g0 g opts False times none show ?thesis
      by (intro exI [of _ t] exI [of _ g0] exI [of _ opts]
          exI [of _ "g0\<lparr>Table := Some (ID t0),
        Game.Options := Table.Options t0,
        Game.ExtraOptions := Table.ExtraOptions t0,
        Game.Players := map ?link (Game.Players g0), Actions := as\<rparr>"]) simp
  qed
qed

theorem restoreTables_timed_grace_witness:
  "restoreTables json_Unmarshal mapstructure_Decode server56 = Inr server56_restored \<and>
   files (disk server56) = Some [(''.gitignore'', File (JStr ''*.json'')),
     (''5.json'', File (encodeTable gtable5)), (''6.json'', File (encodeTable gtable6))] \<and>
   json_Unmarshal (encodeTable gtable5) =
     Inr (gtable5\<lparr>Table.Game := Some (generic_Game game5)\<rparr>) \<and>
   json_Unmarshal (encodeTable gtable6) =
     Inr (gtable6\<lparr>Table.Game := Some (generic_Game game6)\<rparr>) \<and>
   tables server56_restored 5 = Some gtable5_restored \<and>
   tables server56_restored 6 = Some gtable6_restored \<and>
   Table.Options gtable5 = Some \<lparr>Timed = True, Variant = ''No Variant''\<rparr> \<and>
   Table.Options gtable6 = Some \<lparr>Timed = False, Variant = ''No Variant''\<rparr> \<and>
   ActivePlayerIndex game5 = 1 \<and>
   sint (Time (Game.Players game5 ! 1)) = 45000000000 \<and>
   sint (Time (Game.Players game5_restored ! 1)) = 45000000000 + 20000000000 \<and>
   CheckTimer 5 (Turn game5) (PauseCount game5) 1 \<in> set (spawned server56_restored) \<and>
   map Time (Game.Players game6_restored) = map Time (Game.Players game6) \<and>
   (\<forall>x y z. CheckTimer 6 x y z \<notin> set (spawned server56_restored))"
proof -
  let ?es = "[(''.gitignore'', File (JStr ''*.json'')),
     (''5.json'', File (encodeTable gtable5)), (''6.json'', File (encodeTable gtable6))]"
  let ?t5 = "gtable5\<lparr>Table.Game := Some (generic_Game game5)\<rparr>"
  let ?t6 = "gtable6\<lparr>Table.Game := Some (generic_Game game6)\<rparr>"
  have d: "distinct (map fst ?es)" by simp
  have in5: "(''5.json'', File (encodeTable gtable5)) \<in> set ?es"
    and in6: "(''6.json'', File (encodeTable gtable6)) \<in> set ?es"
    by simp_all
  have n5: "''5.json'' \<noteq> ''.gitignore''" and n6: "''6.json'' \<noteq> ''.gitignore''"
    by simp_all
  have r5: "tables server56_restored 5 = Some gtable5_restored"
    and r6: "tables server56_restored 6 = Some gtable6_restored"
    by (simp_all add: server56_restored_def)
  have o5: "Table.Options gtable5 = Some \<lparr>Timed = True, Variant = ''No Variant''\<rparr>"
    and o6: "Table.Options gtable6 = Some \<lparr>Timed = False, Variant = ''No Variant''\<rparr>"
    by (simp_all add: gtable5_def gtable6_def)
  have facts5: "ID ?t5 = 5" "Table.Game ?t5 = Some (generic_Game game5)"
    "Table.Game gtable5_restored = Some game5_restored" "Table.Options ?t5 = Table.Options gtable5"
    "ActivePlayerIndex (generic_Game game5) = 1" "Turn (generic_Game game5) = Turn game5"
    "PauseCount (generic_Game game5) = PauseCount game5"
    "Time (Game.Players (generic_Game game5) ! 1) = Time (Game.Players game5 ! 1)"
    "sint (Time (Game.Players game5 ! 1)) = 45000000000" "ActivePlayerIndex game5 = 1"
    "Time (Game.Players (generic_Game game5) ! Suc 0) = Time (Game.Players game5 ! Suc 0)"
    "sint (Time (Game.Players game5 ! Suc 0)) = 45000000000"
    by (simp_all add: gtable5_def gtable5_restored_def generic_Game_def game5_def)
  have facts6: "ID ?t6 = 6" "Table.Game ?t6 = Some (generic_Game game6)"
    "Table.Game gtable6_restored = Some game6" "Table.Options ?t6 = Table.Options gtable6"
    "map Time (Game.Players (generic_Game game6)) = map Time (Game.Players game6)"
    "spawned server56 = []"
    by (simp_all add: gtable6_def gtable6_restored_def generic_Game_def game6_def server56_def)
  from restoreTables_timed_grace [OF restore56 files56 d in5 n5 unmarshal5 others56(1)]
  obtain t g0 g opts where
    a: "tables server56_restored (ID ?t5) = Some t" "Table.Game ?t5 = Some g0"
      "Table.Game t = Some g" "Table.Options ?t5 = Some opts"
    and b: "Timed opts \<longrightarrow>
       (sint (Time (Game.Players g0 ! nat (ActivePlayerIndex g0)))
             \<le> 9223372036854775807 - 20000000000 \<longrightarrow>
          sint (Time (Game.Players g ! nat (ActivePlayerIndex g0))) =
            sint (Time (Game.Players g0 ! nat (ActivePlayerIndex g0))) + 20000000000) \<and>
       CheckTimer (ID ?t5) (Turn g0) (PauseCount g0) (nat (ActivePlayerIndex g0))
           \<in> set (spawned server56_restored)"
    by blast
  from a have eq: "t = gtable5_restored" "g0 = generic_Game game5" "g = game5_restored"
    "Timed opts"
    by (auto simp: facts5 r5 o5)
  from b eq(4) have w5: "sint (Time (Game.Players game5_restored ! 1)) = 45000000000 + 20000000000 \<and>
     CheckTimer 5 (Turn game5) (PauseCount game5) 1 \<in> set (spawned server56_restored)"
    unfolding eq(2,3) by (simp add: facts5)
  from restoreTables_timed_grace [OF restore56 files56 d in6 n6 unmarshal6 others56(2)]
  have w6: "map Time (Game.Players game6_restored) = map Time (Game.Players game6) \<and>
     (\<forall>x y z. CheckTimer 6 x y z \<notin> set (spawned server56_restored))"
    by (simp add: facts6 r6 o6 game6_restored_def)
  from restore56 files56 unmarshal5 unmarshal6 r5 r6 o5 o6 facts5(9,10) w5 w6
  show ?thesis by simp
qed

text \<open>
  Claim C3. (1) If the tables visited before \<open>t\<close> were all written, \<open>t\<close> is running and not
  a replay, and marshalling \<open>t\<close> or writing its record fails, then \<open>serializeTables\<close>
  returns false and the directory is as it was after the tables before \<open>t\<close>: nothing is
  written for \<open>t\<close> or for any table after it. (2) If the tables directory cannot be read,
  \<open>restoreTables\<close> ends the process. (3) If any entry of the directory other than
  \<open>.gitignore\<close> cannot be read or does not decode, \<open>restoreTables\<close> ends the process: it does
  not return a state.
\<close>

theorem persistence_failures:
  "(fst (serializeTables M ts1 d) \<and> ongoing t \<and>
      (isl (M t) \<or>
       (\<exists>b. M t = Inr b \<and> isl (WriteFile (tableFilename t) b (snd (serializeTables M ts1 d)))))
    \<longrightarrow> serializeTables M (ts1 @ t # ts2) d = (False, snd (serializeTables M ts1 d))) \<and>
   (files (disk s) = None \<longrightarrow> restoreTables U D s = Inl Failed_to_get_the_files) \<and>
   (files (disk s) = Some es \<and> distinct (map fst es) \<and> (n, e) \<in> set es \<and>
      n \<noteq> ''.gitignore'' \<and> (e = Unreadable \<or> (\<exists>b. e = File b \<and> isl (U b)))
    \<longrightarrow> isl (restoreTables U D s))"
proof (intro conjI impI)
  assume a: "fst (serializeTables M ts1 d) \<and> ongoing t \<and>
      (isl (M t) \<or>
       (\<exists>b. M t = Inr b \<and> isl (WriteFile (tableFilename t) b (snd (serializeTables M ts1 d)))))"
  then have run: "Running t" "\<not> Replay t" by (simp_all add: ongoing_def)
  let ?d1 = "snd (serializeTables M ts1 d)"
  from a run have "serializeTables M (t # ts2) ?d1 = (False, ?d1)"
    by (auto simp: isl_def)
  with a show "serializeTables M (ts1 @ t # ts2) d = (False, ?d1)"
    by (simp add: serializeTables_append)
next
  assume "files (disk s) = None"
  then show "restoreTables U D s = Inl Failed_to_get_the_files"
    by (simp add: restoreTables_def ReadDir_def)
next
  assume "files (disk s) = Some es \<and> distinct (map fst es) \<and> (n, e) \<in> set es \<and>
      n \<noteq> ''.gitignore'' \<and> (e = Unreadable \<or> (\<exists>b. e = File b \<and> isl (U b)))"
  then show "isl (restoreTables U D s)"
    by (intro restoreTables_bad_entry [of s es n e]) simp_all
qed

theorem persistence_failures_witness:
  "ongoing gtable6 \<and>
   serializeTables Marshal_rejecting_6 [gtable5, gtable9] disk0 =
     (True, disk0\<lparr>files := Some [(''.gitignore'', File (JStr ''*.json'')),
                                 (''5.json'', File (encodeTable gtable5))]\<rparr>) \<and>
   isl (Marshal_rejecting_6 gtable6) \<and>
   serializeTables Marshal_rejecting_6 ([gtable5, gtable9] @ gtable6 # [gtable10]) disk0 =
     (False, disk0\<lparr>files := Some [(''.gitignore'', File (JStr ''*.json'')),
                                  (''5.json'', File (encodeTable gtable5))]\<rparr>) \<and>
   serializeTables json_Marshal [gtable5, gtable9] disk_refusing_6 =
     (True, disk_refusing_6\<lparr>files := Some [(''.gitignore'', File (JStr ''*.json'')),
                                 (''5.json'', File (encodeTable gtable5))]\<rparr>) \<and>
   json_Marshal gtable6 = Inr (encodeTable gtable6) \<and>
   isl (WriteFile (tableFilename gtable6) (encodeTable gtable6)
          (disk_refusing_6\<lparr>files := Some [(''.gitignore'', File (JStr ''*.json'')),
                                 (''5.json'', File (encodeTable gtable5))]\<rparr>)) \<and>
   serializeTables json_Marshal ([gtable5, gtable9] @ gtable6 # [gtable10]) disk_refusing_6 =
     (False, disk_refusing_6\<lparr>files := Some [(''.gitignore'', File (JStr ''*.json'')),
                                 (''5.json'', File (encodeTable gtable5))]\<rparr>) \<and>
   files (disk server_no_directory) = None \<and>
   restoreTables json_Unmarshal mapstructure_Decode server_no_directory =
     Inl Failed_to_get_the_files \<and>
   files (disk server_unreadable) = Some [(''.gitignore'', File (JStr ''*.json'')),
                                  (''5.json'', File (encodeTable gtable5)),
                                  (''6.json'', Unreadable)] \<and>
   isl (restoreTables json_Unmarshal mapstructure_Decode server_unreadable) \<and>
   files (disk server_undecodable) = Some [(''.gitignore'', File (JStr ''*.json'')),
                                  (''5.json'', File (encodeTable gtable5)),
                                  (''6.json'', File (JArr []))] \<and>
   isl (json_Unmarshal (JArr [])) \<and>
   isl (restoreTables json_Unmarshal mapstructure_Decode server_undecodable)"
proof -
  let ?d5 = "disk0\<lparr>files := Some [(''.gitignore'', File (JStr ''*.json'')),
                                 (''5.json'', File (encodeTable gtable5))]\<rparr>"
  let ?r5 = "disk_refusing_6\<lparr>files := Some [(''.gitignore'', File (JStr ''*.json'')),
                                 (''5.json'', File (encodeTable gtable5))]\<rparr>"
  have og: "ongoing gtable6" using flags56 by (simp add: ongoing_def)
  have rej: "isl (Marshal_rejecting_6 gtable6)"
    using flags56 by (simp add: Marshal_rejecting_6_def)
  have m6: "json_Marshal gtable6 = Inr (encodeTable gtable6)"
    by (simp add: json_Marshal_def)
  have w6: "isl (WriteFile (tableFilename gtable6) (encodeTable gtable6) ?r5)"
    by (simp add: WriteFile_def disk_refusing_6_def tableFilename_gtable6)
  have a: "serializeTables Marshal_rejecting_6 ([gtable5, gtable9] @ gtable6 # [gtable10]) disk0 =
     (False, ?d5)"
  proof -
    have h: "fst (serializeTables Marshal_rejecting_6 [gtable5, gtable9] disk0)"
      by (simp only: serialize_before_rejected fst_conv)
    have "serializeTables Marshal_rejecting_6 ([gtable5, gtable9] @ gtable6 # [gtable10]) disk0 =
       (False, snd (serializeTables Marshal_rejecting_6 [gtable5, gtable9] disk0))"
      by (rule persistence_failures [THEN conjunct1, THEN mp]) (intro conjI disjI1 h og rej)
    then show ?thesis by (simp only: serialize_before_rejected snd_conv)
  qed
  have b: "serializeTables json_Marshal ([gtable5, gtable9] @ gtable6 # [gtable10]) disk_refusing_6 =
     (False, ?r5)"
  proof -
    have h: "fst (serializeTables json_Marshal [gtable5, gtable9] disk_refusing_6)"
      by (simp only: serialize_before_refused fst_conv)
    have w: "\<exists>b. json_Marshal gtable6 = Inr b \<and>
        isl (WriteFile (tableFilename gtable6) b
          (snd (serializeTables json_Marshal [gtable5, gtable9] disk_refusing_6)))"
      using m6 w6 by (simp only: serialize_before_refused snd_conv) blast
    have "serializeTables json_Marshal ([gtable5, gtable9] @ gtable6 # [gtable10]) disk_refusing_6 =
       (False, snd (serializeTables json_Marshal [gtable5, gtable9] disk_refusing_6))"
      by (rule persistence_failures [THEN conjunct1, THEN mp]) (intro conjI disjI2 h og w)
    then show ?thesis by (simp only: serialize_before_refused snd_conv)
  qed
  have f0: "files (disk server_no_directory) = None"
    by (simp add: server_no_directory_def)
  have c: "restoreTables json_Unmarshal mapstructure_Decode server_no_directory =
     Inl Failed_to_get_the_files"
    using persistence_failures [where s = server_no_directory and U = json_Unmarshal
        and D = mapstructure_Decode, THEN conjunct2, THEN conjunct1] f0
    by simp
  have f1: "files (disk server_unreadable) = Some [(''.gitignore'', File (JStr ''*.json'')),
      (''5.json'', File (encodeTable gtable5)), (''6.json'', Unreadable)]"
    by (simp add: server_unreadable_def)
  have e: "isl (restoreTables json_Unmarshal mapstructure_Decode server_unreadable)"
    using persistence_failures [where s = server_unreadable and U = json_Unmarshal
        and D = mapstructure_Decode and n = "''6.json''" and e = Unreadable
        and es = "[(''.gitignore'', File (JStr ''*.json'')),
      (''5.json'', File (encodeTable gtable5)), (''6.json'', Unreadable)]",
        THEN conjunct2, THEN conjunct2] f1
    by simp
  have f2: "files (disk server_undecodable) = Some [(''.gitignore'', File (JStr ''*.json'')),
      (''5.json'', File (encodeTable gtable5)), (''6.json'', File (JArr []))]"
    by (simp add: server_undecodable_def)
  have u: "isl (json_Unmarshal (JArr []))"
    by (simp add: json_Unmarshal_def decodeTable_def)
  have g: "isl (restoreTables json_Unmarshal mapstructure_Decode server_undecodable)"
    using persistence_failures [where s = server_undecodable and U = json_Unmarshal
        and D = mapstructure_Decode and n = "''6.json''" and e = "File (JArr [])"
        and es = "[(''.gitignore'', File (JStr ''*.json'')),
      (''5.json'', File (encodeTable gtable5)), (''6.json'', File (JArr []))]",
        THEN conjunct2, THEN conjunct2] f2 u
    by simp
  from og rej m6 w6 a b f0 c f1 e f2 u g serialize_before_rejected serialize_before_refused
  show ?thesis by (intro conjI)
qed

text \<open>
  Claim C8. (1) The record of a table is named by the decimal numeral of its identifier
  followed by \<open>.json\<close>, and two tables have the same file name exactly when they have the
  same identifier. (2) Whatever \<open>serializeTables\<close> returns, an entry of the directory whose
  name is not the file name of a running, non-replay table of the registry is as before:
  nothing is written for an unstarted or replay table. (3) When \<open>serializeTables\<close> returns
  true (the tables of the registry having distinct identifiers), the directory holds for
  every running, non-replay table the record marshalled from it, under the table's file
  name. (4) \<open>restoreTables\<close> skips \<open>.gitignore\<close>: on the directory without that entry it ends
  the process with the same failure, or completes in the same state, the entry apart;
  so the entry is neither read nor decoded, registers no table and starts no watcher,
  whatever it holds. (5) When \<open>restoreTables\<close> completes on a directory with distinct names,
  what is left of the directory are the entries named \<open>.gitignore\<close>, untouched; every other
  entry was a readable file that decoded to a table which is now in the registry and has
  its idle watcher started; the registry differs from the one before only at identifiers
  that such an entry decodes to; and every watcher started comes from such an entry.
\<close>

theorem records_written_and_scanned:
  "(tableFilename t = FormatUint (ID t) @ ''.json'' \<and>
    ParseNat (FormatUint (ID t)) = unat (ID t) \<and>
    (tableFilename t = tableFilename t' \<longleftrightarrow> ID t = ID t')) \<and>
   (files d = Some es \<longrightarrow>
      (\<exists>es'. files (snd (serializeTables M ts d)) = Some es' \<and>
         (\<forall>name. name \<notin> tableFilename ` {t \<in> set ts. ongoing t} \<longrightarrow>
                  map_of es' name = map_of es name))) \<and>
   (files d = Some es \<and> fst (serializeTables M ts d) \<and> distinct (map ID ts) \<longrightarrow>
      (\<exists>es'. files (snd (serializeTables M ts d)) = Some es' \<and>
         (\<forall>t\<in>set ts. ongoing t \<longrightarrow>
            (\<exists>b. M t = Inr b \<and> map_of es' (tableFilename t) = Some (File b))))) \<and>
   (files (disk s) = Some fs \<longrightarrow>
      restoreTables U D
        (s\<lparr>disk := (disk s)\<lparr>files := Some (AList.delete ''.gitignore'' fs)\<rparr>\<rparr>) =
      (case restoreTables U D s of
         Inl f \<Rightarrow> Inl f
       | Inr s' \<Rightarrow>
           Inr (s'\<lparr>disk := (disk s')\<lparr>files :=
                  map_option (AList.delete ''.gitignore'') (files (disk s'))\<rparr>\<rparr>))) \<and>
   (restoreTables U D s = Inr s' \<and> files (disk s) = Some fs \<and> distinct (map fst fs) \<longrightarrow>
      files (disk s') = Some (filter (\<lambda>e. fst e = ''.gitignore'') fs) \<and>
      (\<forall>(name, e)\<in>set fs. name \<noteq> ''.gitignore'' \<longrightarrow>
         (\<exists>b t0. e = File b \<and> U b = Inr t0 \<and> tables s' (ID t0) \<noteq> None \<and>
                  CheckIdle (ID t0) \<in> set (spawned s'))) \<and>
      (\<forall>k. tables s' k \<noteq> tables s k \<longrightarrow>
         (\<exists>name b t0. (name, File b) \<in> set fs \<and> name \<noteq> ''.gitignore'' \<and>
                       U b = Inr t0 \<and> ID t0 = k)) \<and>
      (\<forall>task\<in>set (spawned s'). task \<in> set (spawned s) \<or>
         (\<exists>name b t0 t tm. (name, File b) \<in> set fs \<and> name \<noteq> ''.gitignore'' \<and>
            U b = Inr t0 \<and> restoreTable D t0 = Inr (t, tm) \<and>
            (task \<in> set tm \<or> task = CheckIdle (ID t0)))))"
proof (intro conjI impI)
  show "tableFilename t = FormatUint (ID t) @ ''.json''"
    by (simp add: tableFilename_def)
  show "ParseNat (FormatUint (ID t)) = unat (ID t)"
    by (simp add: FormatUint_def ParseNat_FormatNat)
  show "tableFilename t = tableFilename t' \<longleftrightarrow> ID t = ID t'"
    by (auto dest: FormatUint_inj simp: tableFilename_def)
next
  assume es: "files d = Some es"
  have "\<exists>es'. files (snd (serializeTables M ts d)) = Some es' \<and>
      map_of es' ''.gitignore'' = map_of es ''.gitignore''"
    using es by (rule serializeTables_other) (rule tableFilename_not_gitignore)
  then obtain es' where es': "files (snd (serializeTables M ts d)) = Some es'"
    by blast
  have "map_of es' name = map_of es name"
    if "name \<notin> tableFilename ` {t \<in> set ts. ongoing t}" for name
  proof -
    have "\<exists>es''. files (snd (serializeTables M ts d)) = Some es'' \<and>
        map_of es'' name = map_of es name"
      using es
    proof (rule serializeTables_other)
      fix t assume "t \<in> set ts" "ongoing t"
      with that show "tableFilename t \<noteq> name" by auto
    qed
    with es' show ?thesis by simp
  qed
  with es' show "\<exists>es'. files (snd (serializeTables M ts d)) = Some es' \<and>
         (\<forall>name. name \<notin> tableFilename ` {t \<in> set ts. ongoing t} \<longrightarrow>
                  map_of es' name = map_of es name)"
    by blast
next
  assume a: "files d = Some es \<and> fst (serializeTables M ts d) \<and> distinct (map ID ts)"
  then have "\<exists>es'. files (snd (serializeTables M ts d)) = Some es' \<and>
      map_of es' ''.gitignore'' = map_of es ''.gitignore''"
    by (intro serializeTables_other [of d es ts]) (simp_all add: tableFilename_not_gitignore)
  then obtain es' where es': "files (snd (serializeTables M ts d)) = Some es'"
    by blast
  have "\<exists>b. M t = Inr b \<and> map_of es' (tableFilename t) = Some (File b)"
    if "t \<in> set ts" "ongoing t" for t
    using serializeTables_written [of d es M ts t] a that es' by auto
  with es' show "\<exists>es'. files (snd (serializeTables M ts d)) = Some es' \<and>
         (\<forall>t\<in>set ts. ongoing t \<longrightarrow>
            (\<exists>b. M t = Inr b \<and> map_of es' (tableFilename t) = Some (File b)))"
    by blast
next
  assume "files (disk s) = Some fs"
  then show "restoreTables U D
        (s\<lparr>disk := (disk s)\<lparr>files := Some (AList.delete ''.gitignore'' fs)\<rparr>\<rparr>) =
      (case restoreTables U D s of
         Inl f \<Rightarrow> Inl f
       | Inr s' \<Rightarrow>
           Inr (s'\<lparr>disk := (disk s')\<lparr>files :=
                  map_option (AList.delete ''.gitignore'') (files (disk s'))\<rparr>\<rparr>))"
    by (rule restoreTables_without_gitignore)
next
  assume a: "restoreTables U D s = Inr s' \<and> files (disk s) = Some fs \<and> distinct (map fst fs)"
  from a show "\<forall>k. tables s' k \<noteq> tables s k \<longrightarrow>
         (\<exists>name b t0. (name, File b) \<in> set fs \<and> name \<noteq> ''.gitignore'' \<and>
                       U b = Inr t0 \<and> ID t0 = k)"
    using restoreTables_tables_changed [of U D s s' fs] by blast
  from a show "\<forall>task\<in>set (spawned s'). task \<in> set (spawned s) \<or>
         (\<exists>name b t0 t tm. (name, File b) \<in> set fs \<and> name \<noteq> ''.gitignore'' \<and>
            U b = Inr t0 \<and> restoreTable D t0 = Inr (t, tm) \<and>
            (task \<in> set tm \<or> task = CheckIdle (ID t0)))"
    using restoreTables_spawned_from [of U D s s' fs] by blast
  from a show "files (disk s') = Some (filter (\<lambda>e. fst e = ''.gitignore'') fs)"
    by (intro restoreTables_disk [of U D s]) simp_all
  from a show "\<forall>(name, e)\<in>set fs. name \<noteq> ''.gitignore'' \<longrightarrow>
         (\<exists>b t0. e = File b \<and> U b = Inr t0 \<and> tables s' (ID t0) \<noteq> None \<and>
                  CheckIdle (ID t0) \<in> set (spawned s'))"
    by (auto dest!: restoreTables_scanned [of U D s s' fs])
qed

theorem records_written_and_scanned_witness:
  "files disk0 = Some [(''.gitignore'', File (JStr ''*.json''))] \<and>
   fst (serializeTables json_Marshal registry0 disk0) \<and>
   distinct (map ID registry0) \<and>
   files (snd (serializeTables json_Marshal registry0 disk0)) =
     Some [(''.gitignore'', File (JStr ''*.json'')), (''5.json'', File (encodeTable gtable5)),
           (''6.json'', File (encodeTable gtable6))] \<and>
   ''9.json'' \<notin> tableFilename ` {t \<in> set registry0. ongoing t} \<and>
   ''10.json'' \<notin> tableFilename ` {t \<in> set registry0. ongoing t} \<and>
   map_of [(''.gitignore'', File (JStr ''*.json'')), (''5.json'', File (encodeTable gtable5)),
           (''6.json'', File (encodeTable gtable6))] ''9.json'' =
     map_of [(''.gitignore'', File (JStr ''*.json''))] ''9.json'' \<and>
   map_of [(''.gitignore'', File (JStr ''*.json'')), (''5.json'', File (encodeTable gtable5)),
           (''6.json'', File (encodeTable gtable6))] ''10.json'' =
     map_of [(''.gitignore'', File (JStr ''*.json''))] ''10.json'' \<and>
   gtable5 \<in> set registry0 \<and> ongoing gtable5 \<and>
   map_of [(''.gitignore'', File (JStr ''*.json'')), (''5.json'', File (encodeTable gtable5)),
           (''6.json'', File (encodeTable gtable6))] (tableFilename gtable5) =
     Some (File (encodeTable gtable5)) \<and>
   restoreTables json_Unmarshal mapstructure_Decode server56 = Inr server56_restored \<and>
   files (disk server56) =
     Some [(''.gitignore'', File (JStr ''*.json'')), (''5.json'', File (encodeTable gtable5)),
           (''6.json'', File (encodeTable gtable6))] \<and>
   files (disk server56_restored) = Some [(''.gitignore'', File (JStr ''*.json''))] \<and>
   tables server56_restored 5 \<noteq> None \<and> tables server56_restored 6 \<noteq> None \<and>
   CheckIdle 5 \<in> set (spawned server56_restored) \<and>
   CheckIdle 6 \<in> set (spawned server56_restored) \<and>
   files (disk server_housekeeping_record) =
     Some [(''.gitignore'', File (encodeTable gtable6)), (''5.json'', File (encodeTable gtable5))] \<and>
   json_Unmarshal (encodeTable gtable6) =
     Inr (gtable6\<lparr>Table.Game := Some (generic_Game game6)\<rparr>) \<and>
   restoreTables json_Unmarshal mapstructure_Decode server_housekeeping_record =
     Inr server_housekeeping_record_restored \<and>
   tables server_housekeeping_record_restored 6 = None \<and>
   CheckIdle 6 \<notin> set (spawned server_housekeeping_record_restored) \<and>
   restoreTables json_Unmarshal mapstructure_Decode
     (server_housekeeping_record\<lparr>disk := (disk server_housekeeping_record)
        \<lparr>files := Some (AList.delete ''.gitignore''
           [(''.gitignore'', File (encodeTable gtable6)),
            (''5.json'', File (encodeTable gtable5))])\<rparr>\<rparr>) =
     Inr (server_housekeeping_record_restored
           \<lparr>disk := (disk server_housekeeping_record_restored)\<lparr>files := Some []\<rparr>\<rparr>)"
proof -
  let ?gi = "(''.gitignore'', File (JStr ''*.json'') :: jvalue entry)"
  let ?es = "[?gi, (''5.json'', File (encodeTable gtable5)), (''6.json'', File (encodeTable gtable6))]"
  have f0: "files disk0 = Some [?gi]" by (simp add: disk0_def)
  have ok: "fst (serializeTables json_Marshal registry0 disk0)"
    by (simp only: serialize56 fst_conv)
  have ids: "distinct (map ID registry0)"
    by (simp add: registry0_def gtable5_def gtable6_def gtable9_def gtable10_def)
  have f1: "files (snd (serializeTables json_Marshal registry0 disk0)) = Some ?es"
    by (simp only: serialize56 snd_conv) (simp add: disk0_def)
  have n9: "''9.json'' \<notin> tableFilename ` {t \<in> set registry0. ongoing t}"
    and n10: "''10.json'' \<notin> tableFilename ` {t \<in> set registry0. ongoing t}"
    by (simp_all add: ongoing56 tableFilename_gtable5 tableFilename_gtable6)
  have in5: "gtable5 \<in> set registry0" "ongoing gtable5"
    using flags56 by (simp_all add: registry0_def ongoing_def)
  from records_written_and_scanned [of gtable5 gtable5 disk0 "[?gi]" json_Marshal registry0,
      THEN conjunct2, THEN conjunct1, THEN mp, OF f0]
  have other: "map_of ?es name = map_of [?gi] name"
    if "name \<notin> tableFilename ` {t \<in> set registry0. ongoing t}" for name
    using that by (simp only: f1) blast
  from records_written_and_scanned [of gtable5 gtable5 disk0 "[?gi]" json_Marshal registry0,
      THEN conjunct2, THEN conjunct2, THEN conjunct1, THEN mp, OF conjI [OF f0 conjI [OF ok ids]]]
  have written: "\<exists>b. json_Marshal gtable5 = Inr b \<and>
      map_of ?es (tableFilename gtable5) = Some (File b)"
    using in5 by (simp only: f1) blast
  then have w5: "map_of ?es (tableFilename gtable5) = Some (File (encodeTable gtable5))"
    by (auto simp: json_Marshal_def)
  have d: "distinct (map fst ?es)" by simp
  from records_written_and_scanned [where U = json_Unmarshal and D = mapstructure_Decode
      and s = server56 and s' = server56_restored and fs = ?es,
      THEN conjunct2, THEN conjunct2, THEN conjunct2, THEN conjunct2, THEN mp,
      OF conjI [OF restore56 conjI [OF files56 d]]]
  have left: "files (disk server56_restored) = Some (filter (\<lambda>e. fst e = ''.gitignore'') ?es)"
    and scanned: "\<forall>(name, e)\<in>set ?es. name \<noteq> ''.gitignore'' \<longrightarrow>
         (\<exists>b t0. e = File b \<and> json_Unmarshal b = Inr t0 \<and>
            tables server56_restored (ID t0) \<noteq> None \<and>
            CheckIdle (ID t0) \<in> set (spawned server56_restored))"
    by blast+
  from left have l: "files (disk server56_restored) = Some [?gi]" by simp
  from scanned have t56: "tables server56_restored 5 \<noteq> None \<and>
      CheckIdle 5 \<in> set (spawned server56_restored)"
    "tables server56_restored 6 \<noteq> None \<and> CheckIdle 6 \<in> set (spawned server56_restored)"
    using flags56 by (auto simp: unmarshal5 unmarshal6)
  have fh: "files (disk server_housekeeping_record) =
     Some [(''.gitignore'', File (encodeTable gtable6)), (''5.json'', File (encodeTable gtable5))]"
    by (simp add: server_housekeeping_record_def)
  from records_written_and_scanned [where U = json_Unmarshal and D = mapstructure_Decode
      and s = server_housekeeping_record
      and fs = "[(''.gitignore'', File (encodeTable gtable6)),
                 (''5.json'', File (encodeTable gtable5))]",
      THEN conjunct2, THEN conjunct2, THEN conjunct2, THEN conjunct1, THEN mp, OF fh]
  have skip: "restoreTables json_Unmarshal mapstructure_Decode
     (server_housekeeping_record\<lparr>disk := (disk server_housekeeping_record)
        \<lparr>files := Some (AList.delete ''.gitignore''
           [(''.gitignore'', File (encodeTable gtable6)),
            (''5.json'', File (encodeTable gtable5))])\<rparr>\<rparr>) =
     Inr (server_housekeeping_record_restored
           \<lparr>disk := (disk server_housekeeping_record_restored)\<lparr>files := Some []\<rparr>\<rparr>)"
    by (simp only: restore_housekeeping_record sum.case)
       (simp add: server_housekeeping_record_restored_def)
  have none6: "tables server_housekeeping_record_restored 6 = None"
    "CheckIdle 6 \<notin> set (spawned server_housekeeping_record_restored)"
    by (simp_all add: server_housekeeping_record_restored_def)
  from f0 ok ids f1 n9 n10 other [OF n9] other [OF n10] in5 w5 restore56 files56 l t56
    fh unmarshal6 restore_housekeeping_record none6 skip
  show ?thesis by (intro conjI) simp_all
qed

text \<open>
  Claim C1, as stated, says that the action log after writing and restoring is identical
  to the log before. Table 5 is running and not a replay; its log holds a clue action,
  and after \<open>serializeTables\<close> and \<open>restoreTables\<close> the entry is the generic string-keyed map
  of the clue, so the restored log differs from the log before.
\<close>

theorem serialize_then_restore_log_counterexample:
  "Running gtable5 \<and> \<not> Replay gtable5 \<and>
   Table.Game gtable5 = Some game5 \<and>
   serializeTables json_Marshal registry0 disk0 = (True, disk56) \<and>
   restoreTables json_Unmarshal mapstructure_Decode
     \<lparr>tables = Map.empty, disk = disk56, spawned = []\<rparr> = Inr server56_restored \<and>
   tables server56_restored (ID gtable5) = Some gtable5_restored \<and>
   Table.Game gtable5_restored = Some game5_restored \<and>
   Actions game5 ! 1 = Typed ActionClue [(''giver'', JNum 0), (''target'', JNum 1),
                                         (''list'', JArr [JNum 3])] \<and>
   Actions game5_restored ! 1 =
     Generic (JObj [(''type'', JStr ''clue''), (''giver'', JNum 0), (''target'', JNum 1),
                    (''list'', JArr [JNum 3])]) \<and>
   Actions game5_restored \<noteq> Actions game5"
proof -
  have "serializeTables json_Marshal registry0 disk0 = (True, disk56)"
    by (simp only: serialize56 disk56_files)
  moreover have "restoreTables json_Unmarshal mapstructure_Decode
     \<lparr>tables = Map.empty, disk = disk56, spawned = []\<rparr> = Inr server56_restored"
    using restore56 by (simp only: server56_def)
  moreover have "tables server56_restored (ID gtable5) = Some gtable5_restored"
    using flags56 by (simp add: server56_restored_def)
  moreover have "Table.Game gtable5 = Some game5"
    "Table.Game gtable5_restored = Some game5_restored"
    by (simp_all add: gtable5_def gtable5_restored_def)
  moreover have "Actions game5 ! 1 = Typed ActionClue [(''giver'', JNum 0), (''target'', JNum 1),
                                         (''list'', JArr [JNum 3])]"
    "Actions game5_restored ! 1 =
     Generic (JObj [(''type'', JStr ''clue''), (''giver'', JNum 0), (''target'', JNum 1),
                    (''list'', JArr [JNum 3])])"
    "Actions game5_restored \<noteq> Actions game5"
    by (simp_all add: game5_def game5_restored_def clue1_def turn1_def)
  ultimately show ?thesis using flags56 by (intro conjI)
qed

text \<open>
  Claim C1, amended. Take a tables directory (its entries having distinct names) and a
  registry whose tables have distinct identifiers.

  (1) If \<open>serializeTables\<close> returns true and \<open>restoreTables\<close> then completes on the directory
  it leaves, then for every running, non-replay table \<open>t\<close> such that no file that was in the
  directory before, other than \<open>.gitignore\<close> and the files the pass overwrites, decodes to
  a table with the identifier of \<open>t\<close>, the registry holds under that identifier a table
  whose game has the same stacks, the same discard pile and the same clue-token count,
  whose every player has \<open>Present = False\<close>, and whose action log is the log of \<open>t\<close> entry by
  entry up to the type of the entries: a draw action is the same draw action, the struct
  of another kind is the generic string-keyed map of its JSON encoding, and an entry that
  already is a generic map is that map (the draw action decoded from it if its \<open>type\<close> is
  \<open>draw\<close>).

  (2) If the directory holds nothing but the housekeeping file and no write and no removal
  is refused, then \<open>serializeTables\<close> returns true, and \<open>restoreTables\<close> on the directory it
  leaves ends the process exactly when some running, non-replay table is not restorable:
  it has no game or no options, or it is timed with an active player index outside the
  players, or an entry of its log does not encode to a JSON object or encodes to a \<open>draw\<close>
  object that does not decode.
\<close>

theorem serialize_then_restore:
  assumes dir: "files d = Some es"
    and names: "distinct (map fst es)"
    and ids: "distinct (map ID ts)"
  shows
    "(fst (serializeTables json_Marshal ts d) \<and>
      restoreTables json_Unmarshal mapstructure_Decode
        (s\<lparr>disk := snd (serializeTables json_Marshal ts d)\<rparr>) = Inr s' \<and>
      t \<in> set ts \<and> ongoing t \<and>
      (\<forall>n b t1. (n, File b) \<in> set es \<and> n \<noteq> ''.gitignore'' \<and>
                 n \<notin> tableFilename ` {u \<in> set ts. ongoing u} \<and> json_Unmarshal b = Inr t1
                 \<longrightarrow> ID t1 \<noteq> ID t)
      \<longrightarrow>
      (\<exists>t' g g'. tables s' (ID t) = Some t' \<and> Table.Game t = Some g \<and>
         Table.Game t' = Some g' \<and>
         Stacks g' = Stacks g \<and> Discard g' = Discard g \<and> ClueTokens g' = ClueTokens g \<and>
         Actions g' = map as_restored (Actions g) \<and>
         (\<forall>p\<in>set (Table.Players t'). \<not> Present p))) \<and>
     ((\<forall>e\<in>set es. fst e = ''.gitignore'') \<and>
      (\<forall>name. \<not> write_fails d name \<and> \<not> remove_fails d name)
      \<longrightarrow>
      fst (serializeTables json_Marshal ts d) \<and>
      (isl (restoreTables json_Unmarshal mapstructure_Decode
              (s\<lparr>disk := snd (serializeTables json_Marshal ts d)\<rparr>))
         \<longleftrightarrow> (\<exists>t\<in>set ts. ongoing t \<and> \<not> restorable t)))"
proof -
  let ?d1 = "snd (serializeTables json_Marshal ts d)"
  let ?s1 = "s\<lparr>disk := ?d1\<rparr>"
  let ?dec = "\<lambda>t. t\<lparr>Table.Game := map_option generic_Game (Table.Game t)\<rparr>"
  from serializeTables_distinct [OF dir names, of json_Marshal ts]
  obtain es1 where es1: "files ?d1 = Some es1" and d1: "distinct (map fst es1)"
    by blast
  have fs1: "files (disk ?s1) = Some es1" using es1 by simp
  have other: "map_of es1 name = map_of es name"
    if "\<And>t. t \<in> set ts \<Longrightarrow> ongoing t \<Longrightarrow> tableFilename t \<noteq> name" for name
    using serializeTables_other [OF dir that, of ts json_Marshal] es1 by auto
  have written: "map_of es1 (tableFilename t) = Some (File (encodeTable t))"
    if "fst (serializeTables json_Marshal ts d)" "t \<in> set ts" "ongoing t" for t
    using serializeTables_written [OF dir that(1) ids that(2,3)] es1
    by (auto simp: json_Marshal_def)
  have partA: "\<exists>t' g g'. tables s' (ID t) = Some t' \<and> Table.Game t = Some g \<and>
         Table.Game t' = Some g' \<and>
         Stacks g' = Stacks g \<and> Discard g' = Discard g \<and> ClueTokens g' = ClueTokens g \<and>
         Actions g' = map as_restored (Actions g) \<and>
         (\<forall>p\<in>set (Table.Players t'). \<not> Present p)"
    if ok: "fst (serializeTables json_Marshal ts d)"
      and rt: "restoreTables json_Unmarshal mapstructure_Decode ?s1 = Inr s'"
      and t: "t \<in> set ts" "ongoing t"
      and stray: "\<And>n b t1. (n, File b) \<in> set es \<Longrightarrow> n \<noteq> ''.gitignore'' \<Longrightarrow>
           n \<notin> tableFilename ` {u \<in> set ts. ongoing u} \<Longrightarrow> json_Unmarshal b = Inr t1 \<Longrightarrow>
           ID t1 \<noteq> ID t"
  proof -
    have w: "map_of es1 (tableFilename t) = Some (File (encodeTable t))"
      using ok t by (rule written)
    then have mem: "(tableFilename t, File (encodeTable t)) \<in> set es1"
      by (rule map_of_SomeD)
    have "\<exists>t' tm. restoreTable mapstructure_Decode (?dec t) = Inr (t', tm) \<and>
           tables s' (ID (?dec t)) = Some t' \<and> set tm \<subseteq> set (spawned s') \<and>
           (\<forall>a b c. CheckTimer (ID (?dec t)) a b c \<in> set (spawned s') \<longrightarrow>
              CheckTimer (ID (?dec t)) a b c \<in> set (spawned ?s1) \<or>
              CheckTimer (ID (?dec t)) a b c \<in> set tm)"
      using rt fs1 d1 mem tableFilename_not_gitignore unmarshal_encoded
    proof (rule restoreTables_table)
      fix n' b' t1
      assume a: "(n', File b') \<in> set es1" "n' \<noteq> tableFilename t" "n' \<noteq> ''.gitignore''"
        "json_Unmarshal b' = Inr t1"
      from a(1) d1 have e: "map_of es1 n' = Some (File b')" by simp
      show "ID t1 \<noteq> ID (?dec t)"
      proof (cases "n' \<in> tableFilename ` {u \<in> set ts. ongoing u}")
        case True
        then obtain u where u: "u \<in> set ts" "ongoing u" "tableFilename u = n'" by auto
        from written [OF ok u(1,2)] u(3) e have "b' = encodeTable u" by simp
        with a(4) have "ID t1 = ID u" by (auto simp: unmarshal_encoded)
        moreover have "ID u \<noteq> ID t" using a(2) u(3) by (auto simp: tableFilename_def)
        ultimately show ?thesis by simp
      next
        case False
        then have "map_of es1 n' = map_of es n'" by (intro other) auto
        with e have "(n', File b') \<in> set es" by (auto dest: map_of_SomeD)
        from stray [OF this a(3) False a(4)] show ?thesis by simp
      qed
    qed
    then obtain t' tm where
      r: "restoreTable mapstructure_Decode (?dec t) = Inr (t', tm)" "tables s' (ID t) = Some t'"
      by auto
    from r(1) have "restorable t" by (rule restoreTable_decoded_Inr)
    from restoreTable_decoded [OF this] r show ?thesis by auto
  qed
  have partB: "fst (serializeTables json_Marshal ts d) \<and>
      (isl (restoreTables json_Unmarshal mapstructure_Decode ?s1)
         \<longleftrightarrow> (\<exists>t\<in>set ts. ongoing t \<and> \<not> restorable t))"
    if housekeeping: "\<forall>e\<in>set es. fst e = ''.gitignore''"
      and io: "\<forall>name. \<not> write_fails d name \<and> \<not> remove_fails d name"
  proof -
    have ok: "fst (serializeTables json_Marshal ts d)"
      using dir io by (intro serializeTables_succeeds) (simp_all add: json_Marshal_def)
    have rm: "\<not> remove_fails ?d1 name" for name
      using io by (simp add: serializeTables_flags)
    have origin: "\<exists>t. t \<in> set ts \<and> ongoing t \<and> tableFilename t = name"
      if "map_of es1 name = Some e" "name \<noteq> ''.gitignore''" for name e
    proof (rule ccontr)
      assume "\<not> (\<exists>t. t \<in> set ts \<and> ongoing t \<and> tableFilename t = name)"
      then have "map_of es1 name = map_of es name" by (intro other) auto
      with that(1) have "(name, e) \<in> set es" by (auto dest: map_of_SomeD)
      with housekeeping that(2) show False by auto
    qed
    let ?names = "sort (map fst es1)"
    have fails: "isl (restoreTables json_Unmarshal mapstructure_Decode ?s1)"
      if t: "t \<in> set ts" "ongoing t" "\<not> restorable t" for t
    proof (rule ccontr)
      assume "\<not> isl (restoreTables json_Unmarshal mapstructure_Decode ?s1)"
      then obtain s2 where "restoreTables json_Unmarshal mapstructure_Decode ?s1 = Inr s2"
        by (cases "restoreTables json_Unmarshal mapstructure_Decode ?s1") auto
      with fs1 have rf: "restoreFiles json_Unmarshal mapstructure_Decode ?names ?s1 = Inr s2"
        by (simp add: restoreTables_def ReadDir_def)
      have w: "map_of es1 (tableFilename t) = Some (File (encodeTable t))"
        using ok t(1,2) by (rule written)
      then have "tableFilename t \<in> set ?names"
        by (auto dest: map_of_SomeD intro: rev_image_eqI)
      from restoreFiles_Inr_all [OF rf fs1 this tableFilename_not_gitignore] w
      obtain t' tm where "restoreTable mapstructure_Decode (?dec t) = Inr (t', tm)"
        by (auto simp: unmarshal_encoded)
      then have "restorable t" by (rule restoreTable_decoded_Inr)
      with t(3) show False by simp
    qed
    have completes: "\<not> isl (restoreTables json_Unmarshal mapstructure_Decode ?s1)"
      if inv: "\<forall>t\<in>set ts. ongoing t \<longrightarrow> restorable t"
    proof -
      have "\<exists>s'. restoreFiles json_Unmarshal mapstructure_Decode ?names ?s1 = Inr s'"
      proof (rule restoreFiles_succeeds [OF fs1])
        show "distinct ?names" using d1 by simp
        fix n assume n: "n \<in> set ?names" "n \<noteq> ''.gitignore''"
        then obtain e where e: "map_of es1 n = Some e"
          by (cases "map_of es1 n") (auto simp: map_of_eq_None_iff)
        from origin [OF e n(2)] obtain t where t: "t \<in> set ts" "ongoing t" "tableFilename t = n"
          by blast
        from inv t have "restorable t" by simp
        from restoreTable_decoded [OF this] obtain t' tm where
          "restoreTable mapstructure_Decode (?dec t) = Inr (t', tm)" by blast
        with written [OF ok t(1,2)] t(3) rm [of n]
        show "\<not> remove_fails (disk ?s1) n \<and>
             (\<exists>b t0 t tm. map_of es1 n = Some (File b) \<and> json_Unmarshal b = Inr t0 \<and>
                          restoreTable mapstructure_Decode t0 = Inr (t, tm))"
          by (auto simp: unmarshal_encoded)
      qed
      with fs1 show ?thesis by (auto simp: restoreTables_def ReadDir_def)
    qed
    from ok fails completes show ?thesis by blast
  qed
  from partA partB show ?thesis by blast
qed

theorem serialize_then_restore_witness:
  "files disk0 = Some [(''.gitignore'', File (JStr ''*.json''))] \<and>
   distinct (map ID registry0) \<and>
   gtable5 \<in> set registry0 \<and> ongoing gtable5 \<and>
   fst (serializeTables json_Marshal registry0 disk0) \<and>
   restoreTables json_Unmarshal mapstructure_Decode
     (server0\<lparr>disk := snd (serializeTables json_Marshal registry0 disk0)\<rparr>) =
     Inr server56_restored \<and>
   tables server56_restored (ID gtable5) = Some gtable5_restored \<and>
   Table.Game gtable5 = Some game5 \<and>
   Table.Game gtable5_restored = Some game5_restored \<and>
   Stacks game5_restored = Stacks game5 \<and>
   Discard game5_restored = Discard game5 \<and>
   ClueTokens game5_restored = ClueTokens game5 \<and>
   Actions game5_restored = map as_restored (Actions game5) \<and>
   map Present (Table.Players gtable5_restored) = [False, False] \<and>
   restorable gtable5 \<and> restorable gtable6 \<and> \<not> ongoing gtable9 \<and> \<not> ongoing gtable10 \<and>
   \<not> isl (restoreTables json_Unmarshal mapstructure_Decode
            (server0\<lparr>disk := snd (serializeTables json_Marshal registry0 disk0)\<rparr>)) \<and>
   ongoing gtable5_restored \<and> restorable gtable5_restored \<and>
   fst (serializeTables json_Marshal [gtable5_restored] disk0) \<and>
   \<not> isl (restoreTables json_Unmarshal mapstructure_Decode
            (server0\<lparr>disk := snd (serializeTables json_Marshal [gtable5_restored] disk0)\<rparr>)) \<and>
   map as_restored (Actions game5_restored) = Actions game5_restored"
proof -
  let ?gi = "(''.gitignore'', File (JStr ''*.json'') :: jvalue entry)"
  have f0: "files disk0 = Some [?gi]" by (simp add: disk0_def)
  have hk: "\<forall>e\<in>set [?gi]. fst e = ''.gitignore''" by simp
  have dn: "distinct (map fst [?gi])" by simp
  have io: "\<forall>name. \<not> write_fails disk0 name \<and> \<not> remove_fails disk0 name"
    by (simp add: disk0_def)
  have ids: "distinct (map ID registry0)"
    by (simp add: registry0_def gtable5_def gtable6_def gtable9_def gtable10_def)
  have in5: "gtable5 \<in> set registry0" "ongoing gtable5"
    using flags56 by (simp_all add: registry0_def ongoing_def)
  have start: "server0\<lparr>disk := snd (serializeTables json_Marshal registry0 disk0)\<rparr> = server56"
    by (simp add: server0_def server56_def disk56_def)
  have ok: "fst (serializeTables json_Marshal registry0 disk0)"
    by (simp only: serialize56 fst_conv)
  have rt: "restoreTables json_Unmarshal mapstructure_Decode
     (server0\<lparr>disk := snd (serializeTables json_Marshal registry0 disk0)\<rparr>) =
     Inr server56_restored"
    unfolding start by (rule restore56)
  have stray: "\<forall>n b t1. (n, File b) \<in> set [?gi] \<and> n \<noteq> ''.gitignore'' \<and>
      n \<notin> tableFilename ` {u \<in> set registry0. ongoing u} \<and> json_Unmarshal b = Inr t1
      \<longrightarrow> ID t1 \<noteq> ID gtable5"
    by simp
  have r5: "tables server56_restored (ID gtable5) = Some gtable5_restored"
    using flags56 by (simp add: server56_restored_def)
  have g5: "Table.Game gtable5 = Some game5" "Table.Game gtable5_restored = Some game5_restored"
    by (simp_all add: gtable5_def gtable5_restored_def)
  from serialize_then_restore [OF f0 dn ids, of server0 server56_restored gtable5,
      THEN conjunct1, THEN mp, OF conjI [OF ok conjI [OF rt conjI [OF in5(1) conjI [OF in5(2) stray]]]]]
  have concl: "Stacks game5_restored = Stacks game5 \<and>
      Discard game5_restored = Discard game5 \<and>
      ClueTokens game5_restored = ClueTokens game5 \<and>
      Actions game5_restored = map as_restored (Actions game5) \<and>
      (\<forall>p\<in>set (Table.Players gtable5_restored). \<not> Present p)"
    by (auto simp: r5 g5)
  have pres: "map Present (Table.Players gtable5_restored) = [False, False]"
    by (simp add: gtable5_restored_def)
  have all: "\<not> (\<exists>t\<in>set registry0. ongoing t \<and> \<not> restorable t)"
    using restorable56_each by (simp add: registry0_def)
  from serialize_then_restore [OF f0 dn ids, of server0 undefined undefined,
      THEN conjunct2, THEN mp, OF conjI [OF hk io]] all
  have completes: "\<not> isl (restoreTables json_Unmarshal mapstructure_Decode
            (server0\<lparr>disk := snd (serializeTables json_Marshal registry0 disk0)\<rparr>))"
    by blast
  have again: "ongoing gtable5_restored"
    using flags56 by (simp add: ongoing_def gtable5_restored_def)
  have ids1: "distinct (map ID [gtable5_restored])" by simp
  have all1: "\<not> (\<exists>t\<in>set [gtable5_restored]. ongoing t \<and> \<not> restorable t)"
    using restorable56_each by simp
  from serialize_then_restore [OF f0 dn ids1, of server0 undefined undefined,
      THEN conjunct2, THEN mp, OF conjI [OF hk io]] all1
  have twice: "fst (serializeTables json_Marshal [gtable5_restored] disk0)"
    "\<not> isl (restoreTables json_Unmarshal mapstructure_Decode
            (server0\<lparr>disk := snd (serializeTables json_Marshal [gtable5_restored] disk0)\<rparr>))"
    by blast+
  have same: "map as_restored (Actions game5_restored) = Actions game5_restored"
    by (simp add: game5_restored_def game5_def)
  from f0 ids in5 ok rt r5 g5 concl pres restorable56_each completes again twice same
  show ?thesis by (intro conjI) simp_all
qed

section \<open>The claim about card notes\<close>

text \<open>
  Claim C9. On Enter the note stored in \<open>globals.ourNotes\<close> for the card is
  \<open>stripHTMLtags\<close> of the input, which is the text content of the input parsed as HTML; the
  notes of the other cards are unchanged; and the messages sent are the earlier ones,
  followed by one \<open>note\<close> message carrying the card's order and that same stripped string
  if the client is not in a replay, the stripped string differs from the note stored
  before, and \<open>set\<close> did not throw, and by nothing otherwise. On Escape the stored notes, the
  notes of all users and the messages sent are unchanged.
\<close>

theorem keydown_note:
  "stripHTMLtags textContent input = textContent input \<and>
   (key = ''Enter'' \<longrightarrow>
      ourNotes (keydown textContent display_returns key input order g) order =
        Some (stripHTMLtags textContent input) \<and>
      (\<forall>k. k \<noteq> order \<longrightarrow>
         ourNotes (keydown textContent display_returns key input order g) k = ourNotes g k) \<and>
      sent (keydown textContent display_returns key input order g) =
        sent g @
          (if \<not> replay g \<and> Some (stripHTMLtags textContent input) \<noteq> ourNotes g order \<and>
              \<not> (globals.spectating g \<and> allNotes g order = None)
           then [(order, stripHTMLtags textContent input)] else [])) \<and>
   (key = ''Escape'' \<longrightarrow>
      ourNotes (keydown textContent display_returns key input order g) = ourNotes g \<and>
      allNotes (keydown textContent display_returns key input order g) = allNotes g \<and>
      sent (keydown textContent display_returns key input order g) = sent g)"
  by (simp add: stripHTMLtags_def keydown_def set'_def Let_def split: prod.splits)

theorem keydown_note_witness:
  "ourNotes (keydown browser_textContent True ''Enter'' ''<b>b1</b>'' 3 globals0) 3 = Some ''b1'' \<and>
   sent (keydown browser_textContent True ''Enter'' ''<b>b1</b>'' 3 globals0) = [(3, ''b1'')] \<and>
   ourNotes (keydown browser_textContent True ''Escape'' ''<b>b1</b>'' 3 globals0) 3 = Some ''old'' \<and>
   sent (keydown browser_textContent True ''Escape'' ''<b>b1</b>'' 3 globals0) = []"
proof -
  have s: "stripHTMLtags browser_textContent ''<b>b1</b>'' = ''b1''"
    using keydown_note [of browser_textContent "''<b>b1</b>''", THEN conjunct1]
    by (simp add: browser_textContent_def)
  have g: "\<not> replay globals0" "ourNotes globals0 3 = Some ''old''" "\<not> globals.spectating globals0"
    "sent globals0 = []" "ourNotes globals0 = [3 \<mapsto> ''old'']"
    by (simp_all add: globals0_def)
  from keydown_note [of browser_textContent "''<b>b1</b>''" "''Enter''" True 3 globals0,
      THEN conjunct2, THEN conjunct1, THEN mp, OF refl]
  have enter: "ourNotes (keydown browser_textContent True ''Enter'' ''<b>b1</b>'' 3 globals0) 3 = Some ''b1''"
    "sent (keydown browser_textContent True ''Enter'' ''<b>b1</b>'' 3 globals0) = [(3, ''b1'')]"
    by (simp_all add: s g)
  from keydown_note [of browser_textContent "''<b>b1</b>''" "''Escape''" True 3 globals0,
      THEN conjunct2, THEN conjunct2, THEN mp, OF refl]
  have escape: "ourNotes (keydown browser_textContent True ''Escape'' ''<b>b1</b>'' 3 globals0) 3 = Some ''old''"
    "sent (keydown browser_textContent True ''Escape'' ''<b>b1</b>'' 3 globals0) = []"
    by (simp_all add: g)
  from enter escape show ?thesis by (intro conjI)
qed

end
